(* ===== verification/Prelude.thy ===== *)
theory Prelude
  imports
    Main
    "HOL-Library.Char_ord"
    "HOL-Library.List_Lexorder"
    "HOL-Library.Product_Lexorder"
    "HOL-Library.Sublist"
    "HOL-Library.Word"
begin

text \<open>
  Shared vocabulary of the development: the Rust and SQL primitives that more than one component
  of \<^verbatim>\<open>ratatoskr-threads\<close> relies on, and the generic lemmas about them.

  \<^item> Rust text (\<^verbatim>\<open>String\<close>, \<^verbatim>\<open>&str\<close>) is a list of UTF-8 bytes, one \<^typ>\<open>char\<close> per byte, so that
    \<^const>\<open>length\<close> is \<^verbatim>\<open>str::len\<close>; \<open>chars\<close> groups the bytes into Unicode scalars.
  \<^item> \<^verbatim>\<open>Result<T, E>\<close> is \<open>'e + 'a\<close> and the \<open>?\<close> operator is \<open>bindE\<close>.
  \<^item> A SQL table is a list of rows; \<open>update_where\<close>, \<open>delete_where\<close> and \<open>count_where\<close> are the
    \<^verbatim>\<open>update\<close>, \<^verbatim>\<open>delete\<close> and \<^verbatim>\<open>count(*)\<close> statements over one table.
  \<^item> Bytes and the \<^verbatim>\<open>u64\<close> counters that wrap are words; other integers are \<^typ>\<open>nat\<close> or \<^typ>\<open>int\<close>,
    with saturation written out where the code saturates.
\<close>

named_theorems table_simps "equations about rows selected, updated and deleted in a table"
named_theorems text_simps "equations about the Rust text primitives"
named_theorems vocabulary_defs "definitions of closed wire vocabularies"

section \<open>Types shared by every component\<close>

type_synonym uuid = nat
type_synonym instant = int
type_synonym bytes = "8 word list"

definition seconds :: "int \<Rightarrow> instant" where
  "seconds n = n * 1000000"

section \<open>Fallible computations\<close>

definition bindE :: "'e + 'a \<Rightarrow> ('a \<Rightarrow> 'e + 'b) \<Rightarrow> 'e + 'b" where
  "bindE m f = (case m of Inl e \<Rightarrow> Inl e | Inr x \<Rightarrow> f x)"

definition map_err :: "('e \<Rightarrow> 'f) \<Rightarrow> 'e + 'a \<Rightarrow> 'f + 'a" where
  "map_err h m = (case m of Inl e \<Rightarrow> Inl (h e) | Inr x \<Rightarrow> Inr x)"

definition ok_or :: "'e \<Rightarrow> 'a option \<Rightarrow> 'e + 'a" where
  "ok_or e x = (case x of None \<Rightarrow> Inl e | Some v \<Rightarrow> Inr v)"

definition ensure :: "bool \<Rightarrow> 'e \<Rightarrow> 'e + unit" where
  "ensure b e = (if b then Inr () else Inl e)"

fun foldE :: "('s \<Rightarrow> 'x \<Rightarrow> 'e + 's) \<Rightarrow> 's \<Rightarrow> 'x list \<Rightarrow> 'e + 's" where
  "foldE f s [] = Inr s"
| "foldE f s (x # xs) = bindE (f s x) (\<lambda>s'. foldE f s' xs)"

fun mapE :: "('x \<Rightarrow> 'e + 'y) \<Rightarrow> 'x list \<Rightarrow> 'e + 'y list" where
  "mapE f [] = Inr []"
| "mapE f (x # xs) = bindE (f x) (\<lambda>y. bindE (mapE f xs) (\<lambda>ys. Inr (y # ys)))"

lemma bindE_simps [simp]:
  "bindE (Inl e) f = Inl e"
  "bindE (Inr x) f = f x"
  by (simp_all add: bindE_def)

lemma bindE_eq_Inr [simp]: "bindE m f = Inr y \<longleftrightarrow> (\<exists>x. m = Inr x \<and> f x = Inr y)"
  by (cases m) (simp_all add: bindE_def)

lemma bindE_eq_Inl: "bindE m f = Inl e \<longleftrightarrow> m = Inl e \<or> (\<exists>x. m = Inr x \<and> f x = Inl e)"
  by (cases m) (simp_all add: bindE_def)

lemma map_err_simps [simp]:
  "map_err h (Inl e) = Inl (h e)"
  "map_err h (Inr x) = Inr x"
  by (simp_all add: map_err_def)

lemma map_err_eq_Inr [simp]: "map_err h m = Inr y \<longleftrightarrow> m = Inr y"
  by (cases m) (simp_all add: map_err_def)

lemma map_err_eq_Inl: "map_err h m = Inl y \<longleftrightarrow> (\<exists>e. m = Inl e \<and> y = h e)"
  by (cases m) (auto simp: map_err_def)

lemma ok_or_simps [simp]:
  "ok_or e None = Inl e"
  "ok_or e (Some x) = Inr x"
  by (simp_all add: ok_or_def)

lemma ok_or_eq_Inr [simp]: "ok_or e x = Inr y \<longleftrightarrow> x = Some y"
  by (cases x) (simp_all add: ok_or_def)

lemma ensure_simps [simp]:
  "ensure True e = Inr ()"
  "ensure False e = Inl e"
  by (simp_all add: ensure_def)

lemma ensure_eq_Inr [simp]: "ensure b e = Inr u \<longleftrightarrow> b"
  by (simp add: ensure_def)

lemma ensure_eq_Inl [simp]: "ensure b e = Inl e' \<longleftrightarrow> \<not> b \<and> e' = e"
  by (auto simp: ensure_def)

lemma foldE_invariant:
  assumes "foldE f s xs = Inr s'"
    and "\<And>s x s'. x \<in> set xs \<Longrightarrow> f s x = Inr s' \<Longrightarrow> P s \<Longrightarrow> P s'"
    and "P s"
  shows "P s'"
  using assms by (induction xs arbitrary: s) auto

lemma foldE_relation:
  assumes "foldE f s xs = Inr s'"
    and "\<And>s x s'. x \<in> set xs \<Longrightarrow> f s x = Inr s' \<Longrightarrow> R s s'"
    and "\<And>s. R s s"
    and "\<And>a b c. R a b \<Longrightarrow> R b c \<Longrightarrow> R a c"
  shows "R s s'"
  using assms by (induction xs arbitrary: s) (auto, metis)

section \<open>Tables\<close>

definition update_where :: "('r \<Rightarrow> bool) \<Rightarrow> ('r \<Rightarrow> 'r) \<Rightarrow> 'r list \<Rightarrow> 'r list" where
  "update_where P f rows = map (\<lambda>r. if P r then f r else r) rows"

definition delete_where :: "('r \<Rightarrow> bool) \<Rightarrow> 'r list \<Rightarrow> 'r list" where
  "delete_where P rows = filter (\<lambda>r. \<not> P r) rows"

definition count_where :: "('r \<Rightarrow> bool) \<Rightarrow> 'r list \<Rightarrow> nat" where
  "count_where P rows = length (filter P rows)"

definition exists_where :: "('r \<Rightarrow> bool) \<Rightarrow> 'r list \<Rightarrow> bool" where
  "exists_where P rows = list_ex P rows"

lemma update_where_simps [simp, table_simps]:
  "update_where P f [] = []"
  "update_where P f (r # rs) = (if P r then f r else r) # update_where P f rs"
  "update_where P f (rs @ ss) = update_where P f rs @ update_where P f ss"
  by (simp_all add: update_where_def)

lemma length_update_where [simp]: "length (update_where P f rs) = length rs"
  by (simp add: update_where_def)

lemma set_update_where [table_simps]:
  "set (update_where P f rs) = (\<lambda>r. if P r then f r else r) ` set rs"
  by (simp add: update_where_def)

lemma map_update_where [table_simps]:
  assumes "\<And>r. k (f r) = k r"
  shows "map k (update_where P f rs) = map k rs"
  using assms by (simp add: update_where_def)

lemma delete_where_simps [simp, table_simps]:
  "delete_where P [] = []"
  "delete_where P (r # rs) = (if P r then delete_where P rs else r # delete_where P rs)"
  "delete_where P (rs @ ss) = delete_where P rs @ delete_where P ss"
  by (simp_all add: delete_where_def)

lemma set_delete_where [simp, table_simps]: "set (delete_where P rs) = {r \<in> set rs. \<not> P r}"
  by (auto simp: delete_where_def)

lemma count_where_simps [simp, table_simps]:
  "count_where P [] = 0"
  "count_where P (r # rs) = (if P r then Suc (count_where P rs) else count_where P rs)"
  "count_where P (rs @ ss) = count_where P rs + count_where P ss"
  by (simp_all add: count_where_def)

lemma count_where_0_iff [simp]: "count_where P rs = 0 \<longleftrightarrow> (\<forall>r \<in> set rs. \<not> P r)"
  by (induction rs) auto

lemma count_where_pos_iff [simp]: "0 < count_where P rs \<longleftrightarrow> (\<exists>r \<in> set rs. P r)"
  by (induction rs) auto

lemma count_where_delete_le: "count_where P (delete_where Q rs) \<le> count_where P rs"
  by (induction rs) auto

lemma count_where_update [table_simps]:
  assumes "\<And>r. P (f r) = P r"
  shows "count_where P (update_where Q f rs) = count_where P rs"
  using assms by (induction rs) auto

lemma exists_where_iff [simp]: "exists_where P rs \<longleftrightarrow> (\<exists>r \<in> set rs. P r)"
  by (simp add: exists_where_def list_ex_iff)

lemma find_update_where:
  assumes "\<And>r. P (f r) = P r"
  shows "List.find P (update_where Q f rs)
    = map_option (\<lambda>r. if Q r then f r else r) (List.find P rs)"
  using assms by (induction rs) auto

lemma find_None_conv: "List.find P rs = None \<longleftrightarrow> (\<forall>r \<in> set rs. \<not> P r)"
  by (induction rs) auto

lemma find_SomeD: "List.find P rs = Some r \<Longrightarrow> r \<in> set rs \<and> P r"
  by (induction rs) (auto split: if_splits)

lemma find_append: "List.find P (rs @ ss) = (case List.find P rs of None \<Rightarrow> List.find P ss | Some r \<Rightarrow> Some r)"
  by (induction rs) auto

lemma find_delete_where:
  assumes "\<And>r. P r \<Longrightarrow> \<not> Q r"
  shows "List.find P (delete_where Q rs) = List.find P rs"
  using assms by (induction rs) auto

text \<open>The row a primary key selects is unique when the key column is distinct.\<close>

lemma find_key_eq:
  assumes "distinct (map k rs)" and "r \<in> set rs"
  shows "List.find (\<lambda>s. k s = k r) rs = Some r"
  using assms by (induction rs) force+

lemma key_unique:
  assumes "distinct (map k rs)" and "r \<in> set rs" and "s \<in> set rs" and "k r = k s"
  shows "r = s"
  using assms by (metis find_key_eq option.inject)

section \<open>Rust text\<close>

abbreviation byte_of :: "char \<Rightarrow> nat" where
  "byte_of c \<equiv> of_char c"

definition as_bytes :: "string \<Rightarrow> bytes" where
  "as_bytes s = map of_char s"

definition is_continuation :: "char \<Rightarrow> bool" where
  "is_continuation c \<longleftrightarrow> 128 \<le> byte_of c \<and> byte_of c < 192"

definition char_count :: "string \<Rightarrow> nat" where
  "char_count s = length (filter (\<lambda>c. \<not> is_continuation c) s)"

definition is_ascii :: "string \<Rightarrow> bool" where
  "is_ascii s \<longleftrightarrow> list_all (\<lambda>c. byte_of c < 128) s"

definition is_lower :: "char \<Rightarrow> bool" where
  "is_lower c \<longleftrightarrow> CHR ''a'' \<le> c \<and> c \<le> CHR ''z''"

definition is_upper :: "char \<Rightarrow> bool" where
  "is_upper c \<longleftrightarrow> CHR ''A'' \<le> c \<and> c \<le> CHR ''Z''"

definition is_digit :: "char \<Rightarrow> bool" where
  "is_digit c \<longleftrightarrow> CHR ''0'' \<le> c \<and> c \<le> CHR ''9''"

text \<open>\<^verbatim>\<open>u8::to_ascii_lowercase\<close> sets bit 5 of an upper-case letter.\<close>

definition ascii_lower :: "char \<Rightarrow> char" where
  "ascii_lower c = (if is_upper c
    then (case c of Char b0 b1 b2 b3 b4 b5 b6 b7 \<Rightarrow> Char b0 b1 b2 b3 b4 True b6 b7) else c)"

definition to_ascii_lowercase :: "string \<Rightarrow> string" where
  "to_ascii_lowercase s = map ascii_lower s"

definition eq_ignore_ascii_case :: "string \<Rightarrow> string \<Rightarrow> bool" where
  "eq_ignore_ascii_case s t \<longleftrightarrow> to_ascii_lowercase s = to_ascii_lowercase t"

fun split_once :: "string \<Rightarrow> string \<Rightarrow> (string \<times> string) option" where
  "split_once pat [] = (if pat = [] then Some ([], []) else None)"
| "split_once pat (c # s) = (if prefix pat (c # s) then Some ([], drop (length pat) (c # s))
    else map_option (\<lambda>(a, b). (c # a, b)) (split_once pat s))"

definition rsplit_once :: "char \<Rightarrow> string \<Rightarrow> (string \<times> string) option" where
  "rsplit_once c s = map_option (\<lambda>(a, b). (rev b, rev a)) (split_once [c] (rev s))"

definition strip_prefix :: "string \<Rightarrow> string \<Rightarrow> string option" where
  "strip_prefix p s = (if prefix p s then Some (drop (length p) s) else None)"

definition trim_end_matches :: "char \<Rightarrow> string \<Rightarrow> string" where
  "trim_end_matches c s = rev (dropWhile ((=) c) (rev s))"

lemma ascii_lower_idem [simp]: "ascii_lower (ascii_lower c) = ascii_lower c"
  by (cases c) (auto simp: ascii_lower_def is_upper_def less_eq_char_def of_char_def)

lemma ascii_lower_cases: "ascii_lower c = c \<or> is_upper c \<and> is_lower (ascii_lower c)"
  by (cases c) (auto simp: ascii_lower_def is_upper_def is_lower_def less_eq_char_def of_char_def)

lemma ascii_lower_not_upper [simp]: "\<not> is_upper c \<Longrightarrow> ascii_lower c = c"
  by (simp add: ascii_lower_def)

lemma to_ascii_lowercase_idem [simp]: "to_ascii_lowercase (to_ascii_lowercase s) = to_ascii_lowercase s"
  by (simp add: to_ascii_lowercase_def)

lemma length_to_ascii_lowercase [simp]: "length (to_ascii_lowercase s) = length s"
  by (simp add: to_ascii_lowercase_def)

lemma to_ascii_lowercase_Nil_iff [simp]: "to_ascii_lowercase s = [] \<longleftrightarrow> s = []"
  by (simp add: to_ascii_lowercase_def)

text \<open>A byte that is not an upper-case letter survives lower-casing, so it occurs in a text only
  if it occurs in the lower-cased text.\<close>

lemma lowercase_mem:
  assumes "c \<in> set s" and "\<not> is_upper c"
  shows "c \<in> set (to_ascii_lowercase s)"
  using assms by (force simp: to_ascii_lowercase_def)

lemma ascii_of_lowercase: "is_ascii (to_ascii_lowercase s) \<Longrightarrow> is_ascii s"
proof -
  have "byte_of c < 128" if "byte_of (ascii_lower c) < 128" for c
    using that ascii_lower_cases [of c] by (auto simp: is_upper_def less_eq_char_def)
  then show "is_ascii (to_ascii_lowercase s) \<Longrightarrow> is_ascii s"
    by (auto simp: is_ascii_def to_ascii_lowercase_def list_all_iff)
qed

lemma is_ascii_simps [simp, text_simps]:
  "is_ascii []"
  "is_ascii (c # s) \<longleftrightarrow> byte_of c < 128 \<and> is_ascii s"
  "is_ascii (s @ t) \<longleftrightarrow> is_ascii s \<and> is_ascii t"
  by (simp_all add: is_ascii_def)

lemma char_count_ascii: "is_ascii s \<Longrightarrow> char_count s = length s"
proof -
  assume "is_ascii s"
  then have "filter (\<lambda>c. \<not> is_continuation c) s = s"
    by (auto simp: is_ascii_def is_continuation_def list_all_iff filter_id_conv)
  then show ?thesis by (simp add: char_count_def)
qed

lemma split_once_sound: "split_once pat s = Some (a, b) \<Longrightarrow> s = a @ pat @ b"
proof (induction s arbitrary: a)
  case Nil
  then show ?case by (auto split: if_splits)
next
  case (Cons c s)
  show ?case
  proof (cases "prefix pat (c # s)")
    case True
    with Cons.prems have "a = []" "b = drop (length pat) (c # s)" by auto
    with True show ?thesis by (auto simp: prefix_def)
  next
    case False
    with Cons show ?thesis by auto
  qed
qed

lemma split_once_first:
  assumes "pat \<noteq> []" and "hd pat \<notin> set a"
  shows "split_once pat (a @ pat @ b) = Some (a, b)"
  using assms
proof (induction a)
  case Nil
  then obtain p ps where "pat = p # ps" by (cases pat) auto
  then show ?case by simp
next
  case (Cons c a)
  then have "\<not> prefix pat (c # a @ pat @ b)" by (cases pat) auto
  with Cons show ?case by simp
qed

lemma split_once_char_Some [text_simps]:
  "split_once [c] s = Some (a, b) \<longleftrightarrow> s = a @ c # b \<and> c \<notin> set a"
proof (induction s arbitrary: a)
  case (Cons d s)
  then show ?case by (cases a) auto
qed simp

lemma split_once_char_None [text_simps]: "split_once [c] s = None \<longleftrightarrow> c \<notin> set s"
  by (induction s) auto

lemma rsplit_once_Some [text_simps]:
  "rsplit_once c s = Some (a, b) \<longleftrightarrow> s = a @ c # b \<and> c \<notin> set b"
proof -
  have "rsplit_once c s = Some (a, b) \<longleftrightarrow> split_once [c] (rev s) = Some (rev b, rev a)"
    by (auto simp: rsplit_once_def)
  also have "\<dots> \<longleftrightarrow> rev s = rev b @ c # rev a \<and> c \<notin> set b"
    by (simp add: split_once_char_Some)
  also have "\<dots> \<longleftrightarrow> s = a @ c # b \<and> c \<notin> set b"
    by (metis append.assoc append_Cons append_Nil rev.simps(2) rev_append rev_rev_ident)
  finally show ?thesis .
qed

lemma rsplit_once_None [text_simps]: "rsplit_once c s = None \<longleftrightarrow> c \<notin> set s"
  by (simp add: rsplit_once_def split_once_char_None)

text \<open>The text before the first occurrence of a byte, or all of it.\<close>

definition cut_at :: "char \<Rightarrow> string \<Rightarrow> string" where
  "cut_at c s = (case split_once [c] s of Some (before, _) \<Rightarrow> before | None \<Rightarrow> s)"

lemma cut_at_takeWhile: "cut_at c s = takeWhile ((\<noteq>) c) s"
proof (cases "split_once [c] s")
  case None
  then have "takeWhile ((\<noteq>) c) s = s"
    by (auto simp: split_once_char_None takeWhile_eq_all_conv)
  then show ?thesis unfolding cut_at_def None by (simp only: option.case)
next
  case (Some ab)
  then obtain a b where "ab = (a, b)" "s = a @ c # b" "c \<notin> set a"
    by (cases ab) (auto simp: split_once_char_Some)
  then have "takeWhile ((\<noteq>) c) s = a"
    by (metis (mono_tags, lifting) append_Nil2 takeWhile.simps(2) takeWhile_append2)
  with Some \<open>ab = (a, b)\<close> show ?thesis by (simp add: cut_at_def)
qed

lemma strip_prefix_Some [text_simps]: "strip_prefix p s = Some t \<longleftrightarrow> s = p @ t"
  by (auto simp: strip_prefix_def prefix_def)

lemma trim_end_matches_split: "\<exists>n. s = trim_end_matches c s @ replicate n c"
proof -
  have "rev s = takeWhile ((=) c) (rev s) @ dropWhile ((=) c) (rev s)" by simp
  then have "s = trim_end_matches c s @ rev (takeWhile ((=) c) (rev s))"
    unfolding trim_end_matches_def by (metis rev_append rev_rev_ident)
  moreover have "rev (takeWhile ((=) c) (rev s)) = replicate (length (takeWhile ((=) c) (rev s))) c"
    by (rule replicate_eqI) (auto dest: set_takeWhileD)
  ultimately show ?thesis by metis
qed

lemma trim_end_matches_append [simp]:
  "c \<notin> set s \<Longrightarrow> trim_end_matches c (s @ replicate n c) = s"
  by (cases s rule: rev_cases) (auto simp: trim_end_matches_def dropWhile_append3)

section \<open>Integrity of a table\<close>

text \<open>A table is in order when its key column is distinct and every row satisfies the row
  predicate (its checks and foreign keys). The lemmas are the cases of the SQL statements.\<close>

definition table_ok :: "('r \<Rightarrow> 'k) \<Rightarrow> ('r \<Rightarrow> bool) \<Rightarrow> 'r list \<Rightarrow> bool" where
  "table_ok k P rows \<longleftrightarrow> distinct (map k rows) \<and> list_all P rows"

definition unique_on :: "('r \<Rightarrow> 'k) \<Rightarrow> 'r list \<Rightarrow> bool" where
  "unique_on k rows \<longleftrightarrow> distinct (map k rows)"

definition unique_some :: "('r \<Rightarrow> 'k option) \<Rightarrow> 'r list \<Rightarrow> bool" where
  "unique_some k rows \<longleftrightarrow> distinct (List.map_filter k rows)"

lemma table_ok_Nil [simp]: "table_ok k P []"
  by (simp add: table_ok_def)

lemma table_ok_append [simp]:
  "table_ok k P (rows @ [r]) \<longleftrightarrow> table_ok k P rows \<and> (\<forall>s \<in> set rows. k s \<noteq> k r) \<and> P r"
  unfolding table_ok_def by (auto simp: image_iff) (metis+)?

lemma table_ok_update:
  assumes "table_ok k P rows"
    and "\<And>r. r \<in> set rows \<Longrightarrow> Q r \<Longrightarrow> P r \<Longrightarrow> k (f r) = k r \<and> P (f r)"
  shows "table_ok k P (update_where Q f rows)"
proof -
  have "map k (update_where Q f rows) = map k rows"
    using assms by (auto simp: table_ok_def update_where_def list_all_iff)
  with assms show ?thesis by (auto simp: table_ok_def list_all_iff set_update_where)
qed

lemma table_ok_delete [intro]: "table_ok k P rows \<Longrightarrow> table_ok k P (delete_where Q rows)"
  by (auto simp: table_ok_def delete_where_def list_all_iff distinct_map inj_on_def)

lemma table_ok_mono:
  assumes "table_ok k P rows" and "\<And>r. r \<in> set rows \<Longrightarrow> P r \<Longrightarrow> P' r"
  shows "table_ok k P' rows"
  using assms by (auto simp: table_ok_def list_all_iff)

lemma table_ok_row: "table_ok k P rows \<Longrightarrow> r \<in> set rows \<Longrightarrow> P r"
  by (auto simp: table_ok_def list_all_iff)

lemma table_ok_unique:
  "table_ok k P rows \<Longrightarrow> r \<in> set rows \<Longrightarrow> s \<in> set rows \<Longrightarrow> k r = k s \<Longrightarrow> r = s"
  by (auto simp: table_ok_def intro: key_unique)

lemma table_ok_find:
  "table_ok k P rows \<Longrightarrow> r \<in> set rows \<Longrightarrow> List.find (\<lambda>s. k s = k r) rows = Some r"
  by (auto simp: table_ok_def intro: find_key_eq)

lemma unique_on_Nil [simp]: "unique_on k []"
  by (simp add: unique_on_def)

lemma unique_on_append [simp]:
  "unique_on k (rows @ [r]) \<longleftrightarrow> unique_on k rows \<and> (\<forall>s \<in> set rows. k s \<noteq> k r)"
  unfolding unique_on_def by (auto simp: image_iff) (metis+)?

lemma unique_on_update:
  assumes "unique_on k rows" and "\<And>r. k (f r) = k r"
  shows "unique_on k (update_where Q f rows)"
  using assms by (simp add: unique_on_def map_update_where)

lemma unique_on_delete [intro]: "unique_on k rows \<Longrightarrow> unique_on k (delete_where Q rows)"
  by (auto simp: unique_on_def delete_where_def distinct_map inj_on_def)

lemma unique_onD: "unique_on k rows \<Longrightarrow> r \<in> set rows \<Longrightarrow> s \<in> set rows \<Longrightarrow> k r = k s \<Longrightarrow> r = s"
  by (auto simp: unique_on_def intro: key_unique)

lemma map_filter_simps2 [simp]:
  "List.map_filter k [] = []"
  "List.map_filter k (r # rs) = (case k r of None \<Rightarrow> List.map_filter k rs | Some x \<Rightarrow> x # List.map_filter k rs)"
  by (simp_all add: List.map_filter_def split: option.splits)

lemma map_filter_append [simp]:
  "List.map_filter k (rs @ ss) = List.map_filter k rs @ List.map_filter k ss"
  by (simp add: List.map_filter_def)

lemma set_map_filter_iff: "x \<in> set (List.map_filter k rs) \<longleftrightarrow> (\<exists>r \<in> set rs. k r = Some x)"
  by (induction rs) (auto split: option.splits)

lemma unique_some_Nil [simp]: "unique_some k []"
  by (simp add: unique_some_def List.map_filter_def)

lemma unique_some_append [simp]:
  "unique_some k (rows @ [r]) \<longleftrightarrow> unique_some k rows \<and> (\<forall>x. k r = Some x \<longrightarrow> (\<forall>s \<in> set rows. k s \<noteq> Some x))"
  by (cases "k r") (auto simp: unique_some_def set_map_filter_iff)

lemma unique_some_update:
  assumes "unique_some k rows" and "\<And>r. k (f r) = k r"
  shows "unique_some k (update_where Q f rows)"
proof -
  have "List.map_filter k (update_where Q f rows) = List.map_filter k rows"
    using assms(2) by (induction rows) (auto split: option.splits)
  with assms(1) show ?thesis by (simp add: unique_some_def)
qed

lemma unique_some_delete [intro]: "unique_some k rows \<Longrightarrow> unique_some k (delete_where Q rows)"
  by (induction rows) (auto simp: unique_some_def set_map_filter_iff split: option.splits)

end
