(* ===== verification/Permalink.thy ===== *)
theory Permalink
  imports Prelude
begin

text \<open>
  \<^verbatim>\<open>crates/threads-archive/src/permalink.rs\<close>: textual canonicalization of a submitted URL. The model
  follows \<^verbatim>\<open>CanonicalizedUrl::try_from\<close> statement by statement, the order of the refusals
  included. The lemmas show that the accepted inputs are exactly those of a declarative grammar and
  that the canonical text is a fixed point.
\<close>

definition CANONICAL_HOST :: string where
  "CANONICAL_HOST = ''www.threads.net''"

definition ACCEPTED_HOSTS :: "string list" where
  "ACCEPTED_HOSTS = [''threads.net'', ''www.threads.net'', ''threads.com'', ''www.threads.com'']"

definition MAX_INPUT_LEN :: nat where
  "MAX_INPUT_LEN = 2048"

definition HANDLE_MAX_LEN :: nat where
  "HANDLE_MAX_LEN = 30"

definition CODE_MAX_LEN :: nat where
  "CODE_MAX_LEN = 128"

definition is_handle_byte :: "char \<Rightarrow> bool" where
  "is_handle_byte b \<longleftrightarrow> is_lower b \<or> is_upper b \<or> is_digit b \<or> b = CHR ''.'' \<or> b = CHR ''_''"

definition is_code_byte :: "char \<Rightarrow> bool" where
  "is_code_byte b \<longleftrightarrow> is_lower b \<or> is_upper b \<or> is_digit b \<or> b = CHR ''_'' \<or> b = CHR ''-''"

datatype permalink = Permalink (as_str: string)

record canonicalized_url =
  original :: string
  permalink :: permalink

datatype permalink_error =
    InvalidUrl
  | Scheme
  | Host
  | Port
  | PathShape
  | HandleGrammar
  | PostCodeGrammar
  | PercentEncoded
  | NonAscii
  | TooLong nat
  | ShortFormUnsupported

definition handle_valid :: "string \<Rightarrow> bool" where
  "handle_valid handle \<longleftrightarrow>
    handle \<noteq> [] \<and> length handle \<le> HANDLE_MAX_LEN \<and> list_all is_handle_byte handle"

definition code_valid :: "string \<Rightarrow> bool" where
  "code_valid code \<longleftrightarrow>
    code \<noteq> [] \<and> length code \<le> CODE_MAX_LEN \<and> list_all is_code_byte code"

definition canonical_text :: "string \<Rightarrow> string \<Rightarrow> string" where
  "canonical_text handle code =
    ''https://'' @ CANONICAL_HOST @ ''/@'' @ to_ascii_lowercase handle @ ''/post/'' @ code"

definition bare_host :: "string \<Rightarrow> permalink_error + string" where
  "bare_host authority = (case rsplit_once CHR '':'' authority of
      Some (host, port) \<Rightarrow> if port \<noteq> ''80'' \<and> port \<noteq> ''443'' then Inl Port else Inr host
    | None \<Rightarrow> Inr authority)"

definition try_from_path :: "string \<Rightarrow> string \<Rightarrow> permalink_error + canonicalized_url" where
  "try_from_path raw path =
    (if prefix ''t/'' path then Inl ShortFormUnsupported else
     bindE (ok_or PathShape (strip_prefix ''@'' path)) (\<lambda>after_marker.
     bindE (ok_or PathShape (split_once ''/post/'' after_marker)) (\<lambda>(handle, code_with_trailing_slashes).
     let code = trim_end_matches CHR ''/'' code_with_trailing_slashes in
     if \<not> handle_valid handle then Inl HandleGrammar
     else if \<not> code_valid code then Inl PostCodeGrammar
     else Inr \<lparr>original = raw, permalink = Permalink (canonical_text handle code)\<rparr>)))"

definition try_from :: "string \<Rightarrow> permalink_error + canonicalized_url" where
  "try_from raw =
    (let len = char_count raw in
     if len > MAX_INPUT_LEN then Inl (TooLong len) else
     bindE (ok_or InvalidUrl (split_once ''://'' raw)) (\<lambda>(scheme, rest).
     if \<not> (eq_ignore_ascii_case scheme ''http'' \<or> eq_ignore_ascii_case scheme ''https'')
     then Inl Scheme else
     let without_fragment = cut_at CHR ''#'' rest;
         without_query = cut_at CHR ''?'' without_fragment in
     if \<not> is_ascii without_query then Inl NonAscii
     else if CHR ''%'' \<in> set without_query then Inl PercentEncoded else
     let (authority, path) = (case split_once ''/'' without_query of
           Some (host_part, path_part) \<Rightarrow> (host_part, path_part)
         | None \<Rightarrow> (without_query, ''''))
     in bindE (bare_host authority) (\<lambda>host.
        if \<not> list_ex (eq_ignore_ascii_case host) ACCEPTED_HOSTS then Inl Host
        else try_from_path raw path)))"

section \<open>The accepted language\<close>

text \<open>The documented grammar: a scheme, one of the four hosts, an optional default port, the
  \<^verbatim>\<open>/@handle/post/code\<close> path with any number of trailing slashes, and a discarded tail that starts
  at the first query or fragment mark.\<close>

definition permalink_grammar :: "string \<Rightarrow> string \<Rightarrow> string \<Rightarrow> bool" where
  "permalink_grammar raw handle code \<longleftrightarrow>
    char_count raw \<le> MAX_INPUT_LEN \<and> handle_valid handle \<and> code_valid code \<and>
    (\<exists>scheme host port n tail.
      raw = scheme @ ''://'' @ host @ port @ ''/@'' @ handle @ ''/post/'' @ code
        @ replicate n CHR ''/'' @ tail \<and>
      to_ascii_lowercase scheme \<in> {''http'', ''https''} \<and>
      to_ascii_lowercase host \<in> set ACCEPTED_HOSTS \<and>
      port \<in> {'''', '':80'', '':443''} \<and>
      (tail = [] \<or> hd tail \<in> {CHR ''?'', CHR ''#''}))"

definition url_mark :: "char \<Rightarrow> bool" where
  "url_mark c \<longleftrightarrow> c \<in> {CHR '':'', CHR ''/'', CHR ''#'', CHR ''?'', CHR ''%'', CHR ''@''}"

lemma url_mark_not_upper: "url_mark c \<Longrightarrow> \<not> is_upper c"
  by (auto simp: url_mark_def is_upper_def less_eq_char_def)

lemma handle_byte_plain: "is_handle_byte c \<Longrightarrow> byte_of c < 128 \<and> \<not> url_mark c"
  by (auto simp: is_handle_byte_def is_lower_def is_upper_def is_digit_def url_mark_def less_eq_char_def)

lemma code_byte_plain: "is_code_byte c \<Longrightarrow> byte_of c < 128 \<and> \<not> url_mark c"
  by (auto simp: is_code_byte_def is_lower_def is_upper_def is_digit_def url_mark_def less_eq_char_def)

lemma handle_valid_plain:
  "handle_valid h \<Longrightarrow> is_ascii h \<and> (\<forall>c \<in> set h. \<not> url_mark c)"
  by (auto simp: handle_valid_def is_ascii_def list_all_iff dest: handle_byte_plain)

lemma code_valid_plain:
  "code_valid k \<Longrightarrow> is_ascii k \<and> (\<forall>c \<in> set k. \<not> url_mark c)"
  by (auto simp: code_valid_def is_ascii_def list_all_iff dest: code_byte_plain)

lemma handle_byte_lower: "is_handle_byte c \<Longrightarrow> is_handle_byte (ascii_lower c)"
  using ascii_lower_cases [of c] by (auto simp: is_handle_byte_def)

lemma handle_valid_lower: "handle_valid h \<Longrightarrow> handle_valid (to_ascii_lowercase h)"
  by (auto simp: handle_valid_def list_all_iff handle_byte_lower)
    (auto simp: to_ascii_lowercase_def handle_byte_lower)

text \<open>A text whose lower-casing is plain ASCII without URL marks is itself such a text: the scheme
  and the host of an accepted input contain no separator.\<close>

lemma lowercase_plain:
  assumes "to_ascii_lowercase s = t" and "is_ascii t" and "\<forall>c \<in> set t. \<not> url_mark c"
  shows "is_ascii s \<and> (\<forall>c \<in> set s. \<not> url_mark c)"
  using assms ascii_of_lowercase lowercase_mem url_mark_not_upper by blast

lemma host_plain:
  assumes "to_ascii_lowercase h \<in> set ACCEPTED_HOSTS"
  shows "is_ascii h \<and> (\<forall>c \<in> set h. \<not> url_mark c)"
  by (rule lowercase_plain [OF refl])
    (use assms in \<open>auto simp: ACCEPTED_HOSTS_def url_mark_def\<close>)

lemma scheme_plain:
  assumes "to_ascii_lowercase s \<in> {''http'', ''https''}"
  shows "\<forall>c \<in> set s. \<not> url_mark c"
  using lowercase_plain [OF refl, of s] assms by (auto simp: url_mark_def)

lemma lowercase_literals [simp]:
  "to_ascii_lowercase ''http'' = ''http''"
  "to_ascii_lowercase ''https'' = ''https''"
  by (simp_all add: to_ascii_lowercase_def ascii_lower_def is_upper_def less_eq_char_def)

lemma accepted_host_iff:
  "list_ex (eq_ignore_ascii_case host) ACCEPTED_HOSTS
    \<longleftrightarrow> to_ascii_lowercase host \<in> set ACCEPTED_HOSTS"
  by (simp add: ACCEPTED_HOSTS_def eq_ignore_ascii_case_def)
    (simp add: to_ascii_lowercase_def ascii_lower_def is_upper_def less_eq_char_def)

lemma url_mark_literals [simp]:
  "\<not> url_mark CHR ''p''" "\<not> url_mark CHR ''o''" "\<not> url_mark CHR ''s''" "\<not> url_mark CHR ''t''"
  "\<not> url_mark CHR ''8''" "\<not> url_mark CHR ''0''" "\<not> url_mark CHR ''4''" "\<not> url_mark CHR ''3''"
  by (simp_all add: url_mark_def)

lemma url_mark_separators [simp]:
  "url_mark CHR '':''" "url_mark CHR ''/''" "url_mark CHR ''#''" "url_mark CHR ''?''"
  "url_mark CHR ''%''" "url_mark CHR ''@''"
  by (simp_all add: url_mark_def)

definition body_byte :: "char \<Rightarrow> bool" where
  "body_byte c \<longleftrightarrow> \<not> url_mark c \<or> c \<in> {CHR '':'', CHR ''/'', CHR ''@''}"

lemma cut_tail_complete:
  assumes "\<forall>c \<in> set body. body_byte c"
    and "tail = [] \<or> hd tail \<in> {CHR ''?'', CHR ''#''}"
  shows "cut_at CHR ''?'' (cut_at CHR ''#'' (body @ tail)) = body"
proof -
  have no: "CHR ''#'' \<notin> set body" "CHR ''?'' \<notin> set body"
    using assms(1) by (auto simp: url_mark_def body_byte_def)
  show ?thesis
  proof (cases tail)
    case Nil
    with no show ?thesis by (simp add: cut_at_def split_once_char_None [THEN iffD2])
  next
    case (Cons c t)
    with assms(2) consider "c = CHR ''?''" | "c = CHR ''#''" by auto
    then show ?thesis
    proof cases
      case 1
      then have "cut_at CHR ''#'' (body @ tail) = body @ CHR ''?'' # takeWhile ((\<noteq>) CHR ''#'') t"
        using no Cons unfolding cut_at_takeWhile by (subst takeWhile_append2) auto
      moreover have "split_once [CHR ''?''] (body @ CHR ''?'' # x) = Some (body, x)" for x
        using no by (simp add: split_once_char_Some)
      ultimately show ?thesis by (simp add: cut_at_def)
    next
      case 2
      then have "split_once [CHR ''#''] (body @ tail) = Some (body, t)"
        using no Cons by (simp add: split_once_char_Some)
      moreover have "split_once [CHR ''?''] body = None"
        using no by (simp add: split_once_char_None)
      ultimately show ?thesis by (simp add: cut_at_def)
    qed
  qed
qed

lemma cut_at_sound: "\<exists>tail. s = cut_at c s @ tail \<and> (tail = [] \<or> hd tail = c)"
proof (cases "split_once [c] s")
  case None
  then show ?thesis by (simp add: cut_at_def)
next
  case (Some ab)
  then have "s = fst ab @ c # snd ab"
    by (cases ab) (simp add: split_once_char_Some)
  with Some show ?thesis by (cases ab) (auto simp: cut_at_def)
qed

lemma cut_tail_sound:
  "\<exists>tail. rest = cut_at CHR ''?'' (cut_at CHR ''#'' rest) @ tail
    \<and> (tail = [] \<or> hd tail \<in> {CHR ''?'', CHR ''#''})"
proof -
  obtain t1 where t1: "rest = cut_at CHR ''#'' rest @ t1" "t1 = [] \<or> hd t1 = CHR ''#''"
    using cut_at_sound by blast
  obtain t2 where t2: "cut_at CHR ''#'' rest = cut_at CHR ''?'' (cut_at CHR ''#'' rest) @ t2"
      "t2 = [] \<or> hd t2 = CHR ''?''"
    using cut_at_sound by blast
  have "rest = cut_at CHR ''?'' (cut_at CHR ''#'' rest) @ t2 @ t1"
    using t1(1) t2(1) by (metis append.assoc)
  moreover have "t2 @ t1 = [] \<or> hd (t2 @ t1) \<in> {CHR ''?'', CHR ''#''}"
    using t1(2) t2(2) by (cases t2) auto
  ultimately show ?thesis by blast
qed

lemma bare_host_complete:
  assumes "CHR '':'' \<notin> set host" and "port \<in> {'''', '':80'', '':443''}"
  shows "bare_host (host @ port) = Inr host"
proof -
  have "rsplit_once CHR '':'' (host @ CHR '':'' # p) = Some (host, p)" if "CHR '':'' \<notin> set p" for p
    using that by (simp add: rsplit_once_Some)
  moreover have "rsplit_once CHR '':'' host = None"
    using assms by (simp add: rsplit_once_None)
  ultimately show ?thesis using assms(2) by (auto simp: bare_host_def)
qed

lemma bare_host_sound:
  assumes "bare_host authority = Inr host"
  shows "\<exists>port \<in> {'''', '':80'', '':443''}. authority = host @ port"
  using assms by (auto simp: bare_host_def rsplit_once_Some split: option.splits if_splits)

lemma try_from_path_complete:
  assumes "handle_valid handle" and "code_valid code"
  shows "try_from_path raw (''@'' @ handle @ ''/post/'' @ code @ replicate n CHR ''/'')
    = Inr \<lparr>original = raw, permalink = Permalink (canonical_text handle code)\<rparr>"
proof -
  have "CHR ''/'' \<notin> set handle" "CHR ''/'' \<notin> set code"
    using handle_valid_plain [OF assms(1)] code_valid_plain [OF assms(2)]
    by (auto simp: url_mark_def)
  then have "split_once ''/post/'' (handle @ ''/post/'' @ code @ replicate n CHR ''/'')
      = Some (handle, code @ replicate n CHR ''/'')"
    by (intro split_once_first) simp_all
  with assms \<open>CHR ''/'' \<notin> set code\<close> show ?thesis
    by (simp add: try_from_path_def strip_prefix_def)
qed

lemma try_from_path_sound:
  assumes "try_from_path raw path = Inr u"
  shows "\<exists>handle code n. path = ''@'' @ handle @ ''/post/'' @ code @ replicate n CHR ''/''
    \<and> handle_valid handle \<and> code_valid code
    \<and> u = \<lparr>original = raw, permalink = Permalink (canonical_text handle code)\<rparr>"
proof -
  obtain after handle tail where
    path: "strip_prefix ''@'' path = Some after"
    and split: "split_once ''/post/'' after = Some (handle, tail)"
    and ok: "handle_valid handle" "code_valid (trim_end_matches CHR ''/'' tail)"
    and u: "u = \<lparr>original = raw,
      permalink = Permalink (canonical_text handle (trim_end_matches CHR ''/'' tail))\<rparr>"
    using assms by (auto simp: try_from_path_def Let_def split: if_splits prod.splits)
  define code where "code = trim_end_matches CHR ''/'' tail"
  obtain n where n: "tail = code @ replicate n CHR ''/''"
    unfolding code_def using trim_end_matches_split by blast
  have "path = ''@'' @ handle @ ''/post/'' @ code @ replicate n CHR ''/''"
    using path split_once_sound [OF split] n by (simp add: strip_prefix_Some)
  with ok u show ?thesis unfolding code_def by blast
qed

lemma try_from_complete:
  assumes "permalink_grammar raw handle code"
  shows "try_from raw = Inr \<lparr>original = raw, permalink = Permalink (canonical_text handle code)\<rparr>"
proof -
  obtain scheme host port n tail where
    len: "char_count raw \<le> MAX_INPUT_LEN"
    and hv: "handle_valid handle" and cv: "code_valid code"
    and raw: "raw = scheme @ ''://'' @ host @ port @ ''/@'' @ handle @ ''/post/'' @ code
        @ replicate n CHR ''/'' @ tail"
    and scheme: "to_ascii_lowercase scheme \<in> {''http'', ''https''}"
    and host: "to_ascii_lowercase host \<in> set ACCEPTED_HOSTS"
    and port: "port \<in> {'''', '':80'', '':443''}"
    and tail: "tail = [] \<or> hd tail \<in> {CHR ''?'', CHR ''#''}"
    using assms unfolding permalink_grammar_def by (elim conjE exE) (rule that)
  note plain = host_plain [OF host] handle_valid_plain [OF hv] code_valid_plain [OF cv]
  define path where "path = ''@'' @ handle @ ''/post/'' @ code @ replicate n CHR ''/''"
  define body where "body = (host @ port) @ ''/'' @ path"
  have raw': "raw = scheme @ ''://'' @ body @ tail"
    by (simp add: raw body_def path_def)
  have portb: "\<forall>c \<in> set port. body_byte c" "is_ascii port" "CHR ''/'' \<notin> set port"
    using port by (auto simp: body_byte_def)
  have marks: "\<forall>c \<in> set body. body_byte c"
    using plain portb by (auto simp: body_def path_def body_byte_def)
  have ascii: "is_ascii body"
    using plain portb by (simp add: body_def path_def) (simp add: is_ascii_def list_all_iff)
  have "split_once ''://'' raw = Some (scheme, body @ tail)"
    unfolding raw' using scheme_plain [OF scheme]
    by (intro split_once_first) auto
  moreover have "cut_at CHR ''?'' (cut_at CHR ''#'' (body @ tail)) = body"
    by (rule cut_tail_complete [OF marks tail])
  moreover have "split_once ''/'' body = Some (host @ port, path)"
    unfolding body_def using plain portb by (intro split_once_first) auto
  moreover have "bare_host (host @ port) = Inr host"
    using plain port by (intro bare_host_complete) auto
  moreover have "CHR ''%'' \<notin> set body"
    using marks by (auto simp: body_byte_def)
  moreover have "try_from_path raw path
      = Inr \<lparr>original = raw, permalink = Permalink (canonical_text handle code)\<rparr>"
    unfolding path_def by (rule try_from_path_complete [OF hv cv])
  moreover have "eq_ignore_ascii_case scheme ''http'' \<or> eq_ignore_ascii_case scheme ''https''"
    using scheme by (simp add: eq_ignore_ascii_case_def)
  ultimately show ?thesis
    using len ascii host
    by (simp add: try_from_def accepted_host_iff Let_def)
qed

lemma try_from_sound:
  assumes "try_from raw = Inr u"
  shows "\<exists>handle code. permalink_grammar raw handle code
    \<and> u = \<lparr>original = raw, permalink = Permalink (canonical_text handle code)\<rparr>"
proof -
  obtain scheme rest where
    len: "char_count raw \<le> MAX_INPUT_LEN"
    and s: "split_once ''://'' raw = Some (scheme, rest)"
    and scheme: "eq_ignore_ascii_case scheme ''http'' \<or> eq_ignore_ascii_case scheme ''https''"
    using assms by (auto simp: try_from_def Let_def split: if_splits)
  define body where "body = cut_at CHR ''?'' (cut_at CHR ''#'' rest)"
  obtain tail where tail: "rest = body @ tail" "tail = [] \<or> hd tail \<in> {CHR ''?'', CHR ''#''}"
    using cut_tail_sound body_def by blast
  obtain authority path host where
    body: "(case split_once ''/'' body of Some (h, p) \<Rightarrow> (h, p) | None \<Rightarrow> (body, '''')) = (authority, path)"
    and host: "bare_host authority = Inr host" "to_ascii_lowercase host \<in> set ACCEPTED_HOSTS"
    and path: "try_from_path raw path = Inr u"
    using assms len s scheme unfolding body_def
    by (auto simp: try_from_def Let_def accepted_host_iff
        split: if_splits prod.splits)
  obtain port where port: "port \<in> {'''', '':80'', '':443''}" "authority = host @ port"
    using bare_host_sound [OF host(1)] by blast
  obtain handle code n where p: "path = ''@'' @ handle @ ''/post/'' @ code @ replicate n CHR ''/''"
    "handle_valid handle" "code_valid code"
    "u = \<lparr>original = raw, permalink = Permalink (canonical_text handle code)\<rparr>"
    using try_from_path_sound [OF path] by blast
  have "body = authority @ ''/'' @ path"
    using body p(1) by (auto simp: split_once_char_Some split: option.splits)
  then have "raw = scheme @ ''://'' @ host @ port @ ''/@'' @ handle @ ''/post/'' @ code
      @ replicate n CHR ''/'' @ tail"
    using split_once_sound [OF s] tail(1) port(2) p(1) by simp
  moreover have "to_ascii_lowercase scheme \<in> {''http'', ''https''}"
    using scheme by (simp add: eq_ignore_ascii_case_def)
  ultimately have "permalink_grammar raw handle code"
    unfolding permalink_grammar_def using len host(2) port(1) tail(2) p(2,3) by blast
  with p(4) show ?thesis by blast
qed

lemma canonical_text_in_grammar:
  assumes "handle_valid handle" and "code_valid code"
  shows "permalink_grammar (canonical_text handle code) (to_ascii_lowercase handle) code"
proof -
  note plain = handle_valid_plain [OF handle_valid_lower [OF assms(1)]] code_valid_plain [OF assms(2)]
  have "is_ascii (canonical_text handle code)"
    using plain by (simp add: canonical_text_def CANONICAL_HOST_def)
  then have "char_count (canonical_text handle code) \<le> MAX_INPUT_LEN"
    using assms by (simp add: char_count_ascii canonical_text_def CANONICAL_HOST_def MAX_INPUT_LEN_def
        handle_valid_def code_valid_def HANDLE_MAX_LEN_def CODE_MAX_LEN_def)
  moreover have "canonical_text handle code = ''https'' @ ''://'' @ CANONICAL_HOST @ '''' @ ''/@''
      @ to_ascii_lowercase handle @ ''/post/'' @ code @ replicate 0 CHR ''/'' @ []"
    by (simp add: canonical_text_def)
  moreover have "to_ascii_lowercase CANONICAL_HOST \<in> set ACCEPTED_HOSTS"
    by (simp add: CANONICAL_HOST_def ACCEPTED_HOSTS_def to_ascii_lowercase_def ascii_lower_def
        is_upper_def less_eq_char_def)
  ultimately show ?thesis
    unfolding permalink_grammar_def
    using assms(2) handle_valid_lower [OF assms(1)] lowercase_literals(2) by blast
qed

lemma canonical_text_inject:
  assumes "handle_valid h" and "handle_valid h'"
    and "canonical_text h k = canonical_text h' k'"
  shows "to_ascii_lowercase h = to_ascii_lowercase h' \<and> k = k'"
proof -
  have no: "CHR ''/'' \<notin> set (to_ascii_lowercase h)" "CHR ''/'' \<notin> set (to_ascii_lowercase h')"
    using handle_valid_plain [OF handle_valid_lower] assms(1,2) by (auto simp: url_mark_def)
  have "split_once ''/post/'' (to_ascii_lowercase h @ ''/post/'' @ k)
      = split_once ''/post/'' (to_ascii_lowercase h' @ ''/post/'' @ k')"
    using assms(3) by (simp add: canonical_text_def)
  with no split_once_first [of "''/post/''" "to_ascii_lowercase h" k]
    split_once_first [of "''/post/''" "to_ascii_lowercase h'" k']
  show ?thesis by simp
qed

section \<open>Properties\<close>

text \<open>Claim C5: canonicalization accepts exactly the documented grammar, and its result keeps the
  input byte for byte next to the canonical text built from the lower-cased handle and the code.\<close>

theorem try_from_exact_grammar:
  "try_from raw = Inr u \<longleftrightarrow> (\<exists>handle code. permalink_grammar raw handle code
    \<and> u = \<lparr>original = raw, permalink = Permalink (canonical_text handle code)\<rparr>)"
  using try_from_sound try_from_complete by blast

text \<open>Claim C16: the canonical permalink of an accepted input is itself accepted and canonicalizes to
  itself, so a stored permalink can be resubmitted without drifting.\<close>

theorem try_from_canonical_fixpoint:
  assumes "try_from raw = Inr u"
  shows "\<exists>u'. try_from (as_str (permalink u)) = Inr u' \<and> permalink u' = permalink u"
proof -
  obtain handle code where g: "permalink_grammar raw handle code"
    and u: "permalink u = Permalink (canonical_text handle code)"
    using try_from_sound [OF assms] by auto
  then have "permalink_grammar (canonical_text handle code) (to_ascii_lowercase handle) code"
    by (intro canonical_text_in_grammar) (simp_all add: permalink_grammar_def)
  from try_from_complete [OF this] u show ?thesis
    by (simp add: canonical_text_def)
qed

theorem try_from_canonical_fixpoint_witness:
  "\<exists>u'. try_from ''https://www.threads.net/@ab/post/C1'' = Inr u'
    \<and> permalink u' = Permalink ''https://www.threads.net/@ab/post/C1''"
proof -
  have "try_from ''HTTP://threads.COM:80/@aB/post/C1//?x#y''
      = Inr \<lparr>original = ''HTTP://threads.COM:80/@aB/post/C1//?x#y'',
          permalink = Permalink ''https://www.threads.net/@ab/post/C1''\<rparr>"
    by code_simp
  from try_from_canonical_fixpoint [OF this] show ?thesis by simp
qed

end
