(* ===== verification/Contracts.thy ===== *)
theory Contracts
  imports Prelude
begin

text \<open>
  The boundary of the program. The values of the published contract crates that the service builds
  or reads (events, operation reports, capture commands) are free datatypes, and everything those
  crates, the clock, the identifier generator and the hash function decide is a field of the record
  \<open>env\<close> that every operation takes as an argument:

  \<^item> \<open>now\<close> is PostgreSQL's \<^verbatim>\<open>now()\<close> of the transaction, \<open>wall\<close> the process clock;
  \<^item> \<open>mint\<close> enumerates the identifiers \<^verbatim>\<open>Uuid::now_v7\<close> returns;
  \<^item> \<open>contract_error\<close> is the refusal of a contract parser or constructor, \<open>None\<close> when it accepts.
\<close>

section \<open>JSON values\<close>

datatype json =
    JNull
  | JBool bool
  | JInt int
  | JString string
  | JArray "json list"
  | JObject "(string \<times> json) list"

fun json_get :: "string \<Rightarrow> json \<Rightarrow> json option" where
  "json_get name (JObject members) = map_of (rev members) name"
| "json_get name _ = None"

fun json_as_str :: "json \<Rightarrow> string option" where
  "json_as_str (JString s) = Some s"
| "json_as_str _ = None"

section \<open>Published social and operation contracts\<close>

datatype contract_acquisition =
    OfficialApi
  | DataExport
  | ShareExtension
  | BrowserExtension
  | PublicResolution
  | OtherAcquisition string

datatype contract_authority =
    AuthoritativePlatformState
  | ExplicitUserCapture
  | ExportObservation
  | LegacyObservation

datatype contract_availability =
    Available
  | DeletedUpstream
  | UnavailableUpstream

datatype capture_provider =
    Threads
  | OtherProvider string

datatype digest_algorithm =
    Sha256
  | OtherDigest string

datatype source_unavailability =
    SourceDeleted
  | SourceInaccessible
  | SourceTransient

datatype operation_reported =
    QueuedReport uuid
  | PreservedReport uuid uuid
  | UnavailableReport uuid source_unavailability

fun report_operation :: "operation_reported \<Rightarrow> uuid" where
  "report_operation (QueuedReport op) = op"
| "report_operation (PreservedReport op _) = op"
| "report_operation (UnavailableReport op _) = op"

fun report_terminal :: "operation_reported \<Rightarrow> bool" where
  "report_terminal (QueuedReport _) = False"
| "report_terminal (PreservedReport _ _) = True"
| "report_terminal (UnavailableReport _ _) = True"

record blob_reference =
  blob_owner :: string
  blob_digest :: string
  blob_media_type :: string
  blob_length :: int

record social_source_snapshot =
  sn_social_source_id :: uuid
  sn_platform :: string
  sn_external_post_id :: string
  sn_permalink :: "string option"
  sn_owner :: uuid
  sn_published_at :: "int option"
  sn_captured_at :: int
  sn_text :: "string option"
  sn_relations :: "(string \<times> string) list"
  sn_content_digest :: string
  sn_raw_blob :: blob_reference
  sn_acquisition :: contract_acquisition
  sn_saved_authority :: contract_authority
  sn_availability :: contract_availability

datatype event_payload =
    SourceCaptured social_source_snapshot
  | SourceUpdated social_source_snapshot
  | SourceRemoved uuid uuid instant

record event_envelope =
  ev_event_id :: uuid
  ev_event_type :: string
  ev_occurred_at :: instant
  ev_producer :: string
  ev_aggregate_id :: string
  ev_correlation_id :: string
  ev_tenant_id :: string
  ev_schema_version :: nat
  ev_payload :: event_payload

record report_envelope =
  rep_producer :: string
  rep_owner :: uuid
  rep_operation :: uuid
  rep_aggregate :: string
  rep_command :: uuid
  rep_event :: uuid
  rep_report :: operation_reported

datatype outbox_payload =
    EventPayload event_envelope
  | ReportPayload report_envelope

text \<open>The members of a capture command that this service reads.\<close>

record social_capture_requested =
  req_operation_id :: uuid
  req_provider :: capture_provider
  req_acquisition :: contract_acquisition
  req_saved_authority :: contract_authority
  req_original_permalink :: string
  req_captured_at :: string
  req_digest_algorithm :: digest_algorithm
  req_digest_hex :: string

record command_envelope =
  cmd_command_id :: uuid
  cmd_tenant_id :: "uuid option"
  cmd_payload :: "string + social_capture_requested"

datatype contract_value =
    SocialSourceIdV string
  | PlatformV string
  | EntityLocalIdV string
  | PostPermalinkV string
  | TenantRefV string
  | WireTimestampV int
  | PostTextV string
  | RelationKindV string
  | DigestHexV string
  | BlobOwnerV string
  | MediaTypeV string
  | EntityRefV string
  | EnvelopeV event_envelope
  | ReportV operation_reported
  | ReportEnvelopeV report_envelope

section \<open>The environment of one call\<close>

record env =
  now :: instant
  wall :: instant
  mint :: "nat \<Rightarrow> uuid"
  uuid_v5 :: "string \<Rightarrow> uuid"
  uuid_text :: "uuid \<Rightarrow> string"
  sha256 :: "bytes \<Rightarrow> bytes"
  json_bytes :: "json \<Rightarrow> bytes"
  relation_json :: "string \<times> string \<Rightarrow> json"
  contract_error :: "contract_value \<Rightarrow> string option"

definition contract :: "env \<Rightarrow> (string \<Rightarrow> 'e) \<Rightarrow> contract_value \<Rightarrow> 'e + unit" where
  "contract E h v = (case contract_error E v of None \<Rightarrow> Inr () | Some reason \<Rightarrow> Inl (h reason))"

lemma contract_eq_Inr [simp]: "contract E h v = Inr u \<longleftrightarrow> contract_error E v = None"
  by (simp add: contract_def split: option.splits)

lemma contract_accepts [simp]: "contract_error E v = None \<Longrightarrow> contract E h v = Inr ()"
  by (simp add: contract_def)

lemma contract_eq_Inl: "contract E h v = Inl e \<longleftrightarrow> (\<exists>r. contract_error E v = Some r \<and> e = h r)"
  by (auto simp: contract_def split: option.splits)

section \<open>Hexadecimal rendering\<close>

definition hex_digit :: "nat \<Rightarrow> char" where
  "hex_digit n = ''0123456789abcdef'' ! n"

definition hex_byte :: "8 word \<Rightarrow> string" where
  "hex_byte b = [hex_digit (unat b div 16), hex_digit (unat b mod 16)]"

definition hex :: "bytes \<Rightarrow> string" where
  "hex bs = concat (map hex_byte bs)"

lemma length_hex [simp]: "length (hex bs) = 2 * length bs"
  by (induction bs) (simp_all add: hex_def hex_byte_def)

lemma hex_digit_inject:
  assumes "hex_digit m = hex_digit n" and "m < 16" and "n < 16"
  shows "m = n"
proof -
  have "distinct ''0123456789abcdef''" and "length ''0123456789abcdef'' = 16" by simp_all
  then show ?thesis using assms nth_eq_iff_index_eq [of "''0123456789abcdef''" m n]
    by (simp add: hex_digit_def del: nth_Cons_numeral)
qed

lemma hex_byte_inject: "hex_byte a = hex_byte b \<Longrightarrow> a = b"
proof -
  assume eq: "hex_byte a = hex_byte b"
  have lt: "unat x div 16 < 16" for x :: "8 word"
  proof -
    have "unat x < 2 ^ LENGTH(8)" by (rule unsigned_less)
    then show ?thesis by (simp add: div_less_iff_less_mult)
  qed
  have "unat a div 16 = unat b div 16" "unat a mod 16 = unat b mod 16"
    using eq lt by (auto simp: hex_byte_def intro: hex_digit_inject)
  then have "unat a = unat b" by (metis div_mult_mod_eq)
  then show "a = b" by (rule unsigned_word_eqI)
qed

text \<open>Two byte strings render the same digest only if they are the same bytes.\<close>

lemma hex_inject: "hex xs = hex ys \<Longrightarrow> xs = ys"
proof (induction xs arbitrary: ys)
  case Nil
  then have "length (hex ys) = 0" by (simp add: hex_def)
  then show ?case by simp
next
  case (Cons x xs)
  then have "length (hex ys) = length (hex (x # xs))" by simp
  then obtain y ys' where ys: "ys = y # ys'" by (cases ys) simp_all
  with Cons.prems have "hex_byte x = hex_byte y" "hex xs = hex ys'"
    by (auto simp: hex_def hex_byte_def)
  with Cons.IH ys hex_byte_inject show ?case by blast
qed

section \<open>A concrete environment\<close>

text \<open>An instance of every parameter, used where a theorem is applied to a concrete state: the
  contract parsers accept everything, identifiers are consecutive, and the digest of a document is
  the bytes of its first member.\<close>

fun first_member_bytes :: "json \<Rightarrow> bytes" where
  "first_member_bytes (JObject ((_, JString t) # _)) = as_bytes t"
| "first_member_bytes _ = []"

definition sample_env :: "instant \<Rightarrow> env" where
  "sample_env t = \<lparr>now = t, wall = t, mint = (\<lambda>n. 100 + n), uuid_v5 = (\<lambda>s. 50), uuid_text = (\<lambda>n. ''id''),
    sha256 = (\<lambda>bs. bs), json_bytes = first_member_bytes, relation_json = (\<lambda>_. JNull),
    contract_error = (\<lambda>_. None)\<rparr>"

end
