(* ===== verification/Database.thy ===== *)
theory Database
  imports Contracts
begin

text \<open>
  \<^verbatim>\<open>schema.sql\<close> and \<^verbatim>\<open>crates/threads-archive/src/database.rs\<close>: the \<^verbatim>\<open>threads_archive\<close> schema. One record
  per table row, one list of rows per table in the record \<open>db\<close>, and one insert function per table
  that refuses what the table's primary key, unique, foreign-key and check constraints refuse, naming
  the constraint. Columns that are only ever filled by a default clock and never read
  (\<^verbatim>\<open>created_at\<close>, \<^verbatim>\<open>linked_at\<close>, \<^verbatim>\<open>processed_at\<close>) are left out.

  A statement that fails aborts its transaction: a transaction body is a function
  \<open>db \<Rightarrow> 'e + 'a \<times> db\<close> whose \<open>Inl\<close> value means that nothing was committed.
\<close>

section \<open>Errors of the database driver\<close>

datatype sqlx_error =
    ConstraintViolation string
  | RowNotFound
  | ColumnDecode string string
  | Configuration string
  | Protocol string

datatype persistence_error =
    Connect sqlx_error
  | Schema sqlx_error
  | Query sqlx_error

section \<open>Rows\<close>

record account_row =
  ac_account_id :: uuid
  ac_user_ref :: uuid
  ac_provider_account_id :: string
  ac_username :: string
  ac_account_type :: string
  ac_connection_status :: string
  ac_scopes :: string
  ac_connected_at :: instant

record credential_row =
  cr_credential_id :: uuid
  cr_account_id :: uuid
  cr_access_token_ciphertext :: bytes
  cr_token_version :: int
  cr_scopes :: string
  cr_refresh_token_ciphertext :: "bytes option"
  cr_expires_at :: "instant option"
  cr_rotated_at :: "instant option"

record credential_audit_row =
  ca_audit_id :: uuid
  ca_account_id :: uuid
  ca_event_kind :: string

record account_budget_row =
  ab_account_id :: uuid
  ab_endpoint_class :: string
  ab_remaining :: int
  ab_resets_at :: "instant option"
  ab_request_id :: "string option"
  ab_observed_at :: instant

record sync_checkpoint_row =
  sc_account_id :: uuid
  sc_watermark :: "string option"

record raw_object_row =
  ro_raw_object_id :: uuid
  ro_object_kind :: string
  ro_blob_ref :: string
  ro_content_hash :: bytes
  ro_byte_size :: int
  ro_media_type :: string
  ro_observed_at :: instant

record post_row =
  po_post_id :: uuid
  po_account_id :: "uuid option"
  po_provider_post_id :: "string option"
  po_permalink :: string
  po_post_kind :: string
  po_text_content :: "string option"
  po_published_at :: "instant option"
  po_acquisition_method :: string
  po_saved_authority :: string
  po_upstream_status :: string
  po_updated_at :: instant

record post_revision_row =
  pr_revision_id :: uuid
  pr_post_id :: uuid
  pr_raw_object_id :: uuid
  pr_parser_version :: string
  pr_observed_at :: instant

record post_relation_row =
  rl_relation_id :: uuid
  rl_referencing_post_id :: uuid
  rl_target_post_id :: "uuid option"
  rl_target_provider_post_id :: string
  rl_target_permalink :: "string option"
  rl_relation_kind :: string

record media_row =
  me_media_id :: uuid
  me_post_id :: uuid
  me_provider_media_id :: "string option"
  me_media_kind :: string
  me_ordinal :: int
  me_mime_type :: "string option"
  me_blob_ref :: "string option"
  me_content_hash :: "bytes option"
  me_byte_size :: "int option"
  me_media_state :: string
  me_retention_class :: string
  me_retention_deadline :: "instant option"
  me_retention_reason :: "string option"
  me_observed_at :: instant

record capture_row =
  cp_capture_id :: uuid
  cp_user_ref :: uuid
  cp_post_id :: "uuid option"
  cp_idempotency_key :: string
  cp_canonical_url :: string
  cp_original_url :: string
  cp_acquisition_method :: string
  cp_saved_authority :: string
  cp_client_source :: string
  cp_status :: string
  cp_note :: "string option"
  cp_captured_at :: instant
  cp_next_resolution_at :: "instant option"
  cp_operation_id :: "uuid option"
  cp_command_id :: "uuid option"
  cp_resolution_attempts :: int
  cp_operation_reported_at :: "instant option"

record capture_resolution_row =
  rs_resolution_id :: uuid
  rs_capture_id :: uuid
  rs_outcome :: string
  rs_resolver_version :: "string option"
  rs_raw_object_id :: "uuid option"
  rs_observed_at :: instant

record social_source_row =
  ss_social_source_id :: uuid
  ss_user_ref :: uuid
  ss_post_id :: uuid
  ss_first_capture_id :: "uuid option"

record source_revision_row =
  sr_source_revision_id :: uuid
  sr_social_source_id :: uuid
  sr_content_digest :: string
  sr_snapshot :: social_source_snapshot
  sr_observed_at :: instant

record analysis_link_row =
  al_completion_event_id :: uuid
  al_user_ref :: uuid
  al_social_source_id :: uuid
  al_content_digest :: string
  al_completed_at :: instant

record tombstone_row =
  tb_tombstone_id :: uuid
  tb_post_id :: "uuid option"
  tb_capture_id :: "uuid option"
  tb_availability :: string
  tb_reason_code :: "string option"
  tb_resolver_version :: "string option"
  tb_observed_at :: instant

record outbox_row =
  ob_event_id :: uuid
  ob_event_type :: string
  ob_aggregate_type :: string
  ob_aggregate_id :: uuid
  ob_payload :: outbox_payload
  ob_correlation_id :: "uuid option"
  ob_causation_id :: "uuid option"
  ob_occurred_at :: instant
  ob_published_at :: "instant option"
  ob_attempt_count :: nat
  ob_next_attempt_at :: "instant option"
  ob_last_error :: "string option"
  ob_acknowledged_at :: "instant option"
  ob_ack_outcome :: "string option"
  ob_resend_count :: nat
  ob_next_resend_at :: "instant option"

record inbox_row =
  ib_consumer_name :: string
  ib_event_id :: uuid
  ib_consumed_at :: instant
  ib_handler_outcome :: string

record deletion_operation_row =
  do_operation_id :: uuid
  do_user_ref :: uuid
  do_target_kind :: string
  do_target_id :: uuid
  do_reason :: string
  do_state :: string
  do_requested_at :: instant
  do_finished_at :: "instant option"

record deletion_effect_row =
  de_operation_id :: uuid
  de_data_class :: string
  de_action :: string
  de_affected_count :: int

record local_removal_row =
  lr_user_ref :: uuid
  lr_social_source_id :: uuid
  lr_post_id :: uuid
  lr_operation_id :: uuid
  lr_reason :: string
  lr_removed_at :: instant

record blob_task_row =
  bt_task_id :: uuid
  bt_operation_id :: "uuid option"
  bt_blob_ref :: string
  bt_content_hash :: bytes
  bt_state :: string
  bt_attempt_count :: nat
  bt_last_failure_class :: "string option"
  bt_completed_at :: "instant option"

record reresolution_run_row =
  rr_run_id :: uuid
  rr_user_ref :: uuid
  rr_state :: string
  rr_max_items :: int
  rr_max_requests :: int
  rr_max_response_bytes :: int
  rr_max_concurrency :: int
  rr_deadline_at :: instant
  rr_items_admitted :: int
  rr_requests_reserved :: int
  rr_response_bytes :: int

record reresolution_item_row =
  ri_run_id :: uuid
  ri_capture_id :: uuid
  ri_state :: string
  ri_skip_reason :: "string option"

record export_run_row =
  er_run_id :: uuid
  er_user_ref :: uuid
  er_archive_hash :: bytes
  er_archive_blob_ref :: string
  er_archive_byte_size :: int
  er_detected_version :: "string option"
  er_parser_version :: string
  er_outcome :: string
  er_records_processed :: int
  er_warnings_summary :: "string option"
  er_completeness_report :: "json option"
  er_finished_at :: "instant option"

record export_record_row =
  ed_record_id :: uuid
  ed_run_id :: uuid
  ed_record_kind :: string
  ed_category :: "string option"
  ed_provider_record_id :: "string option"
  ed_raw_object_id :: "uuid option"
  ed_payload :: "json option"

record reprocessing_run_row =
  xr_reprocessing_run_id :: uuid
  xr_operation_id :: uuid
  xr_export_run_id :: uuid
  xr_user_ref :: uuid
  xr_detected_version :: string
  xr_parser_version :: string
  xr_state :: string
  xr_plan_fingerprint :: string
  xr_state_fingerprint :: string
  xr_checkpoint_item_key :: "string option"
  xr_report :: "json option"
  xr_finished_at :: "instant option"

record reprocessing_item_row =
  xi_reprocessing_run_id :: uuid
  xi_item_key :: string
  xi_classification :: string
  xi_state :: string
  xi_prospective_digest :: "string option"
  xi_applied_digest :: "string option"

section \<open>The database\<close>

text \<open>\<open>minted\<close> is no table: it counts the identifiers drawn so far, so that each call of
  \<^verbatim>\<open>Uuid::now_v7\<close> returns the next one.\<close>

record db =
  accounts :: "account_row list"
  credentials :: "credential_row list"
  credential_audit :: "credential_audit_row list"
  account_budgets :: "account_budget_row list"
  sync_checkpoints :: "sync_checkpoint_row list"
  raw_objects :: "raw_object_row list"
  posts :: "post_row list"
  post_revisions :: "post_revision_row list"
  post_relations :: "post_relation_row list"
  media :: "media_row list"
  captures :: "capture_row list"
  capture_resolutions :: "capture_resolution_row list"
  social_sources :: "social_source_row list"
  source_revisions :: "source_revision_row list"
  analysis_links :: "analysis_link_row list"
  tombstones :: "tombstone_row list"
  outbox :: "outbox_row list"
  inbox :: "inbox_row list"
  deletion_operations :: "deletion_operation_row list"
  deletion_effects :: "deletion_effect_row list"
  local_removals :: "local_removal_row list"
  blob_tasks :: "blob_task_row list"
  reresolution_runs :: "reresolution_run_row list"
  reresolution_items :: "reresolution_item_row list"
  export_runs :: "export_run_row list"
  export_records :: "export_record_row list"
  reprocessing_runs :: "reprocessing_run_row list"
  reprocessing_items :: "reprocessing_item_row list"
  minted :: nat

definition empty_db :: db where
  "empty_db = \<lparr>accounts = [], credentials = [], credential_audit = [], account_budgets = [],
    sync_checkpoints = [], raw_objects = [], posts = [], post_revisions = [], post_relations = [],
    media = [], captures = [], capture_resolutions = [], social_sources = [], source_revisions = [],
    analysis_links = [], tombstones = [], outbox = [], inbox = [], deletion_operations = [],
    deletion_effects = [], local_removals = [], blob_tasks = [], reresolution_runs = [],
    reresolution_items = [], export_runs = [], export_records = [], reprocessing_runs = [],
    reprocessing_items = [], minted = 0\<rparr>"

definition now_v7 :: "env \<Rightarrow> db \<Rightarrow> uuid \<times> db" where
  "now_v7 E d = (mint E (minted d), d\<lparr>minted := Suc (minted d)\<rparr>)"

section \<open>Closed vocabularies of the check constraints\<close>

definition ACQUISITION_METHODS :: "string list" where
  "ACQUISITION_METHODS = [''official_api'', ''share_extension'', ''browser_extension'',
    ''telegram_capture'', ''public_resolution'', ''data_export'', ''legacy_import'']"

definition SAVED_AUTHORITIES :: "string list" where
  "SAVED_AUTHORITIES = [''explicit_user_capture'', ''export_observation'',
    ''authoritative_platform_state'', ''legacy_observation'']"

definition UPSTREAM_STATUSES :: "string list" where
  "UPSTREAM_STATUSES = [''active'', ''deleted'', ''private_or_inaccessible'', ''author_unavailable'',
    ''temporarily_unavailable'', ''unknown'']"

definition CLIENT_SOURCES :: "string list" where
  "CLIENT_SOURCES = [''ios_share_extension'', ''android_share_target'', ''browser_extension'', ''telegram'']"

definition CAPTURE_STATUSES :: "string list" where
  "CAPTURE_STATUSES = [''accepted'', ''resolved'', ''unavailable'', ''failed'']"

definition RESOLUTION_OUTCOMES :: "string list" where
  "RESOLUTION_OUTCOMES = [''resolved'', ''partial'', ''unavailable'', ''resolver_failed'']"

definition POST_KINDS :: "string list" where
  "POST_KINDS = [''post'', ''reply'', ''repost'', ''quote'']"

definition OBJECT_KINDS :: "string list" where
  "OBJECT_KINDS = [''oembed_response'', ''api_response'', ''export_archive'', ''export_section'',
    ''unknown_export_record'', ''user_upload'']"

definition AGGREGATE_TYPES :: "string list" where
  "AGGREGATE_TYPES = [''capture'', ''operation'', ''post'', ''account'', ''export_run'']"

definition EVENT_TYPES :: "string list" where
  "EVENT_TYPES = [''platform.operation.reported.v1'', ''social.source.captured.v1'',
    ''social.source.updated.v1'', ''social.source.removed.v1'']"

definition HANDLER_OUTCOMES :: "string list" where
  "HANDLER_OUTCOMES = [''processed'', ''rejected'', ''skipped'', ''locally_removed'']"

definition RELATION_KIND_PATTERN_MAX :: nat where
  "RELATION_KIND_PATTERN_MAX = 32"

text \<open>The POSIX pattern \<^verbatim>\<open>^[a-z][a-z0-9_]{0,n-1}$\<close> of the relation-kind and data-class checks.\<close>

definition matches_token_pattern :: "nat \<Rightarrow> string \<Rightarrow> bool" where
  "matches_token_pattern n s \<longleftrightarrow> (case s of [] \<Rightarrow> False
    | c # cs \<Rightarrow> is_lower c \<and> length s \<le> n \<and> list_all (\<lambda>c. is_lower c \<or> is_digit c \<or> c = CHR ''_'') cs)"

section \<open>Row predicates: checks and foreign keys\<close>

definition post_ids :: "post_row list \<Rightarrow> uuid set" where
  "post_ids rows = po_post_id ` set rows"

definition capture_ids :: "capture_row list \<Rightarrow> uuid set" where
  "capture_ids rows = cp_capture_id ` set rows"

definition raw_ids :: "raw_object_row list \<Rightarrow> uuid set" where
  "raw_ids rows = ro_raw_object_id ` set rows"

definition source_ids :: "social_source_row list \<Rightarrow> uuid set" where
  "source_ids rows = ss_social_source_id ` set rows"

definition account_ids :: "account_row list \<Rightarrow> uuid set" where
  "account_ids rows = ac_account_id ` set rows"

definition deletion_ids :: "deletion_operation_row list \<Rightarrow> uuid set" where
  "deletion_ids rows = do_operation_id ` set rows"

definition revision_keys :: "source_revision_row list \<Rightarrow> (uuid \<times> string) set" where
  "revision_keys rows = (\<lambda>r. (sr_social_source_id r, sr_content_digest r)) ` set rows"

definition opt_in :: "'a option \<Rightarrow> 'a set \<Rightarrow> bool" where
  "opt_in x S \<longleftrightarrow> (case x of None \<Rightarrow> True | Some v \<Rightarrow> v \<in> S)"

lemma opt_in_simps [simp]:
  "opt_in None S"
  "opt_in (Some v) S \<longleftrightarrow> v \<in> S"
  by (simp_all add: opt_in_def)

lemma opt_in_mono: "opt_in x S \<Longrightarrow> S \<subseteq> S' \<Longrightarrow> opt_in x S'"
  by (cases x) auto

definition capture_check :: "capture_row \<Rightarrow> bool" where
  "capture_check r \<longleftrightarrow> 0 \<le> cp_resolution_attempts r
    \<and> cp_acquisition_method r \<in> set ACQUISITION_METHODS
    \<and> cp_saved_authority r \<in> set SAVED_AUTHORITIES
    \<and> cp_client_source r \<in> set CLIENT_SOURCES
    \<and> cp_status r \<in> set CAPTURE_STATUSES"

definition post_check :: "post_row \<Rightarrow> bool" where
  "post_check r \<longleftrightarrow> po_post_kind r \<in> set POST_KINDS
    \<and> po_acquisition_method r \<in> set ACQUISITION_METHODS
    \<and> po_saved_authority r \<in> set SAVED_AUTHORITIES
    \<and> po_upstream_status r \<in> set UPSTREAM_STATUSES"

definition tombstone_check :: "tombstone_row \<Rightarrow> bool" where
  "tombstone_check r \<longleftrightarrow> (tb_post_id r \<noteq> None \<or> tb_capture_id r \<noteq> None)
    \<and> tb_availability r \<in> set UPSTREAM_STATUSES"

definition outbox_check :: "outbox_row \<Rightarrow> bool" where
  "outbox_check r \<longleftrightarrow> ob_aggregate_type r \<in> set AGGREGATE_TYPES
    \<and> ob_event_type r \<in> set EVENT_TYPES
    \<and> opt_in (ob_ack_outcome r) {''applied'', ''refused''}"

definition media_check :: "media_row \<Rightarrow> bool" where
  "media_check r \<longleftrightarrow> me_media_kind r \<in> {''image'', ''video'', ''carousel''}
    \<and> (case me_retention_reason r of None \<Rightarrow> True | Some t \<Rightarrow> 1 \<le> char_count t \<and> char_count t \<le> 64)
    \<and> (me_media_state r = ''metadata_only'' \<and> me_blob_ref r = None \<and> me_content_hash r = None
        \<and> me_byte_size r = None \<and> me_retention_class r = ''metadata_only''
      \<or> me_media_state r = ''bytes_archived'' \<and> me_blob_ref r \<noteq> None \<and> me_content_hash r \<noteq> None
        \<and> (case me_byte_size r of None \<Rightarrow> False | Some n \<Rightarrow> 0 \<le> n)
        \<and> me_retention_class r \<in> {''explicit_archive'', ''policy_archive''})"

section \<open>The schema invariant\<close>

text \<open>Everything the constraints of the schema promise about a committed state, one conjunct per
  table. Each conjunct only mentions its own table and the keys it references.\<close>

definition schema_core :: "db \<Rightarrow> bool" where
  "schema_core d \<longleftrightarrow>
    table_ok ro_raw_object_id (\<lambda>r. ro_object_kind r \<in> set OBJECT_KINDS) (raw_objects d) \<and>
    table_ok po_post_id (\<lambda>r. post_check r \<and> opt_in (po_account_id r) (account_ids (accounts d))) (posts d) \<and>
    unique_some po_provider_post_id (posts d) \<and>
    unique_on po_permalink (posts d) \<and>
    table_ok pr_revision_id (\<lambda>r. pr_post_id r \<in> post_ids (posts d) \<and> pr_raw_object_id r \<in> raw_ids (raw_objects d))
      (post_revisions d) \<and>
    table_ok rl_relation_id (\<lambda>r. matches_token_pattern RELATION_KIND_PATTERN_MAX (rl_relation_kind r)
      \<and> rl_referencing_post_id r \<in> post_ids (posts d) \<and> opt_in (rl_target_post_id r) (post_ids (posts d)))
      (post_relations d) \<and>
    unique_on (\<lambda>r. (rl_referencing_post_id r, rl_target_provider_post_id r, rl_relation_kind r))
      (post_relations d) \<and>
    table_ok me_media_id (\<lambda>r. media_check r \<and> me_post_id r \<in> post_ids (posts d)) (media d) \<and>
    unique_on (\<lambda>r. (me_post_id r, me_ordinal r)) (media d)"

definition schema_captures :: "db \<Rightarrow> bool" where
  "schema_captures d \<longleftrightarrow>
    table_ok cp_capture_id (\<lambda>r. capture_check r \<and> opt_in (cp_post_id r) (post_ids (posts d))) (captures d) \<and>
    unique_on (\<lambda>r. (cp_user_ref r, cp_idempotency_key r)) (captures d) \<and>
    table_ok rs_resolution_id (\<lambda>r. rs_outcome r \<in> set RESOLUTION_OUTCOMES
      \<and> rs_capture_id r \<in> capture_ids (captures d) \<and> opt_in (rs_raw_object_id r) (raw_ids (raw_objects d)))
      (capture_resolutions d) \<and>
    table_ok tb_tombstone_id (\<lambda>r. tombstone_check r \<and> opt_in (tb_post_id r) (post_ids (posts d))
      \<and> opt_in (tb_capture_id r) (capture_ids (captures d))) (tombstones d)"

definition schema_sources :: "db \<Rightarrow> bool" where
  "schema_sources d \<longleftrightarrow>
    table_ok ss_social_source_id (\<lambda>r. ss_post_id r \<in> post_ids (posts d)
      \<and> opt_in (ss_first_capture_id r) (capture_ids (captures d))) (social_sources d) \<and>
    unique_on (\<lambda>r. (ss_user_ref r, ss_post_id r)) (social_sources d) \<and>
    table_ok sr_source_revision_id (\<lambda>r. sr_social_source_id r \<in> source_ids (social_sources d)) (source_revisions d) \<and>
    unique_on (\<lambda>r. (sr_social_source_id r, sr_content_digest r)) (source_revisions d) \<and>
    table_ok al_completion_event_id (\<lambda>r. al_social_source_id r \<in> source_ids (social_sources d)
      \<and> (al_social_source_id r, al_content_digest r) \<in> revision_keys (source_revisions d)) (analysis_links d)"

definition schema_events :: "db \<Rightarrow> bool" where
  "schema_events d \<longleftrightarrow>
    table_ok ob_event_id outbox_check (outbox d) \<and>
    table_ok (\<lambda>r. (ib_consumer_name r, ib_event_id r))
      (\<lambda>r. ib_handler_outcome r \<in> set HANDLER_OUTCOMES) (inbox d)"

definition schema_ok :: "db \<Rightarrow> bool" where
  "schema_ok d \<longleftrightarrow> schema_core d \<and> schema_captures d \<and> schema_sources d \<and> schema_events d"

lemma schema_ok_empty: "schema_ok empty_db"
  by (simp add: schema_ok_def schema_core_def schema_captures_def schema_sources_def
      schema_events_def empty_db_def)

lemma now_v7_simps [simp]:
  "fst (now_v7 E d) = mint E (minted d)"
  "snd (now_v7 E d) = d\<lparr>minted := Suc (minted d)\<rparr>"
  by (simp_all add: now_v7_def)

lemma schema_ok_minted [simp]: "schema_ok (d\<lparr>minted := n\<rparr>) \<longleftrightarrow> schema_ok d"
  by (simp add: schema_ok_def schema_core_def schema_captures_def schema_sources_def
      schema_events_def post_ids_def capture_ids_def raw_ids_def source_ids_def account_ids_def
      revision_keys_def)

section \<open>Statements\<close>

definition checked :: "(bool \<times> string) list \<Rightarrow> sqlx_error + unit" where
  "checked cs = (case List.find (\<lambda>(ok, _). \<not> ok) cs of
    None \<Rightarrow> Inr () | Some (_, name) \<Rightarrow> Inl (ConstraintViolation name))"

lemma checked_simps [simp]:
  "checked [] = Inr ()"
  "checked ((ok, name) # cs) = (if ok then checked cs else Inl (ConstraintViolation name))"
  by (simp_all add: checked_def)

definition insert_raw_object :: "raw_object_row \<Rightarrow> db \<Rightarrow> sqlx_error + db" where
  "insert_raw_object r d = bindE (checked
    [(ro_object_kind r \<in> set OBJECT_KINDS, ''raw_objects_object_kind_check''),
     (\<not> exists_where (\<lambda>s. ro_raw_object_id s = ro_raw_object_id r) (raw_objects d), ''raw_objects_pkey'')])
    (\<lambda>_. Inr (d\<lparr>raw_objects := raw_objects d @ [r]\<rparr>))"

definition insert_post :: "post_row \<Rightarrow> db \<Rightarrow> sqlx_error + db" where
  "insert_post r d = bindE (checked
    [(post_check r, ''posts_check''),
     (\<not> exists_where (\<lambda>s. po_post_id s = po_post_id r) (posts d), ''posts_pkey''),
     (po_provider_post_id r = None
        \<or> \<not> exists_where (\<lambda>s. po_provider_post_id s = po_provider_post_id r) (posts d),
      ''posts_provider_post_id_key''),
     (\<not> exists_where (\<lambda>s. po_permalink s = po_permalink r) (posts d), ''posts_permalink_key''),
     (opt_in (po_account_id r) (account_ids (accounts d)), ''posts_account_id_fkey'')])
    (\<lambda>_. Inr (d\<lparr>posts := posts d @ [r]\<rparr>))"

definition insert_post_revision :: "post_revision_row \<Rightarrow> db \<Rightarrow> sqlx_error + db" where
  "insert_post_revision r d = bindE (checked
    [(\<not> exists_where (\<lambda>s. pr_revision_id s = pr_revision_id r) (post_revisions d), ''post_revisions_pkey''),
     (pr_post_id r \<in> post_ids (posts d), ''post_revisions_post_id_fkey''),
     (pr_raw_object_id r \<in> raw_ids (raw_objects d), ''post_revisions_raw_object_id_fkey'')])
    (\<lambda>_. Inr (d\<lparr>post_revisions := post_revisions d @ [r]\<rparr>))"

definition insert_post_relation :: "post_relation_row \<Rightarrow> db \<Rightarrow> sqlx_error + db" where
  "insert_post_relation r d = bindE (checked
    [(matches_token_pattern RELATION_KIND_PATTERN_MAX (rl_relation_kind r),
      ''post_relations_relation_kind_check''),
     (\<not> exists_where (\<lambda>s. rl_relation_id s = rl_relation_id r) (post_relations d), ''post_relations_pkey''),
     (\<not> exists_where (\<lambda>s. rl_referencing_post_id s = rl_referencing_post_id r
        \<and> rl_target_provider_post_id s = rl_target_provider_post_id r
        \<and> rl_relation_kind s = rl_relation_kind r) (post_relations d),
      ''post_relations_referencing_target_kind_key''),
     (rl_referencing_post_id r \<in> post_ids (posts d), ''post_relations_referencing_post_id_fkey''),
     (opt_in (rl_target_post_id r) (post_ids (posts d)), ''post_relations_target_post_id_fkey'')])
    (\<lambda>_. Inr (d\<lparr>post_relations := post_relations d @ [r]\<rparr>))"

definition insert_capture :: "capture_row \<Rightarrow> db \<Rightarrow> sqlx_error + db" where
  "insert_capture r d = bindE (checked
    [(capture_check r, ''captures_check''),
     (\<not> exists_where (\<lambda>s. cp_capture_id s = cp_capture_id r) (captures d), ''captures_pkey''),
     (\<not> exists_where (\<lambda>s. cp_user_ref s = cp_user_ref r \<and> cp_idempotency_key s = cp_idempotency_key r)
        (captures d), ''captures_user_ref_idempotency_key_key''),
     (opt_in (cp_post_id r) (post_ids (posts d)), ''captures_post_id_fkey'')])
    (\<lambda>_. Inr (d\<lparr>captures := captures d @ [r]\<rparr>))"

definition insert_capture_resolution :: "capture_resolution_row \<Rightarrow> db \<Rightarrow> sqlx_error + db" where
  "insert_capture_resolution r d = bindE (checked
    [(rs_outcome r \<in> set RESOLUTION_OUTCOMES, ''capture_resolutions_outcome_check''),
     (\<not> exists_where (\<lambda>s. rs_resolution_id s = rs_resolution_id r) (capture_resolutions d),
      ''capture_resolutions_pkey''),
     (rs_capture_id r \<in> capture_ids (captures d), ''capture_resolutions_capture_id_fkey''),
     (opt_in (rs_raw_object_id r) (raw_ids (raw_objects d)), ''capture_resolutions_raw_object_id_fkey'')])
    (\<lambda>_. Inr (d\<lparr>capture_resolutions := capture_resolutions d @ [r]\<rparr>))"

definition insert_tombstone :: "tombstone_row \<Rightarrow> db \<Rightarrow> sqlx_error + db" where
  "insert_tombstone r d = bindE (checked
    [(tombstone_check r, ''tombstones_check''),
     (\<not> exists_where (\<lambda>s. tb_tombstone_id s = tb_tombstone_id r) (tombstones d), ''tombstones_pkey''),
     (opt_in (tb_post_id r) (post_ids (posts d)), ''tombstones_post_id_fkey''),
     (opt_in (tb_capture_id r) (capture_ids (captures d)), ''tombstones_capture_id_fkey'')])
    (\<lambda>_. Inr (d\<lparr>tombstones := tombstones d @ [r]\<rparr>))"

definition insert_social_source :: "social_source_row \<Rightarrow> db \<Rightarrow> sqlx_error + db" where
  "insert_social_source r d = bindE (checked
    [(\<not> exists_where (\<lambda>s. ss_social_source_id s = ss_social_source_id r) (social_sources d),
      ''social_sources_pkey''),
     (\<not> exists_where (\<lambda>s. ss_user_ref s = ss_user_ref r \<and> ss_post_id s = ss_post_id r) (social_sources d),
      ''social_sources_user_post_key''),
     (ss_post_id r \<in> post_ids (posts d), ''social_sources_post_id_fkey''),
     (opt_in (ss_first_capture_id r) (capture_ids (captures d)), ''social_sources_first_capture_id_fkey'')])
    (\<lambda>_. Inr (d\<lparr>social_sources := social_sources d @ [r]\<rparr>))"

definition insert_source_revision :: "source_revision_row \<Rightarrow> db \<Rightarrow> sqlx_error + db" where
  "insert_source_revision r d = bindE (checked
    [(\<not> exists_where (\<lambda>s. sr_source_revision_id s = sr_source_revision_id r) (source_revisions d),
      ''social_source_revisions_pkey''),
     (\<not> exists_where (\<lambda>s. sr_social_source_id s = sr_social_source_id r
        \<and> sr_content_digest s = sr_content_digest r) (source_revisions d),
      ''social_source_revisions_source_digest_key''),
     (sr_social_source_id r \<in> source_ids (social_sources d), ''social_source_revisions_social_source_id_fkey'')])
    (\<lambda>_. Inr (d\<lparr>source_revisions := source_revisions d @ [r]\<rparr>))"

definition insert_analysis_link :: "analysis_link_row \<Rightarrow> db \<Rightarrow> sqlx_error + db" where
  "insert_analysis_link r d = bindE (checked
    [(\<not> exists_where (\<lambda>s. al_completion_event_id s = al_completion_event_id r) (analysis_links d),
      ''social_analysis_links_pkey''),
     (al_social_source_id r \<in> source_ids (social_sources d), ''social_analysis_links_social_source_id_fkey''),
     ((al_social_source_id r, al_content_digest r) \<in> revision_keys (source_revisions d),
      ''social_analysis_links_source_digest_fkey'')])
    (\<lambda>_. Inr (d\<lparr>analysis_links := analysis_links d @ [r]\<rparr>))"

definition insert_outbox :: "outbox_row \<Rightarrow> db \<Rightarrow> sqlx_error + db" where
  "insert_outbox r d = bindE (checked
    [(outbox_check r, ''outbox_events_check''),
     (\<not> exists_where (\<lambda>s. ob_event_id s = ob_event_id r) (outbox d), ''outbox_events_pkey'')])
    (\<lambda>_. Inr (d\<lparr>outbox := outbox d @ [r]\<rparr>))"

text \<open>\<^verbatim>\<open>insert into inbox_events ... on conflict do nothing\<close>: whether a row was inserted.\<close>

definition insert_inbox :: "inbox_row \<Rightarrow> db \<Rightarrow> sqlx_error + bool \<times> db" where
  "insert_inbox r d = bindE (checked
    [(ib_handler_outcome r \<in> set HANDLER_OUTCOMES, ''inbox_events_handler_outcome_check'')])
    (\<lambda>_. if exists_where (\<lambda>s. ib_consumer_name s = ib_consumer_name r \<and> ib_event_id s = ib_event_id r)
           (inbox d) then Inr (False, d)
         else Inr (True, d\<lparr>inbox := inbox d @ [r]\<rparr>))"

definition update_captures :: "(capture_row \<Rightarrow> bool) \<Rightarrow> (capture_row \<Rightarrow> capture_row) \<Rightarrow> db \<Rightarrow> sqlx_error + db" where
  "update_captures Q f d = bindE (checked
    [(list_all (\<lambda>r. Q r \<longrightarrow> capture_check (f r)) (captures d), ''captures_check''),
     (list_all (\<lambda>r. Q r \<longrightarrow> opt_in (cp_post_id (f r)) (post_ids (posts d))) (captures d), ''captures_post_id_fkey'')])
    (\<lambda>_. Inr (d\<lparr>captures := update_where Q f (captures d)\<rparr>))"

definition update_posts :: "(post_row \<Rightarrow> bool) \<Rightarrow> (post_row \<Rightarrow> post_row) \<Rightarrow> db \<Rightarrow> sqlx_error + db" where
  "update_posts Q f d = bindE (checked
    [(list_all (\<lambda>r. Q r \<longrightarrow> post_check (f r)) (posts d), ''posts_check''),
     (list_all (\<lambda>r. Q r \<longrightarrow> opt_in (po_account_id (f r)) (account_ids (accounts d))) (posts d), ''posts_account_id_fkey''),
     (unique_on po_permalink (update_where Q f (posts d)), ''posts_permalink_key'')])
    (\<lambda>_. Inr (d\<lparr>posts := update_where Q f (posts d)\<rparr>))"

lemmas statement_defs = insert_raw_object_def insert_post_def insert_post_revision_def
  insert_post_relation_def insert_capture_def insert_capture_resolution_def insert_tombstone_def
  insert_social_source_def insert_source_revision_def insert_analysis_link_def insert_outbox_def
  insert_inbox_def update_captures_def update_posts_def

lemmas key_set_defs = post_ids_def capture_ids_def raw_ids_def source_ids_def account_ids_def
  deletion_ids_def revision_keys_def

lemmas schema_defs = schema_ok_def schema_core_def schema_captures_def schema_sources_def schema_events_def

lemma key_sets_append [simp]:
  "post_ids (rows @ [p]) = insert (po_post_id p) (post_ids rows)"
  "capture_ids (cs @ [c]) = insert (cp_capture_id c) (capture_ids cs)"
  "raw_ids (ros @ [ro]) = insert (ro_raw_object_id ro) (raw_ids ros)"
  "source_ids (ss @ [so]) = insert (ss_social_source_id so) (source_ids ss)"
  "revision_keys (srs @ [sr]) = insert (sr_social_source_id sr, sr_content_digest sr) (revision_keys srs)"
  by (auto simp: key_set_defs)

section \<open>Every statement preserves the schema invariant\<close>

named_theorems schema_intros "statements that preserve the schema invariant"

lemma schema_ok_mintedI [schema_intros]: "schema_ok d \<Longrightarrow> schema_ok (d\<lparr>minted := n\<rparr>)"
  by simp

lemma schema_ok_insert_outbox [schema_intros]:
  "insert_outbox r d = Inr d' \<Longrightarrow> schema_ok d \<Longrightarrow> schema_ok d'"
  by (simp add: insert_outbox_def schema_defs split: if_splits) force

lemma schema_ok_insert_inbox [schema_intros]:
  "insert_inbox r d = Inr (b, d') \<Longrightarrow> schema_ok d \<Longrightarrow> schema_ok d'"
  by (simp add: insert_inbox_def schema_defs split: if_splits) force

lemma schema_ok_insert_analysis_link [schema_intros]:
  "insert_analysis_link r d = Inr d' \<Longrightarrow> schema_ok d \<Longrightarrow> schema_ok d'"
  by (simp add: insert_analysis_link_def schema_defs split: if_splits) force

lemma schema_ok_insert_capture_resolution [schema_intros]:
  "insert_capture_resolution r d = Inr d' \<Longrightarrow> schema_ok d \<Longrightarrow> schema_ok d'"
  by (simp add: insert_capture_resolution_def schema_defs split: if_splits) force

lemma schema_ok_insert_tombstone [schema_intros]:
  "insert_tombstone r d = Inr d' \<Longrightarrow> schema_ok d \<Longrightarrow> schema_ok d'"
  by (simp add: insert_tombstone_def schema_defs split: if_splits) force

lemma schema_ok_insert_post_revision [schema_intros]:
  "insert_post_revision r d = Inr d' \<Longrightarrow> schema_ok d \<Longrightarrow> schema_ok d'"
  by (simp add: insert_post_revision_def schema_defs split: if_splits) force

lemma schema_ok_insert_post_relation [schema_intros]:
  "insert_post_relation r d = Inr d' \<Longrightarrow> schema_ok d \<Longrightarrow> schema_ok d'"
  by (simp add: insert_post_relation_def schema_defs split: if_splits) force

text \<open>Inserting into a referenced table only widens the key sets the other tables refer to.\<close>

lemma opt_in_insert: "opt_in x S \<Longrightarrow> opt_in x (insert a S)"
  by (cases x) auto

lemma schema_ok_insert_raw_object [schema_intros]:
  "insert_raw_object r d = Inr d' \<Longrightarrow> schema_ok d \<Longrightarrow> schema_ok d'"
  apply (clarsimp simp: insert_raw_object_def schema_defs split: if_splits)
  apply (intro conjI; (assumption | erule table_ok_mono, blast intro: opt_in_insert | force))
  done

lemma schema_ok_insert_post [schema_intros]:
  "insert_post r d = Inr d' \<Longrightarrow> schema_ok d \<Longrightarrow> schema_ok d'"
  apply (clarsimp simp: insert_post_def schema_defs split: if_splits)
  apply (intro conjI; (assumption | erule table_ok_mono, blast intro: opt_in_insert | force))
  done

lemma schema_ok_insert_capture [schema_intros]:
  "insert_capture r d = Inr d' \<Longrightarrow> schema_ok d \<Longrightarrow> schema_ok d'"
  apply (clarsimp simp: insert_capture_def schema_defs split: if_splits)
  apply (intro conjI; (assumption | erule table_ok_mono, blast intro: opt_in_insert | force))
  done

lemma schema_ok_insert_social_source [schema_intros]:
  "insert_social_source r d = Inr d' \<Longrightarrow> schema_ok d \<Longrightarrow> schema_ok d'"
  apply (clarsimp simp: insert_social_source_def schema_defs split: if_splits)
  apply (intro conjI; (assumption | erule table_ok_mono, blast intro: opt_in_insert | force))
  done

lemma schema_ok_insert_source_revision [schema_intros]:
  "insert_source_revision r d = Inr d' \<Longrightarrow> schema_ok d \<Longrightarrow> schema_ok d'"
  apply (clarsimp simp: insert_source_revision_def schema_defs split: if_splits)
  apply (erule table_ok_mono, blast)
  done

lemma key_sets_update [simp]:
  "(\<And>r. cp_capture_id (f r) = cp_capture_id r) \<Longrightarrow> capture_ids (update_where Q f cs) = capture_ids cs"
  "(\<And>r. po_post_id (g r) = po_post_id r) \<Longrightarrow> post_ids (update_where R g ps) = post_ids ps"
  by (simp_all add: key_set_defs set_map [symmetric] map_update_where del: set_map)

lemma schema_ok_update_captures:
  assumes "update_captures Q f d = Inr d'" and "schema_ok d"
    and keep: "\<And>r. cp_capture_id (f r) = cp_capture_id r"
      "\<And>r. cp_user_ref (f r) = cp_user_ref r" "\<And>r. cp_idempotency_key (f r) = cp_idempotency_key r"
  shows "schema_ok d'"
proof -
  have d': "d' = d\<lparr>captures := update_where Q f (captures d)\<rparr>"
    and chk: "\<And>r. r \<in> set (captures d) \<Longrightarrow> Q r \<Longrightarrow>
      capture_check (f r) \<and> opt_in (cp_post_id (f r)) (post_ids (posts d))"
    using assms(1) by (auto simp: update_captures_def list_all_iff split: if_splits)
  have "table_ok cp_capture_id (\<lambda>r. capture_check r \<and> opt_in (cp_post_id r) (post_ids (posts d)))
      (update_where Q f (captures d))"
    using assms(2) chk keep by (intro table_ok_update) (auto simp: schema_defs)
  moreover have "unique_on (\<lambda>r. (cp_user_ref r, cp_idempotency_key r)) (update_where Q f (captures d))"
    using assms(2) keep by (intro unique_on_update) (simp_all add: schema_defs)
  ultimately show ?thesis
    using assms(2) keep by (simp add: schema_defs d')
qed

lemma schema_ok_update_posts:
  assumes "update_posts Q f d = Inr d'" and "schema_ok d"
    and keep: "\<And>r. po_post_id (f r) = po_post_id r"
      "\<And>r. po_provider_post_id (f r) = po_provider_post_id r"
  shows "schema_ok d'"
proof -
  have d': "d' = d\<lparr>posts := update_where Q f (posts d)\<rparr>"
    and perm: "unique_on po_permalink (update_where Q f (posts d))"
    and chk: "\<And>r. r \<in> set (posts d) \<Longrightarrow> Q r \<Longrightarrow>
      post_check (f r) \<and> opt_in (po_account_id (f r)) (account_ids (accounts d))"
    using assms(1) by (auto simp: update_posts_def list_all_iff split: if_splits)
  have "table_ok po_post_id (\<lambda>r. post_check r \<and> opt_in (po_account_id r) (account_ids (accounts d)))
      (update_where Q f (posts d))"
    using assms(2) chk keep by (intro table_ok_update) (auto simp: schema_defs)
  moreover have "unique_some po_provider_post_id (update_where Q f (posts d))"
    using assms(2) keep by (intro unique_some_update) (simp_all add: schema_defs)
  ultimately show ?thesis
    using assms(2) keep perm by (simp add: schema_defs d')
qed

lemma schema_ok_update_outbox:
  assumes "schema_ok d" and "\<And>r. ob_event_id (f r) = ob_event_id r"
    and "\<And>r. outbox_check r \<Longrightarrow> outbox_check (f r)"
  shows "schema_ok (d\<lparr>outbox := update_where Q f (outbox d)\<rparr>)"
proof -
  have "table_ok ob_event_id outbox_check (update_where Q f (outbox d))"
    using assms by (intro table_ok_update) (auto simp: schema_defs)
  with assms(1) show ?thesis by (simp add: schema_defs)
qed

text \<open>Facts the invariant gives about stored rows.\<close>

lemma schema_ok_capture_check: "schema_ok d \<Longrightarrow> c \<in> set (captures d) \<Longrightarrow> capture_check c"
  by (auto simp: schema_defs table_ok_def list_all_iff)

lemma schema_ok_capture_unique:
  "schema_ok d \<Longrightarrow> c \<in> set (captures d) \<Longrightarrow> c' \<in> set (captures d)
    \<Longrightarrow> cp_capture_id c = cp_capture_id c' \<Longrightarrow> c = c'"
  by (auto simp: schema_defs dest: table_ok_unique)

lemma schema_ok_capture_key_unique:
  "schema_ok d \<Longrightarrow> c \<in> set (captures d) \<Longrightarrow> c' \<in> set (captures d)
    \<Longrightarrow> cp_user_ref c = cp_user_ref c' \<Longrightarrow> cp_idempotency_key c = cp_idempotency_key c' \<Longrightarrow> c = c'"
  using unique_onD [of "\<lambda>r. (cp_user_ref r, cp_idempotency_key r)" "captures d" c c']
  by (simp add: schema_defs)

lemma schema_ok_capture_post:
  "schema_ok d \<Longrightarrow> c \<in> set (captures d) \<Longrightarrow> cp_post_id c = Some p
    \<Longrightarrow> \<exists>r \<in> set (posts d). po_post_id r = p"
  by (force simp: schema_defs table_ok_def list_all_iff post_ids_def)

end
