(* ===== verification/Capability.thy ===== *)
theory Capability
  imports Database
begin

text \<open>
  \<^verbatim>\<open>crates/threads-archive/src/capability.rs\<close>: what each acquisition mode may claim, and the closed wire
  vocabularies. The locale \<open>wire_vocabulary\<close> is the contract every enum with a wire form keeps: its
  wire values are decodable, distinct and inside the check constraint of their column.
\<close>

section \<open>Acquisition modes\<close>

datatype acquisition_mode =
    ExplicitCaptureMode
  | PublicResolutionMode
  | OwnAccountSyncMode
  | DataExportMode
  | LegacyImportMode

datatype support_status =
    Supported
  | Planned
  | NotSupported

record mode_capability =
  mc_mode :: acquisition_mode
  mc_status :: support_status
  mc_authority_ceiling :: contract_authority

definition ALL_MODES :: "acquisition_mode list" where
  "ALL_MODES = [ExplicitCaptureMode, PublicResolutionMode, OwnAccountSyncMode, DataExportMode, LegacyImportMode]"

fun authority_wire_value :: "contract_authority \<Rightarrow> string" where
  "authority_wire_value AuthoritativePlatformState = ''authoritative_platform_state''"
| "authority_wire_value ExplicitUserCapture = ''explicit_user_capture''"
| "authority_wire_value ExportObservation = ''export_observation''"
| "authority_wire_value LegacyObservation = ''legacy_observation''"

fun capability :: "acquisition_mode \<Rightarrow> mode_capability" where
  "capability ExplicitCaptureMode = \<lparr>mc_mode = ExplicitCaptureMode, mc_status = Supported,
     mc_authority_ceiling = ExplicitUserCapture\<rparr>"
| "capability PublicResolutionMode = \<lparr>mc_mode = PublicResolutionMode, mc_status = Supported,
     mc_authority_ceiling = ExplicitUserCapture\<rparr>"
| "capability OwnAccountSyncMode = \<lparr>mc_mode = OwnAccountSyncMode, mc_status = Supported,
     mc_authority_ceiling = AuthoritativePlatformState\<rparr>"
| "capability DataExportMode = \<lparr>mc_mode = DataExportMode, mc_status = Supported,
     mc_authority_ceiling = ExportObservation\<rparr>"
| "capability LegacyImportMode = \<lparr>mc_mode = LegacyImportMode, mc_status = Planned,
     mc_authority_ceiling = LegacyObservation\<rparr>"

definition wire_methods :: "mode_capability \<Rightarrow> string list" where
  "wire_methods c = (case mc_mode c of
      ExplicitCaptureMode \<Rightarrow> [''share_extension'', ''browser_extension'', ''telegram_capture'']
    | PublicResolutionMode \<Rightarrow> [''public_resolution'']
    | OwnAccountSyncMode \<Rightarrow> [''official_api'']
    | DataExportMode \<Rightarrow> [''data_export'']
    | LegacyImportMode \<Rightarrow> [''legacy_import''])"

definition NATIVE_SAVED_LIST_SYNC :: "support_status \<times> string" where
  "NATIVE_SAVED_LIST_SYNC =
    (NotSupported, ''no supported provider surface exposes the personal Saved list'')"

section \<open>Availability and preservation\<close>

datatype upstream_availability =
    Active
  | Deleted
  | PrivateOrInaccessible
  | AuthorUnavailable
  | TemporarilyUnavailable
  | Unknown

datatype preservation_state =
    ContentPreserved
  | MetadataOnly
  | UserArtifactOnly
  | NothingPreserved

fun availability_wire_value :: "upstream_availability \<Rightarrow> string" where
  "availability_wire_value Active = ''active''"
| "availability_wire_value Deleted = ''deleted''"
| "availability_wire_value PrivateOrInaccessible = ''private_or_inaccessible''"
| "availability_wire_value AuthorUnavailable = ''author_unavailable''"
| "availability_wire_value TemporarilyUnavailable = ''temporarily_unavailable''"
| "availability_wire_value Unknown = ''unknown''"

definition retention_after_observation ::
  "preservation_state \<Rightarrow> upstream_availability \<Rightarrow> preservation_state" where
  "retention_after_observation current observed = current"

section \<open>Closed wire vocabularies\<close>

locale wire_vocabulary =
  fixes wire :: "'a \<Rightarrow> string"
    and parse :: "string \<Rightarrow> 'a option"
    and column_values :: "string list"
  assumes parse_wire: "parse (wire a) = Some a"
    and parse_sound: "parse s = Some a \<Longrightarrow> s = wire a"
    and wire_allowed: "wire a \<in> set column_values"
begin

lemma wire_inject: "wire a = wire b \<Longrightarrow> a = b"
  by (metis option.inject parse_wire)

lemma parse_iff: "parse s = Some a \<longleftrightarrow> s = wire a"
  using parse_wire parse_sound by blast

lemma parse_refuses: "parse s = None \<longleftrightarrow> s \<notin> range wire"
  by (metis imageE not_None_eq parse_sound parse_wire rangeI)

lemma parse_allowed: "parse s = Some a \<Longrightarrow> s \<in> set column_values"
  using parse_sound wire_allowed by blast

end

text \<open>Where the enum names every value of its column, a stored value is always decodable.\<close>

locale exact_vocabulary = wire_vocabulary +
  assumes column_covered: "s \<in> set column_values \<Longrightarrow> s \<in> range wire"
begin

lemma parse_total: "s \<in> set column_values \<longleftrightarrow> (\<exists>a. parse s = Some a)"
  using column_covered parse_allowed parse_refuses by (metis not_None_eq)

end

lemma capability_ceiling_published:
  "m \<in> {ExplicitCaptureMode, PublicResolutionMode} \<Longrightarrow>
    mc_authority_ceiling (capability m) = ExplicitUserCapture"
  by auto

lemma wire_methods_partition:
  "sort (concat (map (wire_methods \<circ> capability) ALL_MODES)) = sort ACQUISITION_METHODS"
  by code_simp

end
