(* ===== verification/Publishing.thy ===== *)
theory Publishing
  imports Database
begin

text \<open>
  \<^verbatim>\<open>crates/threads-archive/src/publishing.rs\<close>: facts about archived posts, appended to the outbox inside
  the caller's transaction. Every function threads the database explicitly; \<open>Inl\<close> aborts the
  caller's transaction. \<open>latest_by\<close> is \<^verbatim>\<open>order by ... desc limit 1\<close>.
\<close>

definition PLATFORM :: string where
  "PLATFORM = ''threads''"

definition PRODUCER :: string where
  "PRODUCER = ''ratatoskr-threads''"

definition CAPTURED_EVENT :: string where
  "CAPTURED_EVENT = ''social.source.captured.v1''"

definition UPDATED_EVENT :: string where
  "UPDATED_EVENT = ''social.source.updated.v1''"

definition REMOVED_EVENT :: string where
  "REMOVED_EVENT = ''social.source.removed.v1''"

record source_origin =
  og_owner :: uuid
  og_post_id :: uuid
  og_captured_at :: instant
  og_capture_id :: "uuid option"
  og_capture_acquisition :: "string option"
  og_operation_id :: uuid

datatype publish_error =
    NothingToPublish uuid
  | ContractViolation uuid string
  | PublishPersistence sqlx_error

fun publish_error_text :: "env \<Rightarrow> publish_error \<Rightarrow> string" where
  "publish_error_text E (NothingToPublish c) =
    ''capture '' @ uuid_text E c @ '' has no publishable normalized record''"
| "publish_error_text E (ContractViolation c reason) =
    ''contract validation failed for capture '' @ uuid_text E c @ '': '' @ reason"
| "publish_error_text E (PublishPersistence _) = ''social-source publication persistence failed''"

fun latest_by :: "('r \<Rightarrow> 'k :: linorder) \<Rightarrow> 'r list \<Rightarrow> 'r option" where
  "latest_by k [] = None"
| "latest_by k (r # rs) = (case latest_by k rs of
      None \<Rightarrow> Some r
    | Some m \<Rightarrow> if k r \<le> k m then Some m else Some r)"

section \<open>Vocabulary of the published contract\<close>

definition acquisition_method :: "string \<Rightarrow> uuid \<Rightarrow> publish_error + contract_acquisition" where
  "acquisition_method value capture_id =
    (if value = ''official_api'' then Inr OfficialApi
     else if value = ''data_export'' then Inr DataExport
     else if value = ''share_extension'' then Inr ShareExtension
     else if value = ''browser_extension'' then Inr BrowserExtension
     else if value = ''public_resolution'' then Inr PublicResolution
     else Inl (ContractViolation capture_id (''unsupported explicit-capture acquisition '' @ value)))"

definition saved_authority :: "string \<Rightarrow> uuid \<Rightarrow> publish_error + contract_authority" where
  "saved_authority value operation_id =
    (if value = ''authoritative_platform_state'' then Inr AuthoritativePlatformState
     else if value = ''explicit_user_capture'' then Inr ExplicitUserCapture
     else if value = ''export_observation'' then Inr ExportObservation
     else if value = ''legacy_observation'' then Inr LegacyObservation
     else Inl (ContractViolation operation_id (''unsupported saved authority '' @ value)))"

definition availability :: "string \<Rightarrow> uuid \<Rightarrow> publish_error + contract_availability" where
  "availability value capture_id =
    (if value = ''active'' then Inr Available
     else if value = ''deleted'' then Inr DeletedUpstream
     else if value \<in> {''private_or_inaccessible'', ''author_unavailable'', ''temporarily_unavailable'',
       ''unknown''} then Inr UnavailableUpstream
     else Inl (ContractViolation capture_id (''unsupported upstream availability '' @ value)))"

definition digest_from_bytes :: "env \<Rightarrow> bytes \<Rightarrow> uuid \<Rightarrow> publish_error + string" where
  "digest_from_bytes E bs capture_id =
    bindE (contract E (ContractViolation capture_id) (DigestHexV (hex bs))) (\<lambda>_. Inr (hex bs))"

definition digest_material ::
  "env \<Rightarrow> string option \<Rightarrow> (string \<times> string) list \<Rightarrow> string \<Rightarrow> string \<Rightarrow> string \<Rightarrow> json" where
  "digest_material E text relations avail acquisition authority = JObject
    [(''text'', case text of None \<Rightarrow> JNull | Some t \<Rightarrow> JString t),
     (''relations'', JArray (map (relation_json E) relations)),
     (''availability'', JString avail),
     (''acquisition'', JString acquisition),
     (''saved_authority'', JString authority)]"

definition content_digest ::
  "env \<Rightarrow> string option \<Rightarrow> (string \<times> string) list \<Rightarrow> string \<Rightarrow> string \<Rightarrow> string \<Rightarrow> uuid
    \<Rightarrow> publish_error + string" where
  "content_digest E text relations avail acquisition authority operation_id =
    digest_from_bytes E
      (sha256 E (json_bytes E (digest_material E text relations avail acquisition authority))) operation_id"

definition timestamp :: "env \<Rightarrow> instant \<Rightarrow> uuid \<Rightarrow> publish_error + int" where
  "timestamp E value capture_id =
    bindE (contract E (ContractViolation capture_id) (WireTimestampV (value div 1000000)))
      (\<lambda>_. Inr (value div 1000000))"

section \<open>Loading what a fact is built from\<close>

definition load_capture_origin :: "uuid \<Rightarrow> db \<Rightarrow> publish_error + source_origin" where
  "load_capture_origin capture_id d =
    (case List.find (\<lambda>c. cp_capture_id c = capture_id) (captures d) of
       None \<Rightarrow> Inl (NothingToPublish capture_id)
     | Some c \<Rightarrow> (case cp_post_id c of
         None \<Rightarrow> Inl (NothingToPublish capture_id)
       | Some p \<Rightarrow> if exists_where (\<lambda>q. po_post_id q = p) (posts d)
           then Inr \<lparr>og_owner = cp_user_ref c, og_post_id = p, og_captured_at = cp_captured_at c,
             og_capture_id = Some capture_id, og_capture_acquisition = Some (cp_acquisition_method c),
             og_operation_id = capture_id\<rparr>
           else Inl (NothingToPublish capture_id)))"

definition load_post :: "uuid \<Rightarrow> uuid \<Rightarrow> db \<Rightarrow> publish_error + post_row \<times> string" where
  "load_post post_id operation_id d =
    (case List.find (\<lambda>p. po_post_id p = post_id) (posts d) of
       None \<Rightarrow> Inl (NothingToPublish operation_id)
     | Some p \<Rightarrow> (case po_provider_post_id p of
         None \<Rightarrow> Inl (PublishPersistence (ColumnDecode ''provider_post_id'' ''unexpected null''))
       | Some provider \<Rightarrow> Inr (p, provider)))"

definition load_raw :: "uuid \<Rightarrow> uuid \<Rightarrow> db \<Rightarrow> publish_error + raw_object_row" where
  "load_raw post_id capture_id d =
    (let joined = concat (map (\<lambda>v. map (\<lambda>raw. (v, raw))
           (filter (\<lambda>raw. ro_raw_object_id raw = pr_raw_object_id v) (raw_objects d)))
         (filter (\<lambda>v. pr_post_id v = post_id) (post_revisions d)))
     in case latest_by (\<lambda>(v, _). (pr_observed_at v, pr_revision_id v)) joined of
       None \<Rightarrow> Inl (NothingToPublish capture_id)
     | Some (_, raw) \<Rightarrow> Inr raw)"

definition load_relations :: "env \<Rightarrow> uuid \<Rightarrow> uuid \<Rightarrow> db \<Rightarrow> publish_error + (string \<times> string) list" where
  "load_relations E post_id capture_id d =
    mapE (\<lambda>(kind, target).
        bindE (contract E (ContractViolation capture_id) (RelationKindV kind)) (\<lambda>_.
        bindE (contract E (ContractViolation capture_id) (EntityLocalIdV target)) (\<lambda>_.
        Inr (kind, target))))
      (sort (map (\<lambda>r. (rl_relation_kind r, rl_target_provider_post_id r))
        (filter (\<lambda>r. rl_referencing_post_id r = post_id) (post_relations d))))"

definition social_source_id_for :: "uuid \<Rightarrow> uuid \<Rightarrow> db \<Rightarrow> uuid option" where
  "social_source_id_for owner post_id d = map_option ss_social_source_id
    (List.find (\<lambda>s. ss_user_ref s = owner \<and> ss_post_id s = post_id) (social_sources d))"

definition ensure_source ::
  "env \<Rightarrow> uuid \<Rightarrow> uuid \<Rightarrow> uuid option \<Rightarrow> string \<Rightarrow> db \<Rightarrow> publish_error + uuid \<times> db" where
  "ensure_source E owner post_id capture_id canonical_url d =
    (let derived = uuid_v5 E (uuid_text E owner @ [CHR 0x00] @ canonical_url) in
     case social_source_id_for owner post_id d of
       Some existing \<Rightarrow> Inr (existing, d)
     | None \<Rightarrow> bindE (map_err PublishPersistence (insert_social_source
         \<lparr>ss_social_source_id = derived, ss_user_ref = owner, ss_post_id = post_id,
          ss_first_capture_id = capture_id\<rparr> d)) (\<lambda>d. Inr (derived, d)))"

section \<open>Building and appending a fact\<close>

definition tenant :: "env \<Rightarrow> uuid \<Rightarrow> string" where
  "tenant E owner = ''user:'' @ uuid_text E owner"

definition snapshot_provenance :: "source_origin \<Rightarrow> post_row \<Rightarrow> string \<times> string" where
  "snapshot_provenance origin p = (case og_capture_acquisition origin of
      Some capture_acquisition \<Rightarrow> (capture_acquisition, ''explicit_user_capture'')
    | None \<Rightarrow> (po_acquisition_method p, po_saved_authority p))"

text \<open>The contract values of the snapshot, in the order the struct literal evaluates them.\<close>

definition snapshot_contracts ::
  "env \<Rightarrow> uuid \<Rightarrow> uuid \<Rightarrow> source_origin \<Rightarrow> string \<Rightarrow> post_row \<Rightarrow> publish_error + unit" where
  "snapshot_contracts E operation_id source_id origin provider p =
    (let C = contract E (ContractViolation operation_id) in
     bindE (C (SocialSourceIdV (uuid_text E source_id))) (\<lambda>_.
     bindE (C (PlatformV PLATFORM)) (\<lambda>_.
     bindE (C (EntityLocalIdV provider)) (\<lambda>_.
     bindE (C (PostPermalinkV (po_permalink p))) (\<lambda>_.
     C (TenantRefV (tenant E (og_owner origin))))))))"

definition snapshot_text :: "env \<Rightarrow> uuid \<Rightarrow> string option \<Rightarrow> publish_error + string option" where
  "snapshot_text E operation_id text = (case text of
      None \<Rightarrow> Inr None
    | Some t \<Rightarrow> if t = [] then Inr None
        else bindE (contract E (ContractViolation operation_id) (PostTextV t)) (\<lambda>_. Inr (Some t)))"

definition snapshot_blob :: "env \<Rightarrow> uuid \<Rightarrow> string \<Rightarrow> raw_object_row \<Rightarrow> publish_error + blob_reference" where
  "snapshot_blob E operation_id raw_digest raw =
    (let C = contract E (ContractViolation operation_id) in
     bindE (C (BlobOwnerV PRODUCER)) (\<lambda>_.
     bindE (C (MediaTypeV (ro_media_type raw))) (\<lambda>_.
     bindE (ensure (0 \<le> ro_byte_size raw)
       (ContractViolation operation_id ''out of range integral type conversion attempted'')) (\<lambda>_.
     Inr \<lparr>blob_owner = PRODUCER, blob_digest = raw_digest, blob_media_type = ro_media_type raw,
       blob_length = ro_byte_size raw\<rparr>))))"

definition snapshot_body ::
  "env \<Rightarrow> source_origin \<Rightarrow> post_row \<Rightarrow> string \<Rightarrow> uuid \<Rightarrow> db \<Rightarrow> publish_error + social_source_snapshot" where
  "snapshot_body E origin p provider source_id d =
    (let op = og_operation_id origin;
         acquisition = fst (snapshot_provenance origin p);
         authority = snd (snapshot_provenance origin p) in
     bindE (load_raw (og_post_id origin) op d) (\<lambda>raw.
     bindE (load_relations E (og_post_id origin) op d) (\<lambda>relations.
     bindE (digest_from_bytes E (ro_content_hash raw) op) (\<lambda>raw_digest.
     bindE (content_digest E (po_text_content p) relations (po_upstream_status p) acquisition authority op)
       (\<lambda>digest.
     bindE (snapshot_contracts E op source_id origin provider p) (\<lambda>_.
     bindE (case po_published_at p of None \<Rightarrow> Inr None
       | Some t \<Rightarrow> bindE (timestamp E t op) (\<lambda>s. Inr (Some s))) (\<lambda>published.
     bindE (timestamp E (og_captured_at origin) op) (\<lambda>captured.
     bindE (snapshot_text E op (po_text_content p)) (\<lambda>text.
     bindE (snapshot_blob E op raw_digest raw) (\<lambda>blob.
     bindE (acquisition_method acquisition op) (\<lambda>acq.
     bindE (saved_authority authority op) (\<lambda>auth.
     bindE (availability (po_upstream_status p) op) (\<lambda>avail.
     Inr \<lparr>sn_social_source_id = source_id, sn_platform = PLATFORM, sn_external_post_id = provider,
          sn_permalink = Some (po_permalink p), sn_owner = og_owner origin, sn_published_at = published,
          sn_captured_at = captured, sn_text = text, sn_relations = relations,
          sn_content_digest = digest, sn_raw_blob = blob, sn_acquisition = acq,
          sn_saved_authority = auth, sn_availability = avail\<rparr>)))))))))))))"

definition build_snapshot ::
  "env \<Rightarrow> source_origin \<Rightarrow> db \<Rightarrow> publish_error + social_source_snapshot \<times> db" where
  "build_snapshot E origin d =
     bindE (load_post (og_post_id origin) (og_operation_id origin) d) (\<lambda>(p, provider).
     bindE (ensure_source E (og_owner origin) (og_post_id origin) (og_capture_id origin)
       (po_permalink p) d) (\<lambda>(source_id, d).
     bindE (snapshot_body E origin p provider source_id d) (\<lambda>snapshot. Inr (snapshot, d))))"

definition envelope_value ::
  "env \<Rightarrow> uuid \<Rightarrow> string \<Rightarrow> event_payload \<Rightarrow> uuid \<Rightarrow> uuid \<Rightarrow> source_origin
    \<Rightarrow> publish_error + event_envelope" where
  "envelope_value E event_id event_type payload source_id owner origin =
    (let envelope = \<lparr>ev_event_id = event_id, ev_event_type = event_type, ev_occurred_at = wall E,
           ev_producer = PRODUCER, ev_aggregate_id = ''social_source:'' @ uuid_text E source_id,
           ev_correlation_id = (if og_capture_id origin \<noteq> None then ''capture:'' else ''post:'')
             @ uuid_text E (og_operation_id origin),
           ev_tenant_id = tenant E owner, ev_schema_version = 1, ev_payload = payload\<rparr>
     in bindE (contract E (ContractViolation (og_operation_id origin)) (EnvelopeV envelope))
          (\<lambda>_. Inr envelope))"

definition previous_digest :: "uuid \<Rightarrow> db \<Rightarrow> string option" where
  "previous_digest source_id d = map_option sr_content_digest
    (latest_by sr_observed_at (filter (\<lambda>r. sr_social_source_id r = source_id) (source_revisions d)))"

definition outbox_entry ::
  "env \<Rightarrow> uuid \<Rightarrow> string \<Rightarrow> string \<Rightarrow> uuid \<Rightarrow> outbox_payload \<Rightarrow> uuid option \<Rightarrow> uuid option \<Rightarrow> outbox_row" where
  "outbox_entry E event_id event_type aggregate_type aggregate_id payload correlation causation =
    \<lparr>ob_event_id = event_id, ob_event_type = event_type, ob_aggregate_type = aggregate_type,
     ob_aggregate_id = aggregate_id, ob_payload = payload, ob_correlation_id = correlation,
     ob_causation_id = causation, ob_occurred_at = now E, ob_published_at = None,
     ob_attempt_count = 0, ob_next_attempt_at = None, ob_last_error = None,
     ob_acknowledged_at = None, ob_ack_outcome = None, ob_resend_count = 0, ob_next_resend_at = None\<rparr>"

definition append_origin_fact :: "env \<Rightarrow> source_origin \<Rightarrow> db \<Rightarrow> publish_error + db" where
  "append_origin_fact E origin d =
    bindE (build_snapshot E origin d) (\<lambda>(snapshot, d).
    let source_id = sn_social_source_id snapshot;
        digest = sn_content_digest snapshot;
        previous = previous_digest source_id d in
    if previous = Some digest then Inr d else
    let (event_id, d) = now_v7 E d;
        (event_type, payload) = (if previous \<noteq> None then (UPDATED_EVENT, SourceUpdated snapshot)
          else (CAPTURED_EVENT, SourceCaptured snapshot)) in
    bindE (envelope_value E event_id event_type payload source_id (sn_owner snapshot) origin) (\<lambda>envelope.
    let (revision_id, d) = now_v7 E d in
    bindE (map_err PublishPersistence (insert_source_revision
      \<lparr>sr_source_revision_id = revision_id, sr_social_source_id = source_id,
       sr_content_digest = digest, sr_snapshot = snapshot, sr_observed_at = now E\<rparr> d)) (\<lambda>d.
    let aggregate_type = (if og_capture_id origin \<noteq> None then ''capture'' else ''post'') in
    map_err PublishPersistence (insert_outbox
      (outbox_entry E event_id event_type aggregate_type (og_operation_id origin)
        (EventPayload envelope) (Some (og_operation_id origin)) None) d))))"

definition append_fact :: "env \<Rightarrow> uuid \<Rightarrow> db \<Rightarrow> publish_error + db" where
  "append_fact E capture_id d =
    bindE (load_capture_origin capture_id d) (\<lambda>origin. append_origin_fact E origin d)"

definition post_origin :: "uuid \<Rightarrow> uuid \<Rightarrow> db \<Rightarrow> publish_error + source_origin" where
  "post_origin owner post_id d =
    (case List.find (\<lambda>p. po_post_id p = post_id) (posts d) of
       None \<Rightarrow> Inl (NothingToPublish post_id)
     | Some p \<Rightarrow> Inr \<lparr>og_owner = owner, og_post_id = post_id, og_captured_at = po_updated_at p,
         og_capture_id = None, og_capture_acquisition = None, og_operation_id = post_id\<rparr>)"

definition append_official_fact :: "env \<Rightarrow> uuid \<Rightarrow> uuid \<Rightarrow> db \<Rightarrow> publish_error + db" where
  "append_official_fact E account_id post_id d =
    (case List.find (\<lambda>a. ac_account_id a = account_id) (accounts d) of
       None \<Rightarrow> Inl (NothingToPublish post_id)
     | Some a \<Rightarrow> bindE (post_origin (ac_user_ref a) post_id d) (\<lambda>origin. append_origin_fact E origin d))"

definition append_export_fact :: "env \<Rightarrow> uuid \<Rightarrow> uuid \<Rightarrow> db \<Rightarrow> publish_error + db" where
  "append_export_fact E owner post_id d =
    bindE (post_origin owner post_id d) (\<lambda>origin. append_origin_fact E origin d)"

definition append_removal ::
  "env \<Rightarrow> uuid \<Rightarrow> uuid \<Rightarrow> uuid \<Rightarrow> string \<Rightarrow> uuid \<Rightarrow> db \<Rightarrow> publish_error + db" where
  "append_removal E owner social_source_id operation_id aggregate_type aggregate_id d =
    (let C = contract E (ContractViolation operation_id) in
     bindE (C (SocialSourceIdV (uuid_text E social_source_id))) (\<lambda>_.
     bindE (C (TenantRefV (tenant E owner))) (\<lambda>_.
     let (event_id, d) = now_v7 E d;
         envelope = \<lparr>ev_event_id = event_id, ev_event_type = REMOVED_EVENT, ev_occurred_at = wall E,
           ev_producer = PRODUCER, ev_aggregate_id = ''social_source:'' @ uuid_text E social_source_id,
           ev_correlation_id = ''deletion:'' @ uuid_text E operation_id,
           ev_tenant_id = tenant E owner, ev_schema_version = 1,
           ev_payload = SourceRemoved social_source_id owner (wall E)\<rparr> in
     bindE (C (EnvelopeV envelope)) (\<lambda>_.
     map_err PublishPersistence (insert_outbox
       (outbox_entry E event_id REMOVED_EVENT aggregate_type aggregate_id (EventPayload envelope)
         (Some operation_id) None) d)))))"

section \<open>What the publication functions change\<close>

definition published_from :: "db \<Rightarrow> db \<Rightarrow> bool" where
  "published_from d d' \<longleftrightarrow> prefix (social_sources d) (social_sources d')
    \<and> prefix (source_revisions d) (source_revisions d') \<and> prefix (outbox d) (outbox d')
    \<and> d' = d\<lparr>social_sources := social_sources d', source_revisions := source_revisions d',
        outbox := outbox d', minted := minted d'\<rparr>"

lemma latest_by_mem: "latest_by k rs = Some r \<Longrightarrow> r \<in> set rs"
  by (induction rs arbitrary: r) (auto split: option.splits if_splits)

lemma latest_by_None [simp]: "latest_by k rs = None \<longleftrightarrow> rs = []"
  by (cases rs) (auto split: option.splits)

lemma latest_by_max: "latest_by k rs = Some r \<Longrightarrow> s \<in> set rs \<Longrightarrow> k s \<le> k r"
proof (induction rs arbitrary: r)
  case (Cons a rs)
  show ?case
  proof (cases "latest_by k rs")
    case None
    with Cons.prems show ?thesis by simp
  next
    case (Some m)
    with Cons.IH have "s \<in> set rs \<Longrightarrow> k s \<le> k m" by blast
    with Some Cons.prems show ?thesis by (auto split: if_splits)
  qed
qed simp

lemma latest_by_snoc:
  "\<forall>s \<in> set rs. k s \<le> k r \<Longrightarrow> latest_by k (rs @ [r]) = Some r"
  by (induction rs) auto

lemma ensure_source_cases:
  assumes "ensure_source E owner post_id cid url d = Inr (sid, d')"
  shows "(d' = d \<and> social_source_id_for owner post_id d = Some sid)
    \<or> (social_source_id_for owner post_id d = None \<and>
       (\<exists>r. d' = d\<lparr>social_sources := social_sources d @ [r]\<rparr> \<and> ss_social_source_id r = sid
        \<and> ss_user_ref r = owner \<and> ss_post_id r = post_id \<and> ss_first_capture_id r = cid))"
  using assms
  by (auto simp: ensure_source_def insert_social_source_def Let_def split: option.splits if_splits)

lemma ensure_source_lookup:
  assumes "ensure_source E owner post_id cid url d = Inr (sid, d')"
  shows "social_source_id_for owner post_id d' = Some sid"
  using ensure_source_cases [OF assms]
  by (auto simp: social_source_id_for_def find_append split: option.splits)

lemma ensure_source_schema:
  assumes "ensure_source E owner post_id cid url d = Inr (sid, d')" and "schema_ok d"
  shows "schema_ok d'"
  using assms by (auto simp: ensure_source_def Let_def split: option.splits
      intro: schema_ok_insert_social_source)

lemma snapshot_body_parts:
  assumes "snapshot_body E origin p provider source_id d = Inr s"
  shows "sn_social_source_id s = source_id" "sn_owner s = og_owner origin"
    "saved_authority (snd (snapshot_provenance origin p)) (og_operation_id origin) = Inr (sn_saved_authority s)"
    "acquisition_method (fst (snapshot_provenance origin p)) (og_operation_id origin) = Inr (sn_acquisition s)"
    "availability (po_upstream_status p) (og_operation_id origin) = Inr (sn_availability s)"
  using assms by (auto simp: snapshot_body_def Let_def)

lemma build_snapshot_parts:
  assumes "build_snapshot E origin d = Inr (s, d')"
  obtains p provider where
    "load_post (og_post_id origin) (og_operation_id origin) d = Inr (p, provider)"
    "ensure_source E (og_owner origin) (og_post_id origin) (og_capture_id origin) (po_permalink p) d
      = Inr (sn_social_source_id s, d')"
    "snapshot_body E origin p provider (sn_social_source_id s) d' = Inr s"
proof -
  obtain p provider sid where
    "load_post (og_post_id origin) (og_operation_id origin) d = Inr (p, provider)"
    "ensure_source E (og_owner origin) (og_post_id origin) (og_capture_id origin) (po_permalink p) d
      = Inr (sid, d')"
    "snapshot_body E origin p provider sid d' = Inr s"
    using assms by (auto simp: build_snapshot_def)
  with snapshot_body_parts(1) [OF this(3)] that show thesis by simp
qed

lemma append_origin_fact_cases:
  assumes "append_origin_fact E origin d = Inr d'"
  obtains s d0 where "build_snapshot E origin d = Inr (s, d0)"
    "previous_digest (sn_social_source_id s) d0 = Some (sn_content_digest s)" "d' = d0"
  | s d0 envelope where "build_snapshot E origin d = Inr (s, d0)"
    "previous_digest (sn_social_source_id s) d0 \<noteq> Some (sn_content_digest s)"
    "ev_payload envelope = (if previous_digest (sn_social_source_id s) d0 = None
      then SourceCaptured s else SourceUpdated s)"
    "d' = d0\<lparr>minted := Suc (Suc (minted d0)),
      source_revisions := source_revisions d0 @
        [\<lparr>sr_source_revision_id = mint E (Suc (minted d0)), sr_social_source_id = sn_social_source_id s,
          sr_content_digest = sn_content_digest s, sr_snapshot = s, sr_observed_at = now E\<rparr>],
      outbox := outbox d0 @ [outbox_entry E (mint E (minted d0))
        (if previous_digest (sn_social_source_id s) d0 = None then CAPTURED_EVENT else UPDATED_EVENT)
        (if og_capture_id origin = None then ''post'' else ''capture'') (og_operation_id origin)
        (EventPayload envelope) (Some (og_operation_id origin)) None]\<rparr>"
proof -
  obtain s d0 where b: "build_snapshot E origin d = Inr (s, d0)"
    using assms by (auto simp: append_origin_fact_def)
  show thesis
  proof (cases "previous_digest (sn_social_source_id s) d0 = Some (sn_content_digest s)")
    case True
    with b assms that(1) show ?thesis by (simp add: append_origin_fact_def Let_def)
  next
    case False
    with b assms show ?thesis
      by (auto simp: append_origin_fact_def Let_def now_v7_def envelope_value_def
          insert_source_revision_def insert_outbox_def split: if_splits intro!: that(2) [OF b])
  qed
qed

lemma append_origin_fact_frame:
  assumes "append_origin_fact E origin d = Inr d'"
  shows "published_from d d'"
proof -
  have src: "\<exists>ss. d0 = d\<lparr>social_sources := social_sources d @ ss\<rparr>"
    if "build_snapshot E origin d = Inr (s, d0)" for s d0
  proof -
    from that obtain p :: post_row where "ensure_source E (og_owner origin) (og_post_id origin) (og_capture_id origin)
        (po_permalink p) d = Inr (sn_social_source_id s, d0)"
      by (rule build_snapshot_parts) blast
    from ensure_source_cases [OF this] show ?thesis
      by (metis (no_types, lifting) append_Nil2 db.surjective db.update_convs(13))
  qed
  from assms show ?thesis
  proof (cases rule: append_origin_fact_cases)
    case (1 s d0)
    then obtain ss where "d0 = d\<lparr>social_sources := social_sources d @ ss\<rparr>" using src by blast
    with 1 show ?thesis by (simp add: published_from_def)
  next
    case (2 s d0 envelope)
    then obtain ss where "d0 = d\<lparr>social_sources := social_sources d @ ss\<rparr>" using src by blast
    then show ?thesis unfolding published_from_def 2(4) by simp
  qed
qed

lemma published_from_keeps [simp]:
  assumes "published_from d d'"
  shows "captures d' = captures d" "posts d' = posts d" "raw_objects d' = raw_objects d"
    "post_revisions d' = post_revisions d" "post_relations d' = post_relations d" "media d' = media d"
    "capture_resolutions d' = capture_resolutions d" "tombstones d' = tombstones d"
    "analysis_links d' = analysis_links d" "inbox d' = inbox d" "accounts d' = accounts d"
    "deletion_operations d' = deletion_operations d" "deletion_effects d' = deletion_effects d"
    "local_removals d' = local_removals d" "blob_tasks d' = blob_tasks d"
proof -
  have eq: "d' = d\<lparr>social_sources := social_sources d', source_revisions := source_revisions d',
      outbox := outbox d', minted := minted d'\<rparr>"
    using assms by (simp add: published_from_def)
  show "captures d' = captures d" "posts d' = posts d" "raw_objects d' = raw_objects d"
    "post_revisions d' = post_revisions d" "post_relations d' = post_relations d" "media d' = media d"
    "capture_resolutions d' = capture_resolutions d" "tombstones d' = tombstones d"
    "analysis_links d' = analysis_links d" "inbox d' = inbox d" "accounts d' = accounts d"
    "deletion_operations d' = deletion_operations d" "deletion_effects d' = deletion_effects d"
    "local_removals d' = local_removals d" "blob_tasks d' = blob_tasks d"
    by (subst eq, simp)+
qed

lemma append_origin_fact_schema:
  assumes "append_origin_fact E origin d = Inr d'" and "schema_ok d"
  shows "schema_ok d'"
proof -
  obtain s d0 where b: "build_snapshot E origin d = Inr (s, d0)"
    using assms by (auto simp: append_origin_fact_def)
  then have ok: "schema_ok d0"
    by (rule build_snapshot_parts) (use assms(2) ensure_source_schema in blast)
  show ?thesis
  proof (cases "previous_digest (sn_social_source_id s) d0 = Some (sn_content_digest s)")
    case True
    with assms(1) b ok show ?thesis by (simp add: append_origin_fact_def Let_def)
  next
    case False
    with assms(1) b obtain r x row where
      "insert_source_revision r (d0\<lparr>minted := Suc (Suc (minted d0))\<rparr>) = Inr x" "insert_outbox row x = Inr d'"
      by (auto simp: append_origin_fact_def Let_def now_v7_def case_prod_unfold)
    with ok show ?thesis
      by (metis schema_ok_minted schema_ok_insert_source_revision schema_ok_insert_outbox)
  qed
qed

lemma append_fact_frame: "append_fact E c d = Inr d' \<Longrightarrow> published_from d d'"
  by (auto simp: append_fact_def intro: append_origin_fact_frame)

lemma append_fact_schema [schema_intros]: "append_fact E c d = Inr d' \<Longrightarrow> schema_ok d \<Longrightarrow> schema_ok d'"
  by (auto simp: append_fact_def intro: append_origin_fact_schema)

lemma append_removal_frame:
  assumes "append_removal E owner sid op at aid d = Inr d'"
  obtains row where "d' = d\<lparr>minted := Suc (minted d), outbox := outbox d @ [row]\<rparr>"
    "ob_event_type row = REMOVED_EVENT" "ob_aggregate_type row = at" "ob_aggregate_id row = aid"
    "ob_correlation_id row = Some op" "ob_published_at row = None" "ob_acknowledged_at row = None"
    "\<exists>envelope. ob_payload row = EventPayload envelope \<and> ev_payload envelope = SourceRemoved sid owner (wall E)"
  using assms
  by (auto simp: append_removal_def Let_def now_v7_def insert_outbox_def outbox_entry_def
      split: if_splits)

lemma append_removal_schema [schema_intros]:
  "append_removal E owner sid op at aid d = Inr d' \<Longrightarrow> schema_ok d \<Longrightarrow> schema_ok d'"
  by (auto simp: append_removal_def Let_def now_v7_def intro: schema_intros)

section \<open>Properties of publication\<close>

definition carries :: "outbox_row \<Rightarrow> social_source_snapshot \<Rightarrow> bool" where
  "carries row s \<longleftrightarrow> (\<exists>envelope. ob_payload row = EventPayload envelope
    \<and> (ob_event_type row = CAPTURED_EVENT \<and> ev_payload envelope = SourceCaptured s
      \<or> ob_event_type row = UPDATED_EVENT \<and> ev_payload envelope = SourceUpdated s))"

lemma append_origin_fact_effect:
  assumes "append_origin_fact E origin d = Inr d'"
  shows "\<exists>new evs. source_revisions d' = source_revisions d @ new \<and> outbox d' = outbox d @ evs
    \<and> length new \<le> 1 \<and> list_all2 (\<lambda>r e. carries e (sr_snapshot r)
        \<and> ob_aggregate_id e = og_operation_id origin \<and> sn_owner (sr_snapshot r) = og_owner origin
        \<and> (og_capture_acquisition origin \<noteq> None
            \<longrightarrow> sn_saved_authority (sr_snapshot r) = ExplicitUserCapture)) new evs"
proof -
  have keep: "source_revisions d0 = source_revisions d \<and> outbox d0 = outbox d"
    if b: "build_snapshot E origin d = Inr (s, d0)" for s d0
  proof -
    obtain p :: post_row where "ensure_source E (og_owner origin) (og_post_id origin)
        (og_capture_id origin) (po_permalink p) d = Inr (sn_social_source_id s, d0)"
      using b by (rule build_snapshot_parts) blast
    from ensure_source_cases [OF this] show ?thesis by auto
  qed
  have auth: "sn_owner s = og_owner origin
      \<and> (og_capture_acquisition origin \<noteq> None \<longrightarrow> sn_saved_authority s = ExplicitUserCapture)"
    if b: "build_snapshot E origin d = Inr (s, d0)" for s d0
  proof -
    obtain p provider where "snapshot_body E origin p provider (sn_social_source_id s) d0 = Inr s"
      using b by (rule build_snapshot_parts)
    from snapshot_body_parts(2,3) [OF this] show ?thesis
      by (auto simp: snapshot_provenance_def saved_authority_def split: option.splits)
  qed
  from assms show ?thesis
  proof (cases rule: append_origin_fact_cases)
    case (1 s d0)
    with keep show ?thesis by (intro exI [of _ "[]"]) auto
  next
    case (2 s d0 envelope)
    show ?thesis unfolding 2(4)
      using keep [OF 2(1)] auth [OF 2(1)] 2(3)
      by (auto simp: carries_def outbox_entry_def)
  qed
qed

text \<open>A snapshot only depends on the evidence tables, so it is rebuilt identically at any later
  time from any state with the same evidence.\<close>

lemma clock_irrelevant [simp]:
  "contract (E\<lparr>now := t, wall := w\<rparr>) h v = contract E h v"
  "load_relations (E\<lparr>now := t, wall := w\<rparr>) p c d = load_relations E p c d"
  "digest_from_bytes (E\<lparr>now := t, wall := w\<rparr>) bs c = digest_from_bytes E bs c"
  "content_digest (E\<lparr>now := t, wall := w\<rparr>) x rels a b e c = content_digest E x rels a b e c"
  "timestamp (E\<lparr>now := t, wall := w\<rparr>) i c = timestamp E i c"
  "tenant (E\<lparr>now := t, wall := w\<rparr>) u = tenant E u"
  by (simp_all add: contract_def load_relations_def digest_from_bytes_def content_digest_def
      digest_material_def timestamp_def tenant_def)

lemma snapshot_clock_irrelevant [simp]:
  "snapshot_contracts (E\<lparr>now := t, wall := w\<rparr>) op sid og pr p = snapshot_contracts E op sid og pr p"
  "snapshot_text (E\<lparr>now := t, wall := w\<rparr>) op x = snapshot_text E op x"
  "snapshot_blob (E\<lparr>now := t, wall := w\<rparr>) op dg r = snapshot_blob E op dg r"
  by (simp_all add: snapshot_contracts_def snapshot_text_def snapshot_blob_def Let_def split: option.split)

lemma snapshot_body_again:
  assumes "raw_objects d' = raw_objects d" "post_revisions d' = post_revisions d"
    "post_relations d' = post_relations d"
  shows "snapshot_body (E\<lparr>now := t, wall := w\<rparr>) origin p provider sid d'
    = snapshot_body E origin p provider sid d"
proof -
  have "load_raw q c d' = load_raw q c d" "load_relations E q c d' = load_relations E q c d" for q c
    using assms by (simp_all add: load_raw_def load_relations_def)
  then show ?thesis by (simp add: snapshot_body_def Let_def cong: option.case_cong)
qed

lemma build_snapshot_again:
  assumes "build_snapshot E origin d = Inr (s, d0)"
    and "posts d' = posts d" "raw_objects d' = raw_objects d" "post_revisions d' = post_revisions d"
      "post_relations d' = post_relations d"
    and "social_source_id_for (og_owner origin) (og_post_id origin) d' = Some (sn_social_source_id s)"
  shows "build_snapshot (E\<lparr>now := t, wall := w\<rparr>) origin d' = Inr (s, d')"
proof -
  obtain p provider where
    load: "load_post (og_post_id origin) (og_operation_id origin) d = Inr (p, provider)"
    and e: "ensure_source E (og_owner origin) (og_post_id origin) (og_capture_id origin) (po_permalink p) d
      = Inr (sn_social_source_id s, d0)"
    and body: "snapshot_body E origin p provider (sn_social_source_id s) d0 = Inr s"
    using assms(1) by (rule build_snapshot_parts)
  have "raw_objects d' = raw_objects d0" "post_revisions d' = post_revisions d0"
    "post_relations d' = post_relations d0"
    using ensure_source_cases [OF e] assms(3-5) by auto
  note body' = snapshot_body_again [OF this]
  have "load_post (og_post_id origin) (og_operation_id origin) d' = Inr (p, provider)"
    using load assms(2) by (simp add: load_post_def)
  with body' body assms(6) show ?thesis
    by (simp add: build_snapshot_def ensure_source_def Let_def)
qed

text \<open>A capture (4) of user 9 resolved to a post (1) with stored evidence, used by the witnesses.\<close>

definition sample_post :: "string \<Rightarrow> post_row" where
  "sample_post text = \<lparr>po_post_id = 1, po_account_id = None, po_provider_post_id = Some ''C1'',
    po_permalink = ''https://www.threads.net/@ab/post/C1'', po_post_kind = ''post'',
    po_text_content = Some text, po_published_at = None, po_acquisition_method = ''public_resolution'',
    po_saved_authority = ''explicit_user_capture'', po_upstream_status = ''active'', po_updated_at = 0\<rparr>"

definition sample_capture :: capture_row where
  "sample_capture = \<lparr>cp_capture_id = 4, cp_user_ref = 9, cp_post_id = Some 1,
    cp_idempotency_key = ''sha256:00'', cp_canonical_url = ''https://www.threads.net/@ab/post/C1'',
    cp_original_url = ''https://threads.net/@AB/post/C1'', cp_acquisition_method = ''browser_extension'',
    cp_saved_authority = ''explicit_user_capture'', cp_client_source = ''browser_extension'',
    cp_status = ''resolved'', cp_note = None, cp_captured_at = 5, cp_next_resolution_at = Some 5,
    cp_operation_id = Some 70, cp_command_id = Some 71, cp_resolution_attempts = 0,
    cp_operation_reported_at = None\<rparr>"

definition sample_db :: "string \<Rightarrow> db" where
  "sample_db text = empty_db\<lparr>posts := [sample_post text], captures := [sample_capture],
    raw_objects := [\<lparr>ro_raw_object_id = 2, ro_object_kind = ''oembed_response'', ro_blob_ref = ''sha256/ab'',
      ro_content_hash = [1, 2], ro_byte_size = 2, ro_media_type = ''application/json'', ro_observed_at = 5\<rparr>],
    post_revisions := [\<lparr>pr_revision_id = 3, pr_post_id = 1, pr_raw_object_id = 2,
      pr_parser_version = ''threads-oembed-v1'', pr_observed_at = 5\<rparr>]\<rparr>"

definition sample_origin :: source_origin where
  "sample_origin = \<lparr>og_owner = 9, og_post_id = 1, og_captured_at = 5, og_capture_id = Some 4,
    og_capture_acquisition = Some ''browser_extension'', og_operation_id = 4\<rparr>"



text \<open>Claim C17: a fact published for a capture adds at most one revision, adds exactly one event per
  new revision that carries its snapshot under the capture's aggregate, names the capture's owner,
  and never claims more than \<^verbatim>\<open>explicit_user_capture\<close>.\<close>

theorem append_fact_explicit_authority:
  assumes "append_fact E cid d = Inr d'"
  shows "\<exists>c \<in> set (captures d). cp_capture_id c = cid \<and> (\<exists>new evs.
    source_revisions d' = source_revisions d @ new \<and> outbox d' = outbox d @ evs \<and> length new \<le> 1
    \<and> list_all2 (\<lambda>r e. carries e (sr_snapshot r) \<and> ob_aggregate_id e = cid
        \<and> sn_owner (sr_snapshot r) = cp_user_ref c
        \<and> sn_saved_authority (sr_snapshot r) = ExplicitUserCapture) new evs)"
proof -
  obtain origin where o1: "load_capture_origin cid d = Inr origin"
    and o2: "append_origin_fact E origin d = Inr d'"
    using assms by (auto simp: append_fact_def)
  from o1 obtain c where c: "c \<in> set (captures d)" "cp_capture_id c = cid"
    "og_owner origin = cp_user_ref c" "og_operation_id origin = cid" "og_capture_acquisition origin \<noteq> None"
    by (auto simp: load_capture_origin_def dest!: find_SomeD split: option.splits if_splits)
  from append_origin_fact_effect [OF o2] c show ?thesis by auto
qed

theorem append_fact_explicit_authority_witness:
  "\<exists>c \<in> set (captures (sample_db ''hi'')). cp_capture_id c = 4 \<and> (\<exists>new evs.
    source_revisions (projr (append_fact (sample_env 10) 4 (sample_db ''hi'')))
      = source_revisions (sample_db ''hi'') @ new
    \<and> outbox (projr (append_fact (sample_env 10) 4 (sample_db ''hi''))) = outbox (sample_db ''hi'') @ evs
    \<and> length new \<le> 1
    \<and> list_all2 (\<lambda>r e. carries e (sr_snapshot r) \<and> ob_aggregate_id e = 4
        \<and> sn_owner (sr_snapshot r) = cp_user_ref c
        \<and> sn_saved_authority (sr_snapshot r) = ExplicitUserCapture) new evs)"
proof -
  have "append_fact (sample_env 10) 4 (sample_db ''hi'')
      = Inr (projr (append_fact (sample_env 10) 4 (sample_db ''hi'')))"
    by code_simp
  then show ?thesis by (rule append_fact_explicit_authority)
qed

text \<open>Claim C18: a post whose content returns to an earlier published version can no longer be
  published: the latest revision differs, so a revision is inserted, and the unique constraint on
  source and digest refuses it. The caller's transaction, which records the new observation, fails
  with it.\<close>

theorem append_origin_fact_reverted_content_fails:
  assumes "build_snapshot E origin d = Inr (s, d0)"
    and "previous_digest (sn_social_source_id s) d0 \<noteq> Some (sn_content_digest s)"
    and "r \<in> set (source_revisions d0)" and "sr_social_source_id r = sn_social_source_id s"
    and "sr_content_digest r = sn_content_digest s"
  shows "\<exists>e. append_origin_fact E origin d = Inl e"
proof (rule ccontr)
  assume "\<not> ?thesis"
  then obtain d' where ok: "append_origin_fact E origin d = Inr d'"
    by (cases "append_origin_fact E origin d") auto
  then obtain rid x where "insert_source_revision \<lparr>sr_source_revision_id = rid,
      sr_social_source_id = sn_social_source_id s, sr_content_digest = sn_content_digest s,
      sr_snapshot = s, sr_observed_at = now E\<rparr> (d0\<lparr>minted := Suc (Suc (minted d0))\<rparr>) = Inr x"
    using assms(1,2) by (auto simp: append_origin_fact_def Let_def now_v7_def case_prod_unfold)
  with assms(3-5) show False by (auto simp: insert_source_revision_def split: if_splits)
qed

definition sample_reverted :: db where
  "sample_reverted =
    (let d1 = projr (append_fact (sample_env 10) 4 (sample_db ''hi''));
         d2 = projr (append_fact (sample_env 20) 4 (d1\<lparr>posts := [sample_post ''yo'']\<rparr>))
     in d2\<lparr>posts := [sample_post ''hi'']\<rparr>)"

theorem append_origin_fact_reverted_content_fails_witness:
  "\<exists>e. append_origin_fact (sample_env 30) sample_origin sample_reverted = Inl e"
proof -
  have "case build_snapshot (sample_env 30) sample_origin sample_reverted of Inl _ \<Rightarrow> False
    | Inr (s, d0) \<Rightarrow> previous_digest (sn_social_source_id s) d0 \<noteq> Some (sn_content_digest s)
        \<and> source_revisions d0 \<noteq> []
        \<and> sr_social_source_id (hd (source_revisions d0)) = sn_social_source_id s
        \<and> sr_content_digest (hd (source_revisions d0)) = sn_content_digest s"
    by code_simp
  then obtain s d0 where s: "build_snapshot (sample_env 30) sample_origin sample_reverted = Inr (s, d0)"
    "previous_digest (sn_social_source_id s) d0 \<noteq> Some (sn_content_digest s)" "source_revisions d0 \<noteq> []"
    "sr_social_source_id (hd (source_revisions d0)) = sn_social_source_id s"
    "sr_content_digest (hd (source_revisions d0)) = sn_content_digest s"
    by (auto split: sum.splits)
  show ?thesis
    using s(3) by (intro append_origin_fact_reverted_content_fails [OF s(1,2) _ s(4,5)]) simp
qed

end
