(* ===== verification/Capture.thy ===== *)
theory Capture
  imports Permalink Capability Publishing
begin

text \<open>
  \<^verbatim>\<open>crates/threads-archive/src/capture.rs\<close>: validated capture requests, the idempotent store and the
  recording of unavailability observations. A row keeps the wire text of its enums, as the table
  does; \<open>record_from_row\<close> decodes it.
\<close>

section \<open>Vocabulary\<close>

definition MAX_IDEMPOTENCY_KEY_LEN :: nat where
  "MAX_IDEMPOTENCY_KEY_LEN = 256"

definition MAX_OBSERVATION_FIELD_LEN :: nat where
  "MAX_OBSERVATION_FIELD_LEN = 128"

datatype capture_method =
    ShareExtensionMethod
  | BrowserExtensionMethod
  | TelegramCaptureMethod

datatype client_source =
    IosShareExtension
  | AndroidShareTarget
  | BrowserExtensionClient
  | Telegram

datatype capture_status =
    Accepted
  | Resolved
  | Unavailable
  | Failed

fun method_wire_value :: "capture_method \<Rightarrow> string" where
  "method_wire_value ShareExtensionMethod = ''share_extension''"
| "method_wire_value BrowserExtensionMethod = ''browser_extension''"
| "method_wire_value TelegramCaptureMethod = ''telegram_capture''"

fun client_wire_value :: "client_source \<Rightarrow> string" where
  "client_wire_value IosShareExtension = ''ios_share_extension''"
| "client_wire_value AndroidShareTarget = ''android_share_target''"
| "client_wire_value BrowserExtensionClient = ''browser_extension''"
| "client_wire_value Telegram = ''telegram''"

fun status_wire_value :: "capture_status \<Rightarrow> string" where
  "status_wire_value Accepted = ''accepted''"
| "status_wire_value Resolved = ''resolved''"
| "status_wire_value Unavailable = ''unavailable''"
| "status_wire_value Failed = ''failed''"

definition parse_capture_method :: "string \<Rightarrow> capture_method option" where
  "parse_capture_method value =
    (if value = ''share_extension'' then Some ShareExtensionMethod
     else if value = ''browser_extension'' then Some BrowserExtensionMethod
     else if value = ''telegram_capture'' then Some TelegramCaptureMethod
     else None)"

definition parse_client_source :: "string \<Rightarrow> client_source option" where
  "parse_client_source value =
    (if value = ''ios_share_extension'' then Some IosShareExtension
     else if value = ''android_share_target'' then Some AndroidShareTarget
     else if value = ''browser_extension'' then Some BrowserExtensionClient
     else if value = ''telegram'' then Some Telegram
     else None)"

definition parse_capture_status :: "string \<Rightarrow> capture_status option" where
  "parse_capture_status value =
    (if value = ''accepted'' then Some Accepted
     else if value = ''resolved'' then Some Resolved
     else if value = ''unavailable'' then Some Unavailable
     else if value = ''failed'' then Some Failed
     else None)"

interpretation method_vocabulary: wire_vocabulary method_wire_value parse_capture_method ACQUISITION_METHODS
proof
  show "parse_capture_method (method_wire_value a) = Some a" for a
    by (cases a) (simp_all add: parse_capture_method_def)
  show "parse_capture_method s = Some a \<Longrightarrow> s = method_wire_value a" for s a
    by (auto simp: parse_capture_method_def split: if_splits)
  show "method_wire_value a \<in> set ACQUISITION_METHODS" for a
    by (cases a) (simp_all add: ACQUISITION_METHODS_def)
qed

interpretation client_vocabulary: exact_vocabulary client_wire_value parse_client_source CLIENT_SOURCES
proof
  show "parse_client_source (client_wire_value a) = Some a" for a
    by (cases a) (simp_all add: parse_client_source_def)
  show "parse_client_source s = Some a \<Longrightarrow> s = client_wire_value a" for s a
    by (auto simp: parse_client_source_def split: if_splits)
  show "client_wire_value a \<in> set CLIENT_SOURCES" for a
    by (cases a) (simp_all add: CLIENT_SOURCES_def)
  show "s \<in> set CLIENT_SOURCES \<Longrightarrow> s \<in> range client_wire_value" for s
    by (auto simp: CLIENT_SOURCES_def intro: range_eqI [of _ _ IosShareExtension]
        range_eqI [of _ _ AndroidShareTarget] range_eqI [of _ _ BrowserExtensionClient]
        range_eqI [of _ _ Telegram])
qed

interpretation status_vocabulary: exact_vocabulary status_wire_value parse_capture_status CAPTURE_STATUSES
proof
  show "parse_capture_status (status_wire_value a) = Some a" for a
    by (cases a) (simp_all add: parse_capture_status_def)
  show "parse_capture_status s = Some a \<Longrightarrow> s = status_wire_value a" for s a
    by (auto simp: parse_capture_status_def split: if_splits)
  show "status_wire_value a \<in> set CAPTURE_STATUSES" for a
    by (cases a) (simp_all add: CAPTURE_STATUSES_def)
  show "s \<in> set CAPTURE_STATUSES \<Longrightarrow> s \<in> range status_wire_value" for s
    by (auto simp: CAPTURE_STATUSES_def intro: range_eqI [of _ _ Accepted]
        range_eqI [of _ _ Resolved] range_eqI [of _ _ Unavailable] range_eqI [of _ _ Failed])
qed

section \<open>Requests and observations\<close>

datatype capture_error =
    PairingMismatch capture_method client_source
  | EmptyIdempotencyKey
  | IdempotencyKeyTooLong nat
  | InvalidObservationField string nat
  | CaptureInvalidUrl permalink_error
  | CapturePersistence persistence_error
  | UnknownCapture uuid

definition ensure_paired :: "capture_method \<Rightarrow> client_source \<Rightarrow> capture_error + unit" where
  "ensure_paired acquisition client =
    (let paired = (case acquisition of
         ShareExtensionMethod \<Rightarrow> client = IosShareExtension \<or> client = AndroidShareTarget
       | BrowserExtensionMethod \<Rightarrow> client = BrowserExtensionClient
       | TelegramCaptureMethod \<Rightarrow> client = Telegram)
     in ensure paired (PairingMismatch acquisition client))"

definition ensure_key_bounded :: "string \<Rightarrow> capture_error + unit" where
  "ensure_key_bounded idempotency_key =
    (let len = length idempotency_key in
     if len = 0 then Inl EmptyIdempotencyKey
     else if len > MAX_IDEMPOTENCY_KEY_LEN then Inl (IdempotencyKeyTooLong len)
     else Inr ())"

definition ensure_observation_field_bounded :: "string \<Rightarrow> string \<Rightarrow> capture_error + unit" where
  "ensure_observation_field_bounded field value =
    (let len = length value in
     if len = 0 \<or> len > MAX_OBSERVATION_FIELD_LEN then Inl (InvalidObservationField field len)
     else Inr ())"

record capture_request =
  rq_user_ref :: uuid
  rq_idempotency_key :: string
  rq_url :: canonicalized_url
  rq_note :: "string option"
  rq_acquisition_method :: capture_method
  rq_client_source :: client_source

definition try_new :: "uuid \<Rightarrow> string \<Rightarrow> string \<Rightarrow> string option \<Rightarrow> capture_method \<Rightarrow> client_source
    \<Rightarrow> capture_error + capture_request" where
  "try_new user_ref idempotency_key raw_url note acquisition client =
    bindE (ensure_paired acquisition client) (\<lambda>_.
    bindE (ensure_key_bounded idempotency_key) (\<lambda>_.
    bindE (map_err CaptureInvalidUrl (try_from raw_url)) (\<lambda>url.
    Inr \<lparr>rq_user_ref = user_ref, rq_idempotency_key = idempotency_key, rq_url = url, rq_note = note,
      rq_acquisition_method = acquisition, rq_client_source = client\<rparr>)))"

record capture_record =
  rec_capture_id :: uuid
  rec_user_ref :: uuid
  rec_post_id :: "uuid option"
  rec_idempotency_key :: string
  rec_canonical_url :: permalink
  rec_original_url :: string
  rec_acquisition_method :: capture_method
  rec_saved_authority :: contract_authority
  rec_client_source :: client_source
  rec_status :: capture_status
  rec_note :: "string option"
  rec_captured_at :: instant

definition accepted :: "capture_request \<Rightarrow> uuid \<Rightarrow> instant \<Rightarrow> capture_record" where
  "accepted request capture_id captured_at =
    \<lparr>rec_capture_id = capture_id, rec_user_ref = rq_user_ref request, rec_post_id = None,
     rec_idempotency_key = rq_idempotency_key request,
     rec_canonical_url = canonicalized_url.permalink (rq_url request),
     rec_original_url = original (rq_url request),
     rec_acquisition_method = rq_acquisition_method request,
     rec_saved_authority = ExplicitUserCapture, rec_client_source = rq_client_source request,
     rec_status = Accepted, rec_note = rq_note request, rec_captured_at = captured_at\<rparr>"

datatype unavailability_observation =
    ObservedDeleted string
  | ObservedPrivateOrInaccessible string
  | ResolverFailed string

definition deleted :: "string \<Rightarrow> capture_error + unavailability_observation" where
  "deleted reason_code = bindE (ensure_observation_field_bounded ''reason_code'' reason_code)
    (\<lambda>_. Inr (ObservedDeleted reason_code))"

definition private_or_inaccessible :: "string \<Rightarrow> capture_error + unavailability_observation" where
  "private_or_inaccessible reason_code = bindE (ensure_observation_field_bounded ''reason_code'' reason_code)
    (\<lambda>_. Inr (ObservedPrivateOrInaccessible reason_code))"

definition resolver_failed :: "string \<Rightarrow> capture_error + unavailability_observation" where
  "resolver_failed resolver_version =
    bindE (ensure_observation_field_bounded ''resolver_version'' resolver_version)
      (\<lambda>_. Inr (ResolverFailed resolver_version))"

datatype submit_outcome =
    Created capture_record
  | Replayed capture_record

section \<open>The capture store\<close>

definition query_error :: "sqlx_error \<Rightarrow> capture_error" where
  "query_error e = CapturePersistence (Query e)"

definition vocabulary_error :: "string \<Rightarrow> string \<Rightarrow> capture_error" where
  "vocabulary_error column value = query_error (ColumnDecode column
    (''stored value '' @ [CHR 0x22] @ value @ [CHR 0x22] @ '' violates the closed threads_archive vocabulary''))"

definition replayed_row_vanished :: capture_error where
  "replayed_row_vanished = query_error (Configuration
    ''a replayed capture vanished between the idempotency conflict and its read'')"

definition record_from_row :: "capture_row \<Rightarrow> capture_error + capture_record" where
  "record_from_row row =
    (if cp_saved_authority row \<noteq> authority_wire_value ExplicitUserCapture
     then Inl (vocabulary_error ''captures.saved_authority'' (cp_saved_authority row)) else
     bindE (ok_or (vocabulary_error ''captures.acquisition_method'' (cp_acquisition_method row))
       (parse_capture_method (cp_acquisition_method row))) (\<lambda>acquisition.
     bindE (ok_or (vocabulary_error ''captures.client_source'' (cp_client_source row))
       (parse_client_source (cp_client_source row))) (\<lambda>client.
     bindE (ok_or (vocabulary_error ''captures.status'' (cp_status row))
       (parse_capture_status (cp_status row))) (\<lambda>status.
     bindE (map_err (\<lambda>_. vocabulary_error ''captures.canonical_url'' (cp_canonical_url row))
       (try_from (cp_canonical_url row))) (\<lambda>canonicalized.
     Inr \<lparr>rec_capture_id = cp_capture_id row, rec_user_ref = cp_user_ref row, rec_post_id = cp_post_id row,
       rec_idempotency_key = cp_idempotency_key row,
       rec_canonical_url = canonicalized_url.permalink canonicalized,
       rec_original_url = cp_original_url row, rec_acquisition_method = acquisition,
       rec_saved_authority = ExplicitUserCapture, rec_client_source = client, rec_status = status,
       rec_note = cp_note row, rec_captured_at = cp_captured_at row\<rparr>)))))"

definition submitted_row :: "env \<Rightarrow> capture_request \<Rightarrow> uuid \<Rightarrow> capture_row" where
  "submitted_row E request capture_id =
    \<lparr>cp_capture_id = capture_id, cp_user_ref = rq_user_ref request, cp_post_id = None,
     cp_idempotency_key = rq_idempotency_key request,
     cp_canonical_url = as_str (canonicalized_url.permalink (rq_url request)),
     cp_original_url = original (rq_url request),
     cp_acquisition_method = method_wire_value (rq_acquisition_method request),
     cp_saved_authority = authority_wire_value ExplicitUserCapture,
     cp_client_source = client_wire_value (rq_client_source request),
     cp_status = status_wire_value Accepted, cp_note = rq_note request, cp_captured_at = now E,
     cp_next_resolution_at = None, cp_operation_id = None, cp_command_id = None,
     cp_resolution_attempts = 0, cp_operation_reported_at = None\<rparr>"

text \<open>\<^verbatim>\<open>insert ... on conflict (user_ref, idempotency_key) do nothing returning capture_id\<close>.\<close>

definition submit_insert :: "env \<Rightarrow> capture_request \<Rightarrow> db \<Rightarrow> sqlx_error + uuid option \<times> db" where
  "submit_insert E request d =
    (let (capture_id, d) = now_v7 E d in
     if exists_where (\<lambda>c. cp_user_ref c = rq_user_ref request
          \<and> cp_idempotency_key c = rq_idempotency_key request) (captures d)
     then Inr (None, d)
     else bindE (insert_capture (submitted_row E request capture_id) d) (\<lambda>d. Inr (Some capture_id, d)))"

definition replay_row :: "uuid \<Rightarrow> string \<Rightarrow> db \<Rightarrow> capture_row option" where
  "replay_row user_ref idempotency_key d =
    List.find (\<lambda>c. cp_user_ref c = user_ref \<and> cp_idempotency_key c = idempotency_key) (captures d)"

text \<open>The insert and the replay read are two statements without a transaction around them;
  \<open>between\<close> is what other sessions commit in the meantime.\<close>

definition submit :: "env \<Rightarrow> (db \<Rightarrow> db) \<Rightarrow> capture_request \<Rightarrow> db \<Rightarrow> (capture_error + submit_outcome) \<times> db" where
  "submit E between request d =
    (case submit_insert E request d of
       Inl e \<Rightarrow> (Inl (query_error e), d)
     | Inr (Some capture_id, d) \<Rightarrow> (Inr (Created (accepted request capture_id (now E))), d)
     | Inr (None, d) \<Rightarrow>
         (let d = between d in
          (bindE (ok_or replayed_row_vanished
             (replay_row (rq_user_ref request) (rq_idempotency_key request) d)) (\<lambda>row.
           bindE (record_from_row row) (\<lambda>record. Inr (Replayed record))), d)))"

definition unavailable_tombstone ::
  "env \<Rightarrow> uuid \<Rightarrow> uuid option \<Rightarrow> uuid \<Rightarrow> string \<Rightarrow> string \<Rightarrow> tombstone_row" where
  "unavailable_tombstone E tombstone_id post_id capture_id avail reason_code =
    \<lparr>tb_tombstone_id = tombstone_id, tb_post_id = post_id, tb_capture_id = Some capture_id,
     tb_availability = avail, tb_reason_code = Some reason_code, tb_resolver_version = None,
     tb_observed_at = now E\<rparr>"

definition resolution_entry ::
  "env \<Rightarrow> uuid \<Rightarrow> uuid \<Rightarrow> string \<Rightarrow> string option \<Rightarrow> capture_resolution_row" where
  "resolution_entry E resolution_id capture_id outcome resolver_version =
    \<lparr>rs_resolution_id = resolution_id, rs_capture_id = capture_id, rs_outcome = outcome,
     rs_resolver_version = resolver_version, rs_raw_object_id = None, rs_observed_at = now E\<rparr>"

definition mark_unavailable :: "env \<Rightarrow> uuid \<Rightarrow> string \<Rightarrow> string \<Rightarrow> db \<Rightarrow> capture_error + db" where
  "mark_unavailable E capture_id avail reason_code d =
    bindE (ok_or (query_error RowNotFound)
      (List.find (\<lambda>c. cp_capture_id c = capture_id) (captures d))) (\<lambda>c.
    let post_id = cp_post_id c in
    bindE (map_err query_error (update_captures (\<lambda>c. cp_capture_id c = capture_id)
      (\<lambda>c. c\<lparr>cp_status := ''unavailable''\<rparr>) d)) (\<lambda>d.
    bindE (case post_id of None \<Rightarrow> Inr d | Some p \<Rightarrow> map_err query_error
      (update_posts (\<lambda>q. po_post_id q = p)
        (\<lambda>q. q\<lparr>po_upstream_status := avail, po_updated_at := now E\<rparr>) d)) (\<lambda>d.
    let (tombstone_id, d) = now_v7 E d in
    bindE (map_err query_error (insert_tombstone
      (unavailable_tombstone E tombstone_id post_id capture_id avail reason_code) d)) (\<lambda>d.
    bindE (case post_id of None \<Rightarrow> Inr d | Some _ \<Rightarrow>
      map_err (\<lambda>e. query_error (Protocol (publish_error_text E e))) (append_fact E capture_id d)) (\<lambda>d.
    let (resolution_id, d) = now_v7 E d in
    map_err query_error (insert_capture_resolution
      (resolution_entry E resolution_id capture_id ''unavailable'' None) d))))))"

definition record_resolver_failure :: "env \<Rightarrow> uuid \<Rightarrow> string \<Rightarrow> db \<Rightarrow> capture_error + db" where
  "record_resolver_failure E capture_id resolver_version d =
    (let (resolution_id, d) = now_v7 E d in
     map_err query_error (insert_capture_resolution
       (resolution_entry E resolution_id capture_id ''resolver_failed'' (Some resolver_version)) d))"

definition record_observation :: "env \<Rightarrow> uuid \<Rightarrow> unavailability_observation \<Rightarrow> db \<Rightarrow> capture_error + db" where
  "record_observation E capture_id observation d =
    (if \<not> exists_where (\<lambda>c. cp_capture_id c = capture_id) (captures d)
     then Inl (UnknownCapture capture_id)
     else case observation of
       ObservedDeleted reason_code \<Rightarrow> mark_unavailable E capture_id ''deleted'' reason_code d
     | ObservedPrivateOrInaccessible reason_code \<Rightarrow>
         mark_unavailable E capture_id ''private_or_inaccessible'' reason_code d
     | ResolverFailed resolver_version \<Rightarrow> record_resolver_failure E capture_id resolver_version d)"

section \<open>Intake and replay\<close>

text \<open>A request built by \<open>try_new\<close> carries a URL that \<open>try_from\<close> accepted.\<close>

definition request_valid :: "capture_request \<Rightarrow> bool" where
  "request_valid rq \<longleftrightarrow> try_from (original (rq_url rq)) = Inr (rq_url rq)
    \<and> ensure_paired (rq_acquisition_method rq) (rq_client_source rq) = Inr ()
    \<and> ensure_key_bounded (rq_idempotency_key rq) = Inr ()"

lemma try_from_original: "try_from raw = Inr u \<Longrightarrow> original u = raw"
  using try_from_sound [of raw u] by auto

lemma try_new_valid: "try_new u k raw n m c = Inr rq \<Longrightarrow> request_valid rq"
  by (auto simp: try_new_def request_valid_def) (frule try_from_original, simp)

lemma canonical_url_decodes:
  assumes "request_valid rq"
  shows "\<exists>u'. try_from (as_str (canonicalized_url.permalink (rq_url rq))) = Inr u'
    \<and> canonicalized_url.permalink u' = canonicalized_url.permalink (rq_url rq)"
proof -
  obtain handle code where g: "permalink_grammar (original (rq_url rq)) handle code"
    and e: "rq_url rq = \<lparr>original = original (rq_url rq),
      permalink = Permalink (canonical_text handle code)\<rparr>"
    using try_from_sound [of "original (rq_url rq)" "rq_url rq"] assms
    unfolding request_valid_def by blast
  have u: "canonicalized_url.permalink (rq_url rq) = Permalink (canonical_text handle code)"
    by (subst e) simp
  from g have "permalink_grammar (canonical_text handle code) (to_ascii_lowercase handle) code"
    by (intro canonical_text_in_grammar) (simp_all add: permalink_grammar_def)
  from try_from_complete [OF this] u show ?thesis by (simp add: canonical_text_def)
qed

lemma record_from_submitted_row:
  assumes "request_valid rq"
  shows "record_from_row (submitted_row E rq cid) = Inr (accepted rq cid (now E))"
  using canonical_url_decodes [OF assms]
  by (auto simp: record_from_row_def submitted_row_def accepted_def method_vocabulary.parse_wire
      client_vocabulary.parse_wire parse_capture_status_def)

lemma submit_insert_cases:
  assumes "submit_insert E rq d = Inr (r, d')"
  shows "r = None \<and> d' = d\<lparr>minted := Suc (minted d)\<rparr>
      \<and> (\<exists>c \<in> set (captures d). cp_user_ref c = rq_user_ref rq \<and> cp_idempotency_key c = rq_idempotency_key rq)
    \<or> r = Some (mint E (minted d)) \<and> d' = d\<lparr>minted := Suc (minted d),
        captures := captures d @ [submitted_row E rq (mint E (minted d))]\<rparr>
      \<and> (\<forall>c \<in> set (captures d). \<not> (cp_user_ref c = rq_user_ref rq \<and> cp_idempotency_key c = rq_idempotency_key rq))"
  using assms
  by (auto simp: submit_insert_def now_v7_def insert_capture_def Let_def split: if_splits)

lemma submit_insert_schema [schema_intros]:
  "submit_insert E rq d = Inr (r, d') \<Longrightarrow> schema_ok d \<Longrightarrow> schema_ok d'"
  by (auto simp: submit_insert_def now_v7_def Let_def split: if_splits
      dest!: schema_ok_insert_capture)

lemma replay_row_appended:
  assumes "\<forall>c \<in> set cs. \<not> (cp_user_ref c = u \<and> cp_idempotency_key c = k)"
    and "cp_user_ref row = u" "cp_idempotency_key row = k"
  shows "List.find (\<lambda>c. cp_user_ref c = u \<and> cp_idempotency_key c = k) (cs @ row # rest) = Some row"
proof -
  have "List.find (\<lambda>c. cp_user_ref c = u \<and> cp_idempotency_key c = k) cs = None"
    using assms(1) by (simp add: find_None_conv)
  with assms(2,3) show ?thesis by (simp add: find_append)
qed

text \<open>Claim C9: submission is idempotent per user and key. Once a valid request created a capture,
  every later submission under the same user and key, whatever its other fields, whatever else was
  appended to the table meanwhile, returns that same record as a replay and stores no capture.\<close>

theorem submit_replays_created_record:
  assumes "request_valid rq"
    and "submit E between rq d = (Inr (Created r), d1)"
    and "captures d2 = captures d1 @ later"
    and "rq_user_ref rq' = rq_user_ref rq" and "rq_idempotency_key rq' = rq_idempotency_key rq"
  shows "fst (submit E' id rq' d2) = Inr (Replayed r)
    \<and> captures (snd (submit E' id rq' d2)) = captures d2"
proof -
  obtain cid where ins: "submit_insert E rq d = Inr (Some cid, d1)"
    and r: "r = accepted rq cid (now E)"
    using assms(2) by (auto simp: submit_def Let_def split: sum.splits option.splits prod.splits)
  have d1: "captures d1 = captures d @ [submitted_row E rq cid]"
    and fresh: "\<forall>c \<in> set (captures d). \<not> (cp_user_ref c = rq_user_ref rq
      \<and> cp_idempotency_key c = rq_idempotency_key rq)"
    using submit_insert_cases [OF ins] by auto
  have row: "replay_row (rq_user_ref rq) (rq_idempotency_key rq) (d2\<lparr>minted := n\<rparr>)
      = Some (submitted_row E rq cid)" for n
    unfolding replay_row_def using replay_row_appended [OF fresh, of "submitted_row E rq cid" later] assms(3) d1
    by (simp add: submitted_row_def)
  have "submit_insert E' rq' d2 = Inr (None, d2\<lparr>minted := Suc (minted d2)\<rparr>)"
    using assms(3-5) d1 by (auto simp: submit_insert_def now_v7_def submitted_row_def)
  with row record_from_submitted_row [OF assms(1)] r assms(4,5) show ?thesis
    by (simp add: submit_def)
qed

definition sample_request :: capture_request where
  "sample_request = projr (try_new 9 ''key'' ''https://threads.net/@AB/post/C1'' (Some ''note'')
    TelegramCaptureMethod Telegram)"

theorem submit_replays_created_record_witness:
  "fst (submit (sample_env 20) id (sample_request\<lparr>rq_note := None\<rparr>)
      (snd (submit (sample_env 10) id sample_request empty_db)))
    = Inr (Replayed (accepted sample_request 100 10))"
proof -
  have "request_valid sample_request" by code_simp
  moreover have "submit (sample_env 10) id sample_request empty_db
      = (Inr (Created (accepted sample_request 100 10)), snd (submit (sample_env 10) id sample_request empty_db))"
    by code_simp
  moreover have "captures (snd (submit (sample_env 10) id sample_request empty_db))
      = captures (snd (submit (sample_env 10) id sample_request empty_db)) @ []" by simp
  ultimately show ?thesis
    using submit_replays_created_record [of sample_request "sample_env 10" id empty_db
        "accepted sample_request 100 10" "snd (submit (sample_env 10) id sample_request empty_db)"
        "snd (submit (sample_env 10) id sample_request empty_db)" "[]"
        "sample_request\<lparr>rq_note := None\<rparr>" "sample_env 20"]
    by simp
qed

section \<open>Observations\<close>

definition marked :: "uuid \<Rightarrow> capture_row list \<Rightarrow> capture_row list" where
  "marked cid cs = update_where (\<lambda>c. cp_capture_id c = cid) (\<lambda>c. c\<lparr>cp_status := ''unavailable''\<rparr>) cs"

text \<open>The intermediate states of \<^verbatim>\<open>mark_unavailable\<close>, one per statement.\<close>

lemma mark_unavailable_steps:
  assumes "mark_unavailable E cid avail reason d = Inr d'"
  obtains c d1 d2 d3 d4 where
    "List.find (\<lambda>c. cp_capture_id c = cid) (captures d) = Some c"
    "update_captures (\<lambda>c. cp_capture_id c = cid) (\<lambda>c. c\<lparr>cp_status := ''unavailable''\<rparr>) d = Inr d1"
    "case cp_post_id c of None \<Rightarrow> d2 = d1 | Some p \<Rightarrow> update_posts (\<lambda>q. po_post_id q = p)
      (\<lambda>q. q\<lparr>po_upstream_status := avail, po_updated_at := now E\<rparr>) d1 = Inr d2"
    "insert_tombstone (unavailable_tombstone E (mint E (minted d2)) (cp_post_id c) cid avail reason)
      (d2\<lparr>minted := Suc (minted d2)\<rparr>) = Inr d3"
    "case cp_post_id c of None \<Rightarrow> d4 = d3 | Some p \<Rightarrow> append_fact E cid d3 = Inr d4"
    "insert_capture_resolution (resolution_entry E (mint E (minted d4)) cid ''unavailable'' None)
      (d4\<lparr>minted := Suc (minted d4)\<rparr>) = Inr d'"
proof -
  obtain c d1 where c: "List.find (\<lambda>c. cp_capture_id c = cid) (captures d) = Some c"
    "update_captures (\<lambda>c. cp_capture_id c = cid) (\<lambda>c. c\<lparr>cp_status := ''unavailable''\<rparr>) d = Inr d1"
    using assms by (auto simp: mark_unavailable_def Let_def)
  show thesis
  proof (cases "cp_post_id c")
    case None
    with assms c that [of c d1 d1] show ?thesis
      by (auto simp: mark_unavailable_def Let_def now_v7_def)
  next
    case (Some p)
    with assms c that [of c d1] show ?thesis
      by (auto simp: mark_unavailable_def Let_def now_v7_def)
  qed
qed

lemma mark_unavailable_effect:
  assumes "mark_unavailable E cid avail reason d = Inr d'"
  shows "captures d' = marked cid (captures d)
    \<and> (\<exists>c t r. c \<in> set (captures d) \<and> cp_capture_id c = cid
      \<and> tombstones d' = tombstones d @ [t] \<and> tb_capture_id t = Some cid \<and> tb_availability t = avail
      \<and> tb_post_id t = cp_post_id c \<and> tb_reason_code t = Some reason
      \<and> capture_resolutions d' = capture_resolutions d @ [r] \<and> rs_capture_id r = cid
      \<and> rs_outcome r = ''unavailable'')
    \<and> inbox d' = inbox d \<and> raw_objects d' = raw_objects d \<and> post_relations d' = post_relations d"
  using assms
proof (rule mark_unavailable_steps)
  fix c d1 d2 d3 d4
  assume s: "List.find (\<lambda>c. cp_capture_id c = cid) (captures d) = Some c"
    "update_captures (\<lambda>c. cp_capture_id c = cid) (\<lambda>c. c\<lparr>cp_status := ''unavailable''\<rparr>) d = Inr d1"
    "case cp_post_id c of None \<Rightarrow> d2 = d1 | Some p \<Rightarrow> update_posts (\<lambda>q. po_post_id q = p)
      (\<lambda>q. q\<lparr>po_upstream_status := avail, po_updated_at := now E\<rparr>) d1 = Inr d2"
    "insert_tombstone (unavailable_tombstone E (mint E (minted d2)) (cp_post_id c) cid avail reason)
      (d2\<lparr>minted := Suc (minted d2)\<rparr>) = Inr d3"
    "case cp_post_id c of None \<Rightarrow> d4 = d3 | Some p \<Rightarrow> append_fact E cid d3 = Inr d4"
    "insert_capture_resolution (resolution_entry E (mint E (minted d4)) cid ''unavailable'' None)
      (d4\<lparr>minted := Suc (minted d4)\<rparr>) = Inr d'"
  have d1: "d1 = d\<lparr>captures := marked cid (captures d)\<rparr>"
    using s(2) by (simp add: update_captures_def marked_def split: if_splits)
  have d2: "captures d2 = captures d1 \<and> tombstones d2 = tombstones d1
      \<and> capture_resolutions d2 = capture_resolutions d1 \<and> inbox d2 = inbox d1
      \<and> raw_objects d2 = raw_objects d1 \<and> post_relations d2 = post_relations d1"
    using s(3) by (auto simp: update_posts_def split: option.splits if_splits)
  have d3: "d3 = d2\<lparr>minted := Suc (minted d2), tombstones := tombstones d2
      @ [unavailable_tombstone E (mint E (minted d2)) (cp_post_id c) cid avail reason]\<rparr>"
    using s(4) by (simp add: insert_tombstone_def split: if_splits)
  have d4: "d4 = d3 \<or> published_from d3 d4"
    using s(5) by (auto split: option.splits intro: append_fact_frame)
  have d5: "d' = d4\<lparr>minted := Suc (minted d4), capture_resolutions := capture_resolutions d4
      @ [resolution_entry E (mint E (minted d4)) cid ''unavailable'' None]\<rparr>"
    using s(6) by (simp add: insert_capture_resolution_def split: if_splits)
  have "captures d4 = captures d3 \<and> tombstones d4 = tombstones d3
      \<and> capture_resolutions d4 = capture_resolutions d3 \<and> inbox d4 = inbox d3
      \<and> raw_objects d4 = raw_objects d3 \<and> post_relations d4 = post_relations d3"
    using d4 by auto
  with d1 d2 d3 d5 find_SomeD [OF s(1)] show ?thesis
    by (auto simp: unavailable_tombstone_def resolution_entry_def)
qed

lemma mark_unavailable_schema [schema_intros]:
  assumes "mark_unavailable E cid avail reason d = Inr d'" and "schema_ok d"
  shows "schema_ok d'"
  using assms(1)
proof (rule mark_unavailable_steps)
  fix c d1 d2 d3 d4
  assume s: "update_captures (\<lambda>c. cp_capture_id c = cid) (\<lambda>c. c\<lparr>cp_status := ''unavailable''\<rparr>) d = Inr d1"
    "case cp_post_id c of None \<Rightarrow> d2 = d1 | Some p \<Rightarrow> update_posts (\<lambda>q. po_post_id q = p)
      (\<lambda>q. q\<lparr>po_upstream_status := avail, po_updated_at := now E\<rparr>) d1 = Inr d2"
    "insert_tombstone (unavailable_tombstone E (mint E (minted d2)) (cp_post_id c) cid avail reason)
      (d2\<lparr>minted := Suc (minted d2)\<rparr>) = Inr d3"
    "case cp_post_id c of None \<Rightarrow> d4 = d3 | Some p \<Rightarrow> append_fact E cid d3 = Inr d4"
    "insert_capture_resolution (resolution_entry E (mint E (minted d4)) cid ''unavailable'' None)
      (d4\<lparr>minted := Suc (minted d4)\<rparr>) = Inr d'"
  have "schema_ok d1" by (rule schema_ok_update_captures [OF s(1) assms(2)]) simp_all
  then have "schema_ok d2"
    using s(2) by (cases "cp_post_id c") (auto intro: schema_ok_update_posts)
  then have "schema_ok d3" using schema_ok_insert_tombstone [OF s(3)] by simp
  then have "schema_ok d4" using s(4) by (auto split: option.splits intro: append_fact_schema)
  then show "schema_ok d'" using schema_ok_insert_capture_resolution [OF s(5)] by simp
qed

lemma record_resolver_failure_effect:
  assumes "record_resolver_failure E cid v d = Inr d'"
  shows "\<exists>r. d' = d\<lparr>minted := Suc (minted d), capture_resolutions := capture_resolutions d @ [r]\<rparr>
    \<and> rs_capture_id r = cid \<and> rs_outcome r = ''resolver_failed'' \<and> rs_resolver_version r = Some v"
  using assms
  by (auto simp: record_resolver_failure_def now_v7_def insert_capture_resolution_def
      resolution_entry_def split: if_splits)

lemma record_observation_schema [schema_intros]:
  "record_observation E cid obs d = Inr d' \<Longrightarrow> schema_ok d \<Longrightarrow> schema_ok d'"
  by (auto simp: record_observation_def record_resolver_failure_def now_v7_def
      split: if_splits unavailability_observation.splits
      intro: mark_unavailable_schema dest!: schema_ok_insert_capture_resolution)

text \<open>What an observation may write about the capture and its evidence.\<close>

fun observation_effect :: "uuid \<Rightarrow> unavailability_observation \<Rightarrow> db \<Rightarrow> db \<Rightarrow> bool" where
  "observation_effect cid (ObservedDeleted reason) d d' \<longleftrightarrow> captures d' = marked cid (captures d) \<and>
    (\<exists>t. tombstones d' = tombstones d @ [t] \<and> tb_capture_id t = Some cid \<and> tb_availability t = ''deleted''
      \<and> tb_reason_code t = Some reason)"
| "observation_effect cid (ObservedPrivateOrInaccessible reason) d d' \<longleftrightarrow>
    captures d' = marked cid (captures d) \<and>
    (\<exists>t. tombstones d' = tombstones d @ [t] \<and> tb_capture_id t = Some cid
      \<and> tb_availability t = ''private_or_inaccessible'' \<and> tb_reason_code t = Some reason)"
| "observation_effect cid (ResolverFailed v) d d' \<longleftrightarrow> captures d' = captures d \<and> tombstones d' = tombstones d
    \<and> posts d' = posts d \<and> outbox d' = outbox d \<and> source_revisions d' = source_revisions d"

lemma marked_keeps:
  "map (\<lambda>c. (cp_note c, cp_captured_at c, cp_original_url c, cp_canonical_url c)) (marked cid cs)
    = map (\<lambda>c. (cp_note c, cp_captured_at c, cp_original_url c, cp_canonical_url c)) cs"
  "map (\<lambda>c. (cp_capture_id c, cp_post_id c, cp_operation_id c, cp_operation_reported_at c)) (marked cid cs)
    = map (\<lambda>c. (cp_capture_id c, cp_post_id c, cp_operation_id c, cp_operation_reported_at c)) cs"
  by (auto simp: marked_def update_where_def)



text \<open>Identifiers that \<^verbatim>\<open>Uuid::now_v7\<close> has not handed out yet are in no key column.\<close>

definition fresh_ids :: "env \<Rightarrow> db \<Rightarrow> bool" where
  "fresh_ids E d \<longleftrightarrow> inj (mint E) \<and> (\<forall>n \<ge> minted d. mint E n \<notin> tb_tombstone_id ` set (tombstones d)
    \<and> mint E n \<notin> rs_resolution_id ` set (capture_resolutions d)
    \<and> mint E n \<notin> ob_event_id ` set (outbox d) \<and> mint E n \<notin> cp_capture_id ` set (captures d))"

text \<open>Claim C22: recording an observation about an unresolved capture never fails: with a stored capture
  that has no post and fresh identifiers, every observation is committed.\<close>

theorem record_observation_total:
  assumes "schema_ok d" and "fresh_ids E d"
    and "c \<in> set (captures d)" and "cp_capture_id c = cid" and "cp_post_id c = None"
  shows "\<exists>d'. record_observation E cid obs d = Inr d'"
proof -
  have c: "List.find (\<lambda>c. cp_capture_id c = cid) (captures d) = Some c"
    using assms table_ok_find [of cp_capture_id _ "captures d" c] by (auto simp: schema_defs)
  have cid: "cid \<in> capture_ids (captures d)" using assms(3,4) by (auto simp: capture_ids_def)
  have chk: "capture_check r \<Longrightarrow> capture_check (r\<lparr>cp_status := ''unavailable''\<rparr>)" for r
    by (simp add: capture_check_def CAPTURE_STATUSES_def)
  have all: "list_all (\<lambda>r. cp_capture_id r = cid \<longrightarrow> capture_check (r\<lparr>cp_status := ''unavailable''\<rparr>)) (captures d)"
    "list_all (\<lambda>r. cp_capture_id r = cid \<longrightarrow> opt_in (cp_post_id r) (post_ids (posts d))) (captures d)"
    using assms(1) chk by (auto simp: schema_defs table_ok_def list_all_iff)
  have ids: "\<forall>s \<in> set (tombstones d). tb_tombstone_id s \<noteq> mint E (minted d)"
    "\<forall>s \<in> set (capture_resolutions d). rs_resolution_id s \<noteq> mint E (Suc (minted d))"
    "\<forall>s \<in> set (capture_resolutions d). rs_resolution_id s \<noteq> mint E (minted d)"
    using assms(2) unfolding fresh_ids_def by (metis image_eqI le_refl le_SucI)+
  have ids2: "capture_ids (update_where (\<lambda>c. cp_capture_id c = cid) (\<lambda>c. c\<lparr>cp_status := ''unavailable''\<rparr>)
      (captures d)) = capture_ids (captures d)" by simp
  have mark: "\<exists>d'. mark_unavailable E cid avail reason d = Inr d'" if "avail \<in> set UPSTREAM_STATUSES"
    for avail reason
    using c assms(5) all ids ids2 cid that
    by (simp add: mark_unavailable_def update_captures_def now_v7_def insert_tombstone_def
        insert_capture_resolution_def unavailable_tombstone_def resolution_entry_def
        tombstone_check_def RESOLUTION_OUTCOMES_def)
  have fail: "\<exists>d'. record_resolver_failure E cid v d = Inr d'" for v
    using ids cid by (simp add: record_resolver_failure_def now_v7_def insert_capture_resolution_def
        resolution_entry_def RESOLUTION_OUTCOMES_def)
  show ?thesis
    using assms(3,4) mark fail
    by (cases obs) (auto simp: record_observation_def UPSTREAM_STATUSES_def)
qed

theorem record_observation_total_witness:
  "\<exists>d'. record_observation (sample_env 10) 4 (ResolverFailed ''v1'')
    (empty_db\<lparr>captures := [sample_capture\<lparr>cp_post_id := None\<rparr>]\<rparr>) = Inr d'"
proof -
  have "schema_ok (empty_db\<lparr>captures := [sample_capture\<lparr>cp_post_id := None\<rparr>]\<rparr>)"
    by (simp add: schema_defs empty_db_def sample_capture_def capture_check_def ACQUISITION_METHODS_def
        SAVED_AUTHORITIES_def CLIENT_SOURCES_def CAPTURE_STATUSES_def table_ok_def unique_on_def)
  moreover have "fresh_ids (sample_env 10) (empty_db\<lparr>captures := [sample_capture\<lparr>cp_post_id := None\<rparr>]\<rparr>)"
    by (simp add: fresh_ids_def empty_db_def sample_env_def sample_capture_def inj_def)
  ultimately show ?thesis
    by (rule record_observation_total [where c = "sample_capture\<lparr>cp_post_id := None\<rparr>"])
      (simp_all add: empty_db_def sample_capture_def)
qed

end
