(* ===== verification/RelationGraph.thy ===== *)
theory RelationGraph
  imports Database
begin

text \<open>
  \<^verbatim>\<open>crates/threads-archive/src/relation.rs\<close> and the graph part of \<^verbatim>\<open>public_resolution.rs\<close>: the grammar of
  relation kinds, and the normalization of reply, quote and repost edges with its cycle check.
  \<^verbatim>\<open>BTreeSet\<close> is \<open>'a set\<close>; \<^verbatim>\<open>BTreeMap\<close> is an association list with ascending keys.
\<close>

section \<open>Relation kinds\<close>

definition RELATION_MAX_LEN :: nat where
  "RELATION_MAX_LEN = 32"

datatype relation_kind = RelationKind (kind_str: string)

datatype relation_kind_error =
    EmptyKind
  | LeadingCharacter string
  | IllegalCharacter string
  | KindTooLong nat

text \<open>\<^verbatim>\<open>str::chars\<close>: each scalar as the text of its bytes.\<close>

function chars :: "string \<Rightarrow> string list" where
  "chars [] = []"
| "chars (c # s) = (c # takeWhile is_continuation s) # chars (dropWhile is_continuation s)"
  by pat_completeness auto

termination chars
  by (relation "measure length") (auto simp: le_imp_less_Suc length_dropWhile_le)

definition is_ascii_lowercase :: "string \<Rightarrow> bool" where
  "is_ascii_lowercase c \<longleftrightarrow> length c = 1 \<and> is_lower (hd c)"

definition is_ascii_digit :: "string \<Rightarrow> bool" where
  "is_ascii_digit c \<longleftrightarrow> length c = 1 \<and> is_digit (hd c)"

definition validate :: "string \<Rightarrow> relation_kind_error + unit" where
  "validate token = (case chars token of
      [] \<Rightarrow> Inl EmptyKind
    | first # rest \<Rightarrow>
        if \<not> is_ascii_lowercase first then Inl (LeadingCharacter first) else
        (case List.find (\<lambda>c. \<not> (is_ascii_lowercase c \<or> is_ascii_digit c \<or> c = ''_'')) rest of
           Some illegal \<Rightarrow> Inl (IllegalCharacter illegal)
         | None \<Rightarrow> if length (chars token) > RELATION_MAX_LEN
             then Inl (KindTooLong (length (chars token))) else Inr ()))"

definition relation_kind_try_from :: "string \<Rightarrow> relation_kind_error + relation_kind" where
  "relation_kind_try_from value = bindE (validate value) (\<lambda>_. Inr (RelationKind value))"

section \<open>Reply cycles\<close>

type_synonym 'a graph = "('a \<times> 'a list) list"

definition targets :: "'a graph \<Rightarrow> 'a \<Rightarrow> 'a list" where
  "targets R a = (case map_of R a of None \<Rightarrow> [] | Some ts \<Rightarrow> ts)"

definition edges :: "'a graph \<Rightarrow> ('a \<times> 'a) set" where
  "edges R = {(a, b). b \<in> set (targets R a)}"

definition nodes :: "'a graph \<Rightarrow> 'a set" where
  "nodes R = fst ` set R \<union> \<Union> (set ` snd ` set R)"

lemma finite_nodes [simp]: "finite (nodes R)"
  by (simp add: nodes_def)

lemma targets_mem: "b \<in> set (targets R a) \<Longrightarrow> a \<in> nodes R \<and> b \<in> nodes R"
proof -
  assume "b \<in> set (targets R a)"
  then obtain ts where "map_of R a = Some ts" and b: "b \<in> set ts"
    by (cases "map_of R a") (auto simp: targets_def)
  then have "(a, ts) \<in> set R" by (auto dest: map_of_SomeD)
  with b show "a \<in> nodes R \<and> b \<in> nodes R" by (force simp: nodes_def)
qed

text \<open>The depth-first search with its two mutable sets threaded through: \<open>visiting\<close> holds the current
  path, \<open>complete\<close> the nodes known to lead to no cycle.\<close>

function visits_cycle :: "'a graph \<Rightarrow> 'a \<Rightarrow> 'a set \<Rightarrow> 'a set \<Rightarrow> bool \<times> 'a set \<times> 'a set"
  and visit_targets :: "'a graph \<Rightarrow> 'a list \<Rightarrow> 'a set \<Rightarrow> 'a set \<Rightarrow> bool \<times> 'a set \<times> 'a set" where
  "visits_cycle R current visiting complete =
    (if current \<in> visiting then (True, visiting, complete) else
     case visit_targets R (targets R current) (insert current visiting) complete of
       (True, v, k) \<Rightarrow> (True, v, k)
     | (False, v, k) \<Rightarrow> (False, v - {current}, insert current k))"
| "visit_targets R [] visiting complete = (False, visiting, complete)"
| "visit_targets R (t # ts) visiting complete =
    (if t \<in> complete then visit_targets R ts visiting complete else
     case visits_cycle R t visiting complete of
       (True, v, k) \<Rightarrow> (True, v, k)
     | (False, v, k) \<Rightarrow> visit_targets R ts v k)"
  by pat_completeness auto

text \<open>A search that found no cycle leaves the path as it was; this makes the nested recursion
  terminate.\<close>

lemma visiting_restored_partial:
  "visits_cycle_visit_targets_dom (Inl (R, c, vis, k)) \<Longrightarrow>
    visits_cycle R c vis k = (False, v', k') \<Longrightarrow> v' = vis"
  "visits_cycle_visit_targets_dom (Inr (R, ts, vis, k)) \<Longrightarrow>
    visit_targets R ts vis k = (False, v', k') \<Longrightarrow> v' = vis"
proof (induction R c vis k and R ts vis k arbitrary: v' k' and v' k'
    rule: visits_cycle_visit_targets.pinduct)
  case (1 R c vis k)
  note step = visits_cycle.psimps [OF 1(1)]
  obtain f v kk where r: "visit_targets R (targets R c) (insert c vis) k = (f, v, kk)"
    by (cases "visit_targets R (targets R c) (insert c vis) k") auto
  from 1(3) have nc: "c \<notin> vis" and nf: "\<not> f" and v': "v' = v - {c}"
    using r by (auto simp: step split: if_splits bool.splits)
  from 1(2) [OF nc] r nf have "v = insert c vis" by simp
  with v' nc show ?case by auto
next
  case (2 R vis k)
  then show ?case by (simp add: visit_targets.psimps)
next
  case (3 R t ts vis k)
  note step = visit_targets.psimps(2) [OF 3(1)]
  obtain f v kk where r: "visits_cycle R t vis k = (f, v, kk)"
    by (cases "visits_cycle R t vis k") auto
  show ?case
  proof (cases "t \<in> k")
    case True
    with 3(5) have "visit_targets R ts vis k = (False, v', k')" by (simp add: step)
    with 3(2) [OF True] show ?thesis by simp
  next
    case False
    with 3(5) r have nf: "\<not> f" and rest: "visit_targets R ts v kk = (False, v', k')"
      by (auto simp: step split: if_splits bool.splits)
    from 3(3) [OF False] r nf have "v = vis" by simp
    moreover have "v' = v" using 3(4) [OF False r [symmetric] _ refl] nf rest by simp
    ultimately show ?thesis by simp
  qed
qed

termination visits_cycle
proof (relation "inv_image (less_than <*lex*> less_than) (\<lambda>x. case x of
      Inl (R, c, vis, k) \<Rightarrow> (card (nodes R - vis), 1)
    | Inr (R, ts, vis, k) \<Rightarrow> (card (nodes R - vis), 2 * length ts))", goal_cases)
  case 1
  show ?case by (intro wf_inv_image wf_lex_prod wf_less_than)
next
  case (2 R c vis k)
  show ?case
  proof (cases "c \<in> nodes R")
    case True
    with 2 have "nodes R - insert c vis \<subset> nodes R - vis" by auto
    then show ?thesis by (simp add: psubset_card_mono)
  next
    case False
    then have "targets R c = []" using targets_mem by (metis list.set_intros(1) neq_Nil_conv)
    moreover have "nodes R - insert c vis = nodes R - vis" using False by auto
    ultimately show ?thesis by simp
  qed
next
  case (3 R t ts vis k)
  then show ?case by simp
next
  case (4 R t ts vis k)
  then show ?case by simp
next
  case (5 R t ts vis k x y v k')
  then have "visits_cycle R t vis k = (False, v, k')" by simp
  with 5 have "v = vis" by (auto dest: visiting_restored_partial(1))
  then show ?case by simp
qed

declare visits_cycle.simps [simp del] visit_targets.simps [simp del]

text \<open>\<open>safe R k\<close>: the nodes of \<open>k\<close> only lead to nodes of \<open>k\<close>, and among them there is no cycle.\<close>

definition safe :: "'a graph \<Rightarrow> 'a set \<Rightarrow> bool" where
  "safe R k \<longleftrightarrow> (\<forall>a \<in> k. set (targets R a) \<subseteq> k) \<and> acyclic (edges R \<inter> k \<times> k)"

lemma safe_insert:
  assumes "safe R k" and "set (targets R c) \<subseteq> k" and "c \<notin> k"
  shows "safe R (insert c k)"
proof -
  have eq: "edges R \<inter> insert c k \<times> insert c k = (edges R \<inter> k \<times> k) \<union> {c} \<times> set (targets R c)"
    using assms by (auto simp: safe_def edges_def)
  have closed: "\<forall>(a, b) \<in> edges R \<inter> k \<times> k. a \<in> k \<and> b \<in> k" by auto
  have "acyclic ((edges R \<inter> k \<times> k) \<union> {c} \<times> set (targets R c))"
    unfolding acyclic_def
  proof (intro allI notI)
    fix x
    assume cyc: "(x, x) \<in> ((edges R \<inter> k \<times> k) \<union> {c} \<times> set (targets R c))\<^sup>+"
    let ?E = "(edges R \<inter> k \<times> k) \<union> {c} \<times> set (targets R c)"
    have into: "b \<in> k" if "(a, b) \<in> ?E\<^sup>+" for a b
      using that assms(2) by (induction rule: trancl_induct) auto
    have stay: "(a, b) \<in> (edges R \<inter> k \<times> k)\<^sup>+" if "(a, b) \<in> ?E\<^sup>+" "a \<in> k" for a b
      using that
    proof (induction rule: trancl_induct)
      case (base y)
      with assms(3) show ?case by auto
    next
      case (step y z)
      then have "y \<noteq> c" using into [of a y] assms(3) by auto
      with step show ?case by (auto intro: trancl_into_trancl)
    qed
    from stay [OF cyc into [OF cyc]] assms(1) show False
      by (auto simp: safe_def acyclic_def)
  qed
  with eq assms show ?thesis by (auto simp: safe_def)
qed

lemma visit_correct:
  "\<lbrakk>visits_cycle R c vis k = (found, v', k'); safe R k; vis \<inter> k = {}; c \<notin> k;
    \<forall>v \<in> vis. (v, c) \<in> (edges R)\<^sup>+\<rbrakk> \<Longrightarrow>
    if found then \<not> acyclic (edges R)
    else v' = vis \<and> k \<subseteq> k' \<and> c \<in> k' \<and> vis \<inter> k' = {} \<and> safe R k'"
  "\<lbrakk>visit_targets R ts vis k = (found, v', k'); safe R k; vis \<inter> k = {};
    \<forall>v \<in> vis. \<forall>t \<in> set ts. (v, t) \<in> (edges R)\<^sup>+\<rbrakk> \<Longrightarrow>
    if found then \<not> acyclic (edges R)
    else v' = vis \<and> k \<subseteq> k' \<and> set ts \<subseteq> k' \<and> vis \<inter> k' = {} \<and> safe R k'"
proof (induction R c vis k and R ts vis k arbitrary: found v' k' and found v' k'
    rule: visits_cycle_visit_targets.induct)
  case (1 R c vis k)
  show ?case
  proof (cases "c \<in> vis")
    case True
    then have "found" using 1(2) by (simp add: visits_cycle.simps)
    moreover have "(c, c) \<in> (edges R)\<^sup>+" using True 1(6) by blast
    ultimately show ?thesis by (auto simp: acyclic_def)
  next
    case False
    obtain f v kk where r: "visit_targets R (targets R c) (insert c vis) k = (f, v, kk)"
      by (cases "visit_targets R (targets R c) (insert c vis) k") auto
    have "\<forall>v \<in> insert c vis. \<forall>t \<in> set (targets R c). (v, t) \<in> (edges R)\<^sup>+"
      using 1(6) by (auto simp: edges_def intro: trancl_into_trancl)
    moreover have "insert c vis \<inter> k = {}" using 1(4,5) by auto
    ultimately have ih: "if f then \<not> acyclic (edges R)
        else v = insert c vis \<and> k \<subseteq> kk \<and> set (targets R c) \<subseteq> kk \<and> insert c vis \<inter> kk = {} \<and> safe R kk"
      using 1(1) [OF False r 1(3)] by blast
    show ?thesis
    proof (cases f)
      case True
      with r 1(2) False have "found" by (simp add: visits_cycle.simps)
      with ih True show ?thesis by simp
    next
      case no: False
      with r 1(2) False have "\<not> found" "v' = v - {c}" "k' = insert c kk"
        by (simp_all add: visits_cycle.simps)
      with ih no False safe_insert [of R kk c] show ?thesis by auto
    qed
  qed
next
  case (2 R vis k)
  then show ?case by (auto simp: visit_targets.simps)
next
  case (3 R t ts vis k)
  show ?case
  proof (cases "t \<in> k")
    case True
    with 3(4) have "visit_targets R ts vis k = (found, v', k')" by (simp add: visit_targets.simps)
    from 3(1) [OF True this 3(5,6)] 3(7) True show ?thesis by (auto split: if_splits)
  next
    case False
    obtain f v kk where r: "visits_cycle R t vis k = (f, v, kk)"
      by (cases "visits_cycle R t vis k") auto
    have ih: "if f then \<not> acyclic (edges R)
        else v = vis \<and> k \<subseteq> kk \<and> t \<in> kk \<and> vis \<inter> kk = {} \<and> safe R kk"
      using 3(2) [OF False r 3(5,6) False] 3(7) by simp
    show ?thesis
    proof (cases f)
      case True
      with r 3(4) False have "found" by (simp add: visit_targets.simps)
      with ih True show ?thesis by simp
    next
      case no: False
      with r False 3(4) have rest: "visit_targets R ts v kk = (found, v', k')"
        by (simp add: visit_targets.simps)
      have "if found then \<not> acyclic (edges R)
          else v' = v \<and> kk \<subseteq> k' \<and> set ts \<subseteq> k' \<and> v \<inter> k' = {} \<and> safe R k'"
        using 3(3) [OF False r [symmetric] _ refl rest] ih no 3(7) by simp
      with ih no show ?thesis by (auto split: if_splits)
    qed
  qed
qed

fun scan_sources :: "'a graph \<Rightarrow> 'a list \<Rightarrow> 'a set \<Rightarrow> bool" where
  "scan_sources R [] complete = False"
| "scan_sources R (source # sources) complete =
    (if source \<in> complete then scan_sources R sources complete else
     case visits_cycle R source {} complete of
       (True, _, _) \<Rightarrow> True
     | (False, _, k) \<Rightarrow> scan_sources R sources k)"

definition has_reply_cycle :: "'a graph \<Rightarrow> bool" where
  "has_reply_cycle replies = scan_sources replies (map fst replies) {}"

lemma scan_sources_correct:
  assumes "safe R k" and "\<forall>a. targets R a \<noteq> [] \<longrightarrow> a \<in> k \<union> set ss"
  shows "scan_sources R ss k \<longleftrightarrow> \<not> acyclic (edges R)"
  using assms
proof (induction ss arbitrary: k)
  case Nil
  have "a \<in> k \<and> b \<in> k" if "(a, b) \<in> edges R" for a b
  proof -
    have b: "b \<in> set (targets R a)" using that by (simp add: edges_def)
    then have "a \<in> k" using Nil(2) by force
    with b Nil(1) show ?thesis by (auto simp: safe_def)
  qed
  then have "edges R \<inter> k \<times> k = edges R" by auto
  with Nil show ?case by (simp add: safe_def)
next
  case (Cons s ss)
  show ?case
  proof (cases "s \<in> k")
    case True
    with Cons show ?thesis by auto
  next
    case False
    obtain f v kk where r: "visits_cycle R s {} k = (f, v, kk)"
      by (cases "visits_cycle R s {} k") auto
    have post: "if f then \<not> acyclic (edges R) else v = {} \<and> k \<subseteq> kk \<and> s \<in> kk \<and> {} \<inter> kk = {} \<and> safe R kk"
      using visit_correct(1) [OF r Cons(2)] False by simp
    show ?thesis
    proof (cases f)
      case True
      with r False post show ?thesis by simp
    next
      case no: False
      with post have "safe R kk" "\<forall>a. targets R a \<noteq> [] \<longrightarrow> a \<in> kk \<union> set ss"
        using Cons(3) by auto
      from Cons.IH [OF this] r False no show ?thesis by simp
    qed
  qed
qed

lemma has_reply_cycle_iff: "has_reply_cycle R \<longleftrightarrow> \<not> acyclic (edges R)"
  unfolding has_reply_cycle_def
proof (rule scan_sources_correct)
  show "safe R {}" by (simp add: safe_def acyclic_def)
  show "\<forall>a. targets R a \<noteq> [] \<longrightarrow> a \<in> {} \<union> set (map fst R)"
    by (auto simp: targets_def split: option.splits dest: map_of_SomeD)
      (metis image_eqI fst_conv map_of_SomeD)
qed

section \<open>Normalization of observed relations\<close>

record relation_input =
  rin_referencing_provider_post_id :: string
  rin_relation_kind :: string
  rin_target_provider_post_id :: string
  rin_target_permalink :: "string option"

datatype graph_target =
    ResolvedTarget
  | UnresolvedTarget "string option"

record graph_relation =
  gr_referencing_provider_post_id :: string
  gr_relation_kind :: relation_kind
  gr_target_provider_post_id :: string
  gr_target :: graph_target

datatype relation_graph_error =
    InvalidKind relation_kind_error
  | ReplyCycle

text \<open>\<^verbatim>\<open>map.entry(a).or_default().push(b)\<close> on a \<^verbatim>\<open>BTreeMap\<close>.\<close>

fun btree_push :: "'a :: linorder \<Rightarrow> 'a \<Rightarrow> 'a graph \<Rightarrow> 'a graph" where
  "btree_push a b [] = [(a, [b])]"
| "btree_push a b ((c, bs) # R) =
    (if a < c then (a, [b]) # (c, bs) # R
     else if a = c then (c, bs @ [b]) # R
     else (c, bs) # btree_push a b R)"

definition normalize_one :: "string set \<Rightarrow> relation_kind \<Rightarrow> relation_input \<Rightarrow> graph_relation" where
  "normalize_one known kind r =
    \<lparr>gr_referencing_provider_post_id = rin_referencing_provider_post_id r, gr_relation_kind = kind,
     gr_target_provider_post_id = rin_target_provider_post_id r,
     gr_target = (if rin_target_provider_post_id r \<in> known then ResolvedTarget
       else UnresolvedTarget (rin_target_permalink r))\<rparr>"

definition normalize_step ::
  "string set \<Rightarrow> graph_relation list \<times> string graph \<Rightarrow> relation_input
    \<Rightarrow> relation_graph_error + graph_relation list \<times> string graph" where
  "normalize_step known = (\<lambda>(normalized, replies) r.
    bindE (map_err InvalidKind (relation_kind_try_from (rin_relation_kind r))) (\<lambda>kind.
    let replies = (if kind_str kind = ''reply'' \<and> rin_target_provider_post_id r \<in> known
          then btree_push (rin_referencing_provider_post_id r) (rin_target_provider_post_id r) replies
          else replies)
    in Inr (normalized @ [normalize_one known kind r], replies)))"

definition graph_order :: "graph_relation \<Rightarrow> string \<times> string \<times> string" where
  "graph_order g = (gr_referencing_provider_post_id g, kind_str (gr_relation_kind g),
    gr_target_provider_post_id g)"

definition normalize_relations ::
  "string set \<Rightarrow> relation_input list \<Rightarrow> relation_graph_error + graph_relation list" where
  "normalize_relations known relations =
    bindE (foldE (normalize_step known) ([], []) relations) (\<lambda>(normalized, replies).
    if has_reply_cycle replies then Inl ReplyCycle
    else Inr (sort_key graph_order normalized))"

section \<open>Correctness of the kind grammar\<close>

definition kind_byte :: "char \<Rightarrow> bool" where
  "kind_byte b \<longleftrightarrow> is_lower b \<or> is_digit b \<or> b = CHR ''_''"

definition kind_char :: "string \<Rightarrow> bool" where
  "kind_char c \<longleftrightarrow> is_ascii_lowercase c \<or> is_ascii_digit c \<or> c = ''_''"

lemma kind_byte_not_continuation: "kind_byte b \<Longrightarrow> \<not> is_continuation b"
  by (auto simp: kind_byte_def is_continuation_def is_lower_def is_digit_def less_eq_char_def)

lemma kind_char_iff: "kind_char c \<longleftrightarrow> (\<exists>b. c = [b] \<and> kind_byte b)"
  by (cases c) (auto simp: kind_char_def kind_byte_def is_ascii_lowercase_def is_ascii_digit_def)

lemma concat_chars: "concat (chars s) = s"
  by (induction s rule: chars.induct) auto

lemma chars_plain: "\<forall>b \<in> set s. \<not> is_continuation b \<Longrightarrow> chars s = map (\<lambda>b. [b]) s"
proof (induction s)
  case (Cons b s)
  then have "takeWhile is_continuation s = []" "dropWhile is_continuation s = s"
    by (cases s; simp)+
  with Cons show ?case by simp
qed simp

lemma kind_chars_iff:
  "(\<forall>c \<in> set (chars s). kind_char c) \<longleftrightarrow> (\<forall>b \<in> set s. kind_byte b)"
proof
  assume all: "\<forall>c \<in> set (chars s). kind_char c"
  have "\<forall>b \<in> set (concat (chars s)). kind_byte b"
    using all by (auto simp: kind_char_iff)
  then show "\<forall>b \<in> set s. kind_byte b" by (simp only: concat_chars)
next
  assume "\<forall>b \<in> set s. kind_byte b"
  then show "\<forall>c \<in> set (chars s). kind_char c"
    by (auto simp: chars_plain kind_byte_not_continuation kind_char_iff)
qed

lemma validate_ok_iff:
  "validate token = Inr () \<longleftrightarrow> (\<exists>first rest. chars token = first # rest \<and> is_ascii_lowercase first
    \<and> (\<forall>c \<in> set rest. kind_char c) \<and> length (chars token) \<le> RELATION_MAX_LEN)"
  by (auto simp: validate_def kind_char_def find_None_conv find_Some_iff
      split: list.splits option.splits if_splits)

text \<open>Claim C19: the relation-kind validation of the code accepts exactly the tokens that the check
  constraint of \<^verbatim>\<open>post_relations.relation_kind\<close> accepts, so a validated kind is never refused by the
  database and a stored kind is always valid.\<close>

theorem validate_matches_schema_check:
  "validate token = Inr () \<longleftrightarrow> matches_token_pattern RELATION_KIND_PATTERN_MAX token"
proof (cases token)
  case Nil
  then show ?thesis by (simp add: validate_def matches_token_pattern_def)
next
  case (Cons b s)
  have all: "is_ascii_lowercase (b # takeWhile is_continuation s) \<and>
      (\<forall>c \<in> set (chars (dropWhile is_continuation s)). kind_char c) \<longleftrightarrow>
      is_lower b \<and> (\<forall>x \<in> set s. kind_byte x)"
  proof
    assume l: "is_ascii_lowercase (b # takeWhile is_continuation s) \<and>
      (\<forall>c \<in> set (chars (dropWhile is_continuation s)). kind_char c)"
    then have t: "takeWhile is_continuation s = []" "is_lower b"
      by (auto simp: is_ascii_lowercase_def)
    then have "dropWhile is_continuation s = s" by (metis self_append_conv2 takeWhile_dropWhile_id)
    with l t show "is_lower b \<and> (\<forall>x \<in> set s. kind_byte x)" by (simp add: kind_chars_iff)
  next
    assume r: "is_lower b \<and> (\<forall>x \<in> set s. kind_byte x)"
    then have "takeWhile is_continuation s = []" "dropWhile is_continuation s = s"
      by (cases s; simp add: kind_byte_not_continuation)+
    with r show "is_ascii_lowercase (b # takeWhile is_continuation s) \<and>
      (\<forall>c \<in> set (chars (dropWhile is_continuation s)). kind_char c)"
      by (simp add: kind_chars_iff is_ascii_lowercase_def)
  qed
  have len: "length (chars token) = length token" if "is_lower b" "\<forall>x \<in> set s. kind_byte x"
  proof -
    have "\<forall>x \<in> set token. \<not> is_continuation x"
      using that Cons kind_byte_not_continuation by (auto simp: kind_byte_def)
    then show ?thesis by (simp add: chars_plain)
  qed
  show ?thesis
    using all len Cons
    by (auto simp: validate_ok_iff matches_token_pattern_def kind_byte_def RELATION_MAX_LEN_def
        RELATION_KIND_PATTERN_MAX_def list_all_iff)
qed

section \<open>Correctness of the normalization\<close>

definition reply_edges :: "string set \<Rightarrow> relation_input list \<Rightarrow> (string \<times> string) set" where
  "reply_edges known rels = {(rin_referencing_provider_post_id r, rin_target_provider_post_id r) | r.
    r \<in> set rels \<and> rin_relation_kind r = ''reply'' \<and> rin_target_provider_post_id r \<in> known}"

definition ascending :: "('a :: linorder) graph \<Rightarrow> bool" where
  "ascending R \<longleftrightarrow> sorted_wrt (<) (map fst R)"

lemma map_of_below: "\<forall>c \<in> set (map fst R). (a :: 'a :: linorder) < c \<Longrightarrow> map_of R a = None"
  by (induction R) auto

lemma btree_push_keys: "fst ` set (btree_push a b R) = insert a (fst ` set R)"
  by (induction a b R rule: btree_push.induct) auto

lemma btree_push_ascending: "ascending R \<Longrightarrow> ascending (btree_push a b R)"
proof (induction a b R rule: btree_push.induct)
  case (2 a b c bs R)
  have "\<forall>x \<in> fst ` set R. c < x" "ascending R" using 2(2) by (auto simp: ascending_def)
  with 2 show ?case
    by (auto simp: ascending_def btree_push_keys)
qed (simp add: ascending_def)

lemma btree_push_lookup:
  "ascending R \<Longrightarrow> map_of (btree_push a b R) x =
    (if x = a then Some (targets R a @ [b]) else map_of R x)"
proof (induction a b R rule: btree_push.induct)
  case (2 a b c bs R)
  then have "a < c \<Longrightarrow> map_of R a = None"
    by (intro map_of_below) (force simp: ascending_def)
  with 2 show ?case by (auto simp: targets_def ascending_def)
qed (auto simp: targets_def)

lemma btree_push_edges: "ascending R \<Longrightarrow> edges (btree_push a b R) = insert (a, b) (edges R)"
  by (auto simp: edges_def targets_def btree_push_lookup split: if_splits option.splits)

lemma kind_try_from_iff: "relation_kind_try_from s = Inr kind \<longleftrightarrow> validate s = Inr () \<and> kind = RelationKind s"
  by (auto simp: relation_kind_try_from_def)

lemma normalize_fold:
  assumes "ascending replies"
  shows "foldE (normalize_step known) (acc, replies) rels = Inr (out, replies') \<longleftrightarrow>
    (\<forall>r \<in> set rels. validate (rin_relation_kind r) = Inr ())
    \<and> out = acc @ map (\<lambda>r. normalize_one known (RelationKind (rin_relation_kind r)) r) rels
    \<and> replies' = fold (\<lambda>r R. if rin_relation_kind r = ''reply'' \<and> rin_target_provider_post_id r \<in> known
        then btree_push (rin_referencing_provider_post_id r) (rin_target_provider_post_id r) R else R) rels replies"
  by (induction rels arbitrary: acc replies)
    (auto simp: normalize_step_def Let_def kind_try_from_iff split: if_splits)

lemma fold_replies_edges:
  "ascending R \<Longrightarrow>
    edges (fold (\<lambda>r R. if rin_relation_kind r = ''reply'' \<and> rin_target_provider_post_id r \<in> known
        then btree_push (rin_referencing_provider_post_id r) (rin_target_provider_post_id r) R else R) rels R)
      = edges R \<union> reply_edges known rels"
proof (induction rels arbitrary: R)
  case Nil
  then show ?case by (simp add: reply_edges_def)
next
  case (Cons r rels)
  have "reply_edges known (r # rels) = reply_edges known rels \<union>
    (if rin_relation_kind r = ''reply'' \<and> rin_target_provider_post_id r \<in> known
     then {(rin_referencing_provider_post_id r, rin_target_provider_post_id r)} else {})"
    by (auto simp: reply_edges_def)
  with Cons show ?case by (auto simp: btree_push_ascending btree_push_edges)
qed

lemma normalize_relations_iff:
  "normalize_relations known rels = Inr out \<longleftrightarrow>
    list_all (\<lambda>r. validate (rin_relation_kind r) = Inr ()) rels \<and> acyclic (reply_edges known rels)
    \<and> out = sort_key graph_order
        (map (\<lambda>r. normalize_one known (RelationKind (rin_relation_kind r)) r) rels)"
proof -
  have asc: "ascending []" by (simp add: ascending_def)
  have e0: "edges [] = {}" by (simp add: edges_def targets_def)
  show ?thesis
    using fold_replies_edges [OF asc, of known rels] e0
    by (auto simp: normalize_relations_def normalize_fold [OF asc] has_reply_cycle_iff list_all_iff)
qed

lemma normalize_relations_cyclic:
  assumes "list_all (\<lambda>r. validate (rin_relation_kind r) = Inr ()) rels" "\<not> acyclic (reply_edges known rels)"
  shows "normalize_relations known rels = Inl ReplyCycle"
proof -
  have asc: "ascending []" by (simp add: ascending_def)
  obtain out replies where f: "foldE (normalize_step known) ([], []) rels = Inr (out, replies)"
    using normalize_fold [OF asc, of known "[]" rels] assms(1) by (auto simp: list_all_iff)
  then have "edges replies = reply_edges known rels"
    using fold_replies_edges [OF asc, of known rels] normalize_fold [OF asc, of known "[]" rels out replies]
    by (auto simp: edges_def targets_def)
  with f assms(2) show ?thesis by (simp add: normalize_relations_def has_reply_cycle_iff)
qed

text \<open>Claim C4: the depth-first search reports a reply cycle exactly when the reply edges contain one;
  it terminates on every graph, however the edges are listed.\<close>

theorem has_reply_cycle_exact: "has_reply_cycle R \<longleftrightarrow> \<not> acyclic (edges R)"
  by (rule has_reply_cycle_iff)

text \<open>Claim C20: normalization succeeds exactly when every kind is valid and the reply edges towards
  known posts are acyclic; it then returns one edge per input, each target marked resolved exactly
  when it is known, ordered by source, kind and target.\<close>

theorem normalize_relations_exact:
  "normalize_relations known rels = Inr out \<longleftrightarrow>
    list_all (\<lambda>r. validate (rin_relation_kind r) = Inr ()) rels \<and> acyclic (reply_edges known rels)
    \<and> out = sort_key graph_order
        (map (\<lambda>r. normalize_one known (RelationKind (rin_relation_kind r)) r) rels)"
  by (rule normalize_relations_iff)

end
