(* ===== verification/RawStore.thy ===== *)
theory RawStore
  imports Database RelationGraph
begin

text \<open>
  \<^verbatim>\<open>public_resolution/raw_object_store.rs\<close> and \<^verbatim>\<open>raw_object_delete.rs\<close>: the content-addressed directory
  of raw evidence. The directory is a \<open>disk\<close>: the files under \<^verbatim>\<open>sha256/\<close> and \<^verbatim>\<open>tmp/\<close>, and a script of
  faults, one entry per system call, that says which calls fail. A write that fails may have written
  a prefix, which is also the state a crash in the middle of that write leaves. Nothing is rolled
  back, so every operation returns the disk next to its result.
\<close>

section \<open>Errors\<close>

datatype io_error_kind = AlreadyExists | NotFound | OtherIo

datatype io_error = IoError (io_kind: io_error_kind) string

datatype public_resolution_error =
    InvalidJson
  | MissingField string
  | WrongPostProvider
  | PermalinkMismatch
  | UnsupportedEndpoint
  | Network
  | ProviderStatus int
  | UnexpectedContentType
  | ResponseTooLarge
  | RelationSourceMismatch
  | TooManyRelations
  | RelationGraphRefused relation_graph_error
  | RawStorage io_error
  | RawDigestMismatch
  | ResolutionPersistence persistence_error

section \<open>The disk\<close>

datatype raw_path = Sha256Path string | TmpPath string

datatype io_fault = NoFault | Fault nat io_error

record disk =
  files :: "raw_path \<rightharpoonup> bytes"
  faults :: "io_fault list"

type_synonym 'a io = "disk \<Rightarrow> (public_resolution_error + 'a) \<times> disk"

definition returnIO :: "'a \<Rightarrow> 'a io" where
  "returnIO x D = (Inr x, D)"

definition failIO :: "public_resolution_error \<Rightarrow> 'a io" where
  "failIO e D = (Inl e, D)"

definition bindIO :: "'a io \<Rightarrow> ('a \<Rightarrow> 'b io) \<Rightarrow> 'b io" where
  "bindIO m f D = (case m D of (Inl e, D') \<Rightarrow> (Inl e, D') | (Inr x, D') \<Rightarrow> f x D')"

text \<open>One system call under the fault script; \<open>partial n\<close> is what a failed call leaves behind.\<close>

definition syscall ::
  "(nat \<Rightarrow> disk \<Rightarrow> disk) \<Rightarrow> (disk \<Rightarrow> (io_error + 'a) \<times> disk) \<Rightarrow> disk \<Rightarrow> (io_error + 'a) \<times> disk" where
  "syscall partial f D = (case faults D of
      [] \<Rightarrow> f D
    | NoFault # rest \<Rightarrow> f (D\<lparr>faults := rest\<rparr>)
    | Fault n e # rest \<Rightarrow> (Inl e, partial n (D\<lparr>faults := rest\<rparr>)))"

definition keep :: "nat \<Rightarrow> disk \<Rightarrow> disk" where
  "keep n D = D"

definition fs_try_exists :: "raw_path \<Rightarrow> disk \<Rightarrow> (io_error + bool) \<times> disk" where
  "fs_try_exists p = syscall keep (\<lambda>D. (Inr (files D p \<noteq> None), D))"

definition fs_read :: "raw_path \<Rightarrow> disk \<Rightarrow> (io_error + bytes) \<times> disk" where
  "fs_read p = syscall keep (\<lambda>D. case files D p of
      None \<Rightarrow> (Inl (IoError NotFound ''no such file''), D) | Some bs \<Rightarrow> (Inr bs, D))"

definition fs_create_dir_all :: "disk \<Rightarrow> (io_error + unit) \<times> disk" where
  "fs_create_dir_all = syscall keep (\<lambda>D. (Inr (), D))"

definition fs_create_new :: "raw_path \<Rightarrow> disk \<Rightarrow> (io_error + unit) \<times> disk" where
  "fs_create_new p = syscall keep (\<lambda>D. if files D p \<noteq> None
      then (Inl (IoError AlreadyExists ''file exists''), D)
      else (Inr (), D\<lparr>files := (files D)(p \<mapsto> [])\<rparr>))"

definition append_to :: "raw_path \<Rightarrow> bytes \<Rightarrow> disk \<Rightarrow> disk" where
  "append_to p bs D = D\<lparr>files := (files D)(p \<mapsto> (case files D p of None \<Rightarrow> [] | Some old \<Rightarrow> old) @ bs)\<rparr>"

definition fs_write_all :: "raw_path \<Rightarrow> bytes \<Rightarrow> disk \<Rightarrow> (io_error + unit) \<times> disk" where
  "fs_write_all p bs = syscall (\<lambda>n. append_to p (take n bs)) (\<lambda>D. (Inr (), append_to p bs D))"

definition fs_sync_all :: "disk \<Rightarrow> (io_error + unit) \<times> disk" where
  "fs_sync_all = syscall keep (\<lambda>D. (Inr (), D))"

definition fs_remove_file :: "raw_path \<Rightarrow> disk \<Rightarrow> (io_error + unit) \<times> disk" where
  "fs_remove_file p = syscall keep (\<lambda>D. if files D p = None
      then (Inl (IoError NotFound ''no such file''), D)
      else (Inr (), D\<lparr>files := (files D)(p := None)\<rparr>))"

definition fs_hard_link :: "raw_path \<Rightarrow> raw_path \<Rightarrow> disk \<Rightarrow> (io_error + unit) \<times> disk" where
  "fs_hard_link original link = syscall keep (\<lambda>D.
    if files D link \<noteq> None then (Inl (IoError AlreadyExists ''file exists''), D)
    else case files D original of
      None \<Rightarrow> (Inl (IoError NotFound ''no such file''), D)
    | Some bs \<Rightarrow> (Inr (), D\<lparr>files := (files D)(link \<mapsto> bs)\<rparr>))"

text \<open>\<^verbatim>\<open>.map_err(PublicResolutionError::RawStorage)\<close>.\<close>

definition raw_io :: "(disk \<Rightarrow> (io_error + 'a) \<times> disk) \<Rightarrow> 'a io" where
  "raw_io m D = (case m D of (Inl e, D') \<Rightarrow> (Inl (RawStorage e), D') | (Inr x, D') \<Rightarrow> (Inr x, D'))"

section \<open>The store\<close>

record stored_raw =
  sw_blob_ref :: string
  sw_content_hash :: bytes
  sw_byte_size :: int
  sw_media_type :: string

definition blob_ref_of :: "string \<Rightarrow> string" where
  "blob_ref_of digest = ''threads-archive/raw/sha256/'' @ digest"

definition configuration_error :: "string \<Rightarrow> public_resolution_error" where
  "configuration_error message = ResolutionPersistence (Query (Configuration message))"

definition I64_MAX :: int where
  "I64_MAX = 2 ^ 63 - 1"

definition verify_raw_object :: "env \<Rightarrow> raw_path \<Rightarrow> bytes \<Rightarrow> unit io" where
  "verify_raw_object E path expected_hash =
    bindIO (raw_io (fs_read path)) (\<lambda>existing.
    if sha256 E existing = expected_hash then returnIO () else failIO RawDigestMismatch)"

definition create_once :: "env \<Rightarrow> raw_path \<Rightarrow> bytes \<Rightarrow> bytes \<Rightarrow> unit io" where
  "create_once E path bs content_hash =
    bindIO (raw_io fs_create_dir_all) (\<lambda>_ D.
    case fs_create_new path D of
      (Inr _, D) \<Rightarrow> bindIO (raw_io (fs_write_all path bs)) (\<lambda>_. raw_io fs_sync_all) D
    | (Inl e, D) \<Rightarrow> if io_kind e = AlreadyExists then verify_raw_object E path content_hash D
        else failIO (RawStorage e) D)"

definition store :: "env \<Rightarrow> bytes \<Rightarrow> stored_raw io" where
  "store E bs =
    (let content_hash = sha256 E bs; digest = hex content_hash; path = Sha256Path digest in
     if int (length bs) > I64_MAX then failIO (configuration_error ''raw response size exceeds bigint'') else
     bindIO (raw_io (fs_try_exists path)) (\<lambda>present.
     bindIO (if present then verify_raw_object E path content_hash
        else create_once E path bs content_hash) (\<lambda>_.
     returnIO \<lparr>sw_blob_ref = blob_ref_of digest, sw_content_hash = content_hash,
       sw_byte_size = int (length bs), sw_media_type = ''application/json''\<rparr>)))"

definition READ_BUFFER :: nat where
  "READ_BUFFER = 16384"

text \<open>\<open>reads\<close> is what successive calls of \<^verbatim>\<open>reader.read\<close> return; the empty chunk is the end of input.\<close>

fun copy_and_hash ::
  "env \<Rightarrow> raw_path \<Rightarrow> nat \<Rightarrow> (io_error + bytes) list \<Rightarrow> bytes \<Rightarrow> nat \<Rightarrow> (bytes \<times> int) io" where
  "copy_and_hash E output max_bytes [] hashed byte_size =
    (if int byte_size > I64_MAX then failIO (configuration_error ''raw response size exceeds bigint'')
     else returnIO (sha256 E hashed, int byte_size))"
| "copy_and_hash E output max_bytes (Inl e # reads) hashed byte_size = failIO (RawStorage e)"
| "copy_and_hash E output max_bytes (Inr chunk # reads) hashed byte_size =
    (if chunk = [] then
      (if int byte_size > I64_MAX then failIO (configuration_error ''raw response size exceeds bigint'')
       else returnIO (sha256 E hashed, int byte_size))
     else let byte_size = byte_size + length chunk in
      if int byte_size \<ge> 2 ^ 64 then failIO (configuration_error ''raw response size exceeds bigint'')
      else if byte_size > max_bytes \<or> int byte_size > I64_MAX
        then failIO (configuration_error ''raw response exceeds configured limit'')
      else if length chunk > READ_BUFFER then failIO (configuration_error ''stream read exceeds buffer'')
      else bindIO (raw_io (fs_write_all output chunk)) (\<lambda>_.
        copy_and_hash E output max_bytes reads (hashed @ chunk) byte_size))"

definition create_temporary :: "raw_path \<Rightarrow> unit io" where
  "create_temporary path = bindIO (raw_io fs_create_dir_all) (\<lambda>_. raw_io (fs_create_new path))"

definition promote_temporary :: "env \<Rightarrow> raw_path \<Rightarrow> raw_path \<Rightarrow> bytes \<Rightarrow> unit io" where
  "promote_temporary E temporary path content_hash =
    bindIO (raw_io fs_create_dir_all) (\<lambda>_ D.
    case fs_hard_link temporary path D of
      (Inr _, D) \<Rightarrow> raw_io (fs_remove_file temporary) D
    | (Inl e, D) \<Rightarrow> if io_kind e = AlreadyExists then
          bindIO (raw_io (fs_remove_file temporary)) (\<lambda>_. verify_raw_object E path content_hash) D
        else failIO (RawStorage e) D)"

text \<open>A failed copy removes its temporary file.\<close>

definition copy_or_discard ::
  "env \<Rightarrow> raw_path \<Rightarrow> nat \<Rightarrow> (io_error + bytes) list \<Rightarrow> (bytes \<times> int) io" where
  "copy_or_discard E temporary max_bytes reads D =
    (case copy_and_hash E temporary max_bytes reads [] 0 D of
       (Inr copied, D) \<Rightarrow> (Inr copied, D)
     | (Inl e, D) \<Rightarrow> bindIO (raw_io (fs_remove_file temporary)) (\<lambda>_. failIO e) D)"

text \<open>\<open>name\<close> is the identifier drawn for the temporary file.\<close>

definition store_stream ::
  "env \<Rightarrow> string \<Rightarrow> (io_error + bytes) list \<Rightarrow> nat \<Rightarrow> string \<Rightarrow> stored_raw io" where
  "store_stream E name reads max_bytes media_type =
    (let temporary = TmpPath name in
     bindIO (create_temporary temporary) (\<lambda>_.
     bindIO (copy_or_discard E temporary max_bytes reads) (\<lambda>(content_hash, byte_size).
     bindIO (raw_io fs_sync_all) (\<lambda>_.
     let digest = hex content_hash in
     bindIO (promote_temporary E temporary (Sha256Path digest) content_hash) (\<lambda>_.
     returnIO \<lparr>sw_blob_ref = blob_ref_of digest, sw_content_hash = content_hash,
       sw_byte_size = byte_size, sw_media_type = media_type\<rparr>)))))"

definition read_verified :: "env \<Rightarrow> string \<Rightarrow> bytes \<Rightarrow> bytes io" where
  "read_verified E blob_ref content_hash =
    (let digest = hex content_hash in
     if blob_ref \<noteq> blob_ref_of digest then failIO RawDigestMismatch else
     bindIO (raw_io (fs_read (Sha256Path digest))) (\<lambda>bs.
     if sha256 E bs = content_hash then returnIO bs else failIO RawDigestMismatch))"

definition delete_if_matches :: "env \<Rightarrow> string \<Rightarrow> bytes \<Rightarrow> unit io" where
  "delete_if_matches E blob_ref content_hash =
    (let digest = hex content_hash; path = Sha256Path digest in
     if blob_ref \<noteq> blob_ref_of digest then failIO RawDigestMismatch else
     bindIO (raw_io (fs_try_exists path)) (\<lambda>present.
     if \<not> present then returnIO () else
     bindIO (verify_raw_object E path content_hash) (\<lambda>_.
     bindIO (raw_io (fs_remove_file path)) (\<lambda>_.
     bindIO (raw_io (fs_try_exists path)) (\<lambda>present.
     if present then failIO (RawStorage (IoError OtherIo ''deleted raw object remains present''))
     else returnIO ())))))"

section \<open>Lemmas\<close>

definition framed :: "(disk \<Rightarrow> disk \<Rightarrow> bool) \<Rightarrow> 'a io \<Rightarrow> bool" where
  "framed R m \<longleftrightarrow> (\<forall>D. R D (snd (m D)))"

lemma framedD: "framed R m \<Longrightarrow> m D = (r, D') \<Longrightarrow> R D D'"
  by (auto simp: framed_def dest: spec [of _ D])

text \<open>The relation between the disk before and after every operation, whatever the fault script: a
  preorder that ignores the script is kept by a sequence when each of its steps keeps it.\<close>

locale io_frame =
  fixes R :: "disk \<Rightarrow> disk \<Rightarrow> bool"
  assumes files_only: "files D' = files D \<Longrightarrow> R D D'"
    and trans: "R D D' \<Longrightarrow> R D' D'' \<Longrightarrow> R D D''"
begin

lemma return: "framed R (returnIO x)"
  by (simp add: framed_def returnIO_def files_only)

lemma fail: "framed R (failIO e)"
  by (simp add: framed_def failIO_def files_only)

lemma bind: "framed R m \<Longrightarrow> (\<And>x. framed R (f x)) \<Longrightarrow> framed R (bindIO m f)"
  by (auto simp: framed_def bindIO_def split: sum.splits prod.splits) (metis snd_conv trans)+

lemma silent: "(\<And>D. files (snd (m D)) = files D) \<Longrightarrow> framed R (raw_io m)"
  by (auto simp: framed_def raw_io_def split: sum.splits prod.splits) (metis files_only snd_conv)+

end

text \<open>Objects are neither added, changed nor removed.\<close>

definition same_objects :: "disk \<Rightarrow> disk \<Rightarrow> bool" where
  "same_objects D D' \<longleftrightarrow> (\<forall>digest. files D' (Sha256Path digest) = files D (Sha256Path digest))"

text \<open>Every object that is present keeps its bytes.\<close>

definition immutable :: "disk \<Rightarrow> disk \<Rightarrow> bool" where
  "immutable D D' \<longleftrightarrow> (\<forall>digest bs. files D (Sha256Path digest) = Some bs
    \<longrightarrow> files D' (Sha256Path digest) = Some bs)"

text \<open>Every object is filed under the digest of its bytes.\<close>

definition intact :: "env \<Rightarrow> disk \<Rightarrow> bool" where
  "intact E D \<longleftrightarrow> (\<forall>digest bs. files D (Sha256Path digest) = Some bs \<longrightarrow> digest = hex (sha256 E bs))"

definition keeps_intact :: "env \<Rightarrow> disk \<Rightarrow> disk \<Rightarrow> bool" where
  "keeps_intact E D D' \<longleftrightarrow> (intact E D \<longrightarrow> intact E D')"

interpretation same: io_frame same_objects
  by unfold_locales (simp_all add: same_objects_def)

interpretation imm: io_frame immutable
  by unfold_locales (simp add: immutable_def, unfold immutable_def, blast)

interpretation kept: io_frame "keeps_intact E" for E
  by unfold_locales (simp add: keeps_intact_def intact_def, unfold keeps_intact_def, blast)

lemma same_objects_immutable: "same_objects D D' \<Longrightarrow> immutable D D'"
  by (simp add: same_objects_def immutable_def)

lemma same_objects_intact: "same_objects D D' \<Longrightarrow> keeps_intact E D D'"
  by (simp add: same_objects_def keeps_intact_def intact_def)

lemma framed_mono: "framed R m \<Longrightarrow> (\<And>D D'. R D D' \<Longrightarrow> S D D') \<Longrightarrow> framed S m"
  by (simp add: framed_def)

lemmas fault_splits = list.splits io_fault.splits option.splits if_splits

lemma silent_calls [simp]:
  "files (snd (fs_try_exists p D)) = files D"
  "files (snd (fs_read p D)) = files D"
  "files (snd (fs_create_dir_all D)) = files D"
  "files (snd (fs_sync_all D)) = files D"
  by (simp_all add: fs_try_exists_def fs_read_def fs_create_dir_all_def fs_sync_all_def syscall_def
      keep_def split: fault_splits)

lemma silentD:
  "fs_try_exists p D = (r, D') \<Longrightarrow> files D' = files D"
  "fs_read p D = (r2, D') \<Longrightarrow> files D' = files D"
  "fs_create_dir_all D = (r3, D') \<Longrightarrow> files D' = files D"
  "fs_sync_all D = (r4, D') \<Longrightarrow> files D' = files D"
  by (metis silent_calls snd_conv)+

lemma fs_try_exists_Inr: "fs_try_exists p D = (Inr b, D') \<Longrightarrow> b \<longleftrightarrow> files D p \<noteq> None"
  by (auto simp: fs_try_exists_def syscall_def split: fault_splits)

lemma fs_read_Inr: "fs_read p D = (Inr bs, D') \<Longrightarrow> files D p = Some bs"
  by (auto simp: fs_read_def syscall_def split: fault_splits)

lemma fs_create_new_cases:
  "fs_create_new p D = (r, D') \<Longrightarrow>
    (\<exists>e. r = Inl e \<and> files D' = files D) \<or> r = Inr () \<and> files D p = None \<and> files D' = (files D)(p \<mapsto> [])"
  by (auto simp: fs_create_new_def syscall_def keep_def split: fault_splits)

lemma fs_write_all_cases:
  assumes "fs_write_all p bs D = (r, D')" "files D p = Some old"
  shows "(\<exists>e n. r = Inl e \<and> files D' = (files D)(p \<mapsto> old @ take n bs))
    \<or> r = Inr () \<and> files D' = (files D)(p \<mapsto> old @ bs)"
  using assms by (auto simp: fs_write_all_def syscall_def append_to_def split: fault_splits)

lemma fs_write_all_elsewhere:
  "fs_write_all p bs D = (r, D') \<Longrightarrow> q \<noteq> p \<Longrightarrow> files D' q = files D q"
  by (auto simp: fs_write_all_def syscall_def append_to_def split: fault_splits)

lemma fs_remove_file_cases:
  "fs_remove_file p D = (r, D') \<Longrightarrow>
    (\<exists>e. r = Inl e \<and> files D' = files D) \<or> r = Inr () \<and> files D' = (files D)(p := None)"
  by (auto simp: fs_remove_file_def syscall_def keep_def split: fault_splits)

lemma fs_hard_link_cases:
  "fs_hard_link p q D = (r, D') \<Longrightarrow>
    (\<exists>e. r = Inl e \<and> files D' = files D)
    \<or> r = Inr () \<and> files D q = None \<and> files D p \<noteq> None \<and> files D' = (files D)(q := files D p)"
  by (auto simp: fs_hard_link_def syscall_def keep_def split: fault_splits)

lemma raw_io_eq:
  "raw_io m D = (Inr x, D') \<longleftrightarrow> m D = (Inr x, D')"
  "raw_io m D = (Inl e, D') \<longleftrightarrow> (\<exists>e'. m D = (Inl e', D') \<and> e = RawStorage e')"
  by (auto simp: raw_io_def split: sum.splits prod.splits)

lemma bindIO_eq:
  "bindIO m f D = (Inr y, D') \<longleftrightarrow> (\<exists>x D1. m D = (Inr x, D1) \<and> f x D1 = (Inr y, D'))"
  "bindIO m f D = (Inl e, D') \<longleftrightarrow> m D = (Inl e, D') \<or> (\<exists>x D1. m D = (Inr x, D1) \<and> f x D1 = (Inl e, D'))"
  by (auto simp: bindIO_def split: sum.splits prod.splits)

lemma returnIO_eq [simp]: "returnIO x D = (r, D') \<longleftrightarrow> r = Inr x \<and> D' = D"
  by (auto simp: returnIO_def)

lemma failIO_eq [simp]: "failIO e D = (r, D') \<longleftrightarrow> r = Inl e \<and> D' = D"
  by (auto simp: failIO_def)

lemma tmp_calls:
  "framed same_objects (raw_io (fs_create_new (TmpPath n)))"
  "framed same_objects (raw_io (fs_write_all (TmpPath n) bs))"
  "framed same_objects (raw_io (fs_remove_file (TmpPath n)))"
    apply (auto simp: framed_def raw_io_def same_objects_def split: sum.splits prod.splits
      dest!: fs_create_new_cases fs_remove_file_cases) [1]
   apply (auto simp: framed_def raw_io_def same_objects_def split: sum.splits prod.splits
      dest: fs_write_all_elsewhere) [1]
  apply (auto simp: framed_def raw_io_def same_objects_def split: sum.splits prod.splits
      dest!: fs_create_new_cases fs_remove_file_cases) [1]
  done

lemma verify_same: "framed same_objects (verify_raw_object E p h)"
  unfolding verify_raw_object_def
  by (rule same.bind [OF same.silent]) (simp_all add: same.return same.fail)

lemma create_temporary_same: "framed same_objects (create_temporary (TmpPath n))"
  unfolding create_temporary_def by (rule same.bind [OF same.silent]) (simp_all add: tmp_calls)

lemma copy_same: "framed same_objects (copy_and_hash E (TmpPath n) max_bytes reads hashed copied_size)"
proof (induction reads arbitrary: hashed copied_size)
  case (Cons r reads)
  then show ?case by (cases r) (simp_all add: Let_def tmp_calls same.bind same.return same.fail)
qed (simp add: same.return same.fail)


text \<open>The temporary file holds exactly the hashed bytes when the copy succeeds.\<close>

lemma copy_and_hash_content:
  assumes "copy_and_hash E p max_bytes reads hashed copied_size D = (Inr (h, n), D')"
    and "files D p = Some hashed" and "copied_size = length hashed"
  shows "\<exists>bs. files D' p = Some bs \<and> h = sha256 E bs \<and> n = int (length bs)"
  using assms
proof (induction reads arbitrary: hashed copied_size D)
  case (Cons r reads)
  show ?case
  proof (cases r)
    case (Inr chunk)
    show ?thesis
    proof (cases "chunk = []")
      case False
      with Cons.prems(1) Inr obtain D1 where
        w: "fs_write_all p chunk D = (Inr (), D1)" and
        c: "copy_and_hash E p max_bytes reads (hashed @ chunk) (copied_size + length chunk) D1 = (Inr (h, n), D')"
        by (auto simp: Let_def bindIO_eq raw_io_eq split: if_splits)
      have "files D1 p = Some (hashed @ chunk)"
        using fs_write_all_cases [OF w Cons.prems(2)] by auto
      from Cons.IH [OF c this] Cons.prems(3) show ?thesis by simp
    qed (use Cons.prems Inr in \<open>auto split: if_splits\<close>)
  qed (use Cons.prems in auto)
qed (auto split: if_splits)

lemma create_once_cases:
  assumes "create_once E p bs h D = (r, D')"
  shows "files D' = files D \<and> r \<noteq> Inr ()
    \<or> files D p = None \<and> (\<exists>n. files D' = (files D)(p \<mapsto> take n bs))
      \<and> (r = Inr () \<longrightarrow> files D' = (files D)(p \<mapsto> bs))
    \<or> files D' = files D \<and> r = Inr () \<and> (\<exists>c. files D p = Some c \<and> sha256 E c = h)"
proof -
  obtain r1 D1 where c1: "fs_create_dir_all D = (r1, D1)" by (cases "fs_create_dir_all D")
  note f1 = silentD(3) [OF c1]
  obtain r2 D2 where c2: "fs_create_new p D1 = (r2, D2)" by (cases "fs_create_new p D1")
  show ?thesis
  proof (cases r1)
    case (Inr u)
    show ?thesis
    proof (cases r2)
      case (Inl e)
      then have f2: "files D2 = files D" using fs_create_new_cases [OF c2] f1 by auto
      show ?thesis
      proof (cases "io_kind e = AlreadyExists")
        case True
        then have "verify_raw_object E p h D2 = (r, D')"
          using assms c1 c2 Inl Inr by (simp add: create_once_def bindIO_def raw_io_def)
        then show ?thesis using f2
          by (cases r) (auto simp: verify_raw_object_def bindIO_eq raw_io_eq
              dest: fs_read_Inr silentD split: if_splits)
      next
        case False
        then show ?thesis using assms c1 c2 Inl Inr f2 by (simp add: create_once_def bindIO_def raw_io_def)
      qed
    next
      case (Inr v)
      then have f2: "files D p = None" "files D2 = (files D)(p \<mapsto> [])"
        using fs_create_new_cases [OF c2] f1 by auto
      then have p2: "files D2 p = Some []" by simp
      obtain r3 D3 where c3: "fs_write_all p bs D2 = (r3, D3)" by (cases "fs_write_all p bs D2")
      obtain r4 D4 where c4: "fs_sync_all D3 = (r4, D4)" by (cases "fs_sync_all D3")
      show ?thesis
        using assms c1 c2 c3 c4 Inr \<open>r1 = Inr u\<close> f2 fs_write_all_cases [OF c3 p2] silentD(4) [OF c4]
        by (cases r3; cases r4) (auto simp: create_once_def bindIO_def raw_io_def intro: exI [of _ "length bs"])
    qed
  qed (use assms c1 f1 in \<open>auto simp: create_once_def bindIO_def raw_io_def\<close>)
qed


lemma verify_Inr:
  "verify_raw_object E p h D = (Inr u, D') \<Longrightarrow>
    files D' = files D \<and> (\<exists>c. files D p = Some c \<and> sha256 E c = h)"
  by (auto simp: verify_raw_object_def bindIO_eq raw_io_eq dest: fs_read_Inr silentD split: if_splits)

lemma create_once_immutable: "framed immutable (create_once E (Sha256Path digest) bs h)"
  unfolding framed_def
proof
  fix D
  obtain r D' where "create_once E (Sha256Path digest) bs h D = (r, D')"
    by (cases "create_once E (Sha256Path digest) bs h D")
  with create_once_cases [OF this] show "immutable D (snd (create_once E (Sha256Path digest) bs h D))"
    by (auto simp: immutable_def)
qed

lemma store_immutable: "framed immutable (store E bs)"
  unfolding store_def Let_def
  by (auto intro!: imm.bind imm.silent imm.return imm.fail create_once_immutable
      framed_mono [OF verify_same same_objects_immutable])

text \<open>A streamed body reaches its digest path by one hard link, so whatever fails, no object under
  another digest than its own appears.\<close>

definition fills :: "env \<Rightarrow> raw_path \<Rightarrow> bytes \<Rightarrow> disk \<Rightarrow> bool" where
  "fills E p h D \<longleftrightarrow> (\<exists>bs. files D p = Some bs \<and> h = sha256 E bs)"

lemma promote_cases:
  assumes "promote_temporary E (TmpPath n) (Sha256Path digest) h D = (r, D')"
  shows "same_objects D D' \<or> files D (Sha256Path digest) = None \<and> files D (TmpPath n) \<noteq> None
    \<and> (\<forall>q. files D' (Sha256Path q) = (if q = digest then files D (TmpPath n) else files D (Sha256Path q)))"
proof -
  obtain r1 D1 where c1: "fs_create_dir_all D = (r1, D1)" by (cases "fs_create_dir_all D")
  note f1 = silentD(3) [OF c1]
  obtain r2 D2 where c2: "fs_hard_link (TmpPath n) (Sha256Path digest) D1 = (r2, D2)"
    by (cases "fs_hard_link (TmpPath n) (Sha256Path digest) D1")
  show ?thesis
  proof (cases r1)
    case (Inr u)
    show ?thesis
    proof (cases r2)
      case (Inl e)
      then have f2: "same_objects D D2" using fs_hard_link_cases [OF c2] f1 by (auto simp: same_objects_def)
      define m where "m = (if io_kind e = AlreadyExists
        then bindIO (raw_io (fs_remove_file (TmpPath n))) (\<lambda>_. verify_raw_object E (Sha256Path digest) h)
        else failIO (RawStorage e))"
      have "framed same_objects m"
        unfolding m_def by (simp add: same.bind same.fail tmp_calls verify_same)
      moreover have "m D2 = (r, D')"
        using assms c1 c2 Inl Inr
        by (auto simp: m_def promote_temporary_def bindIO_def [of "raw_io fs_create_dir_all"]
            raw_io_def [of fs_create_dir_all] split: if_splits)
      ultimately show ?thesis using same.trans [OF f2] framedD by blast
    next
      case (Inr v)
      have "raw_io (fs_remove_file (TmpPath n)) D2 = (r, D')"
        using assms c1 c2 Inr \<open>r1 = Inr u\<close> by (simp add: promote_temporary_def bindIO_def raw_io_def)
      from framedD [OF tmp_calls(3) this] show ?thesis
        using fs_hard_link_cases [OF c2] Inr f1 by (auto simp: same_objects_def)
    qed
  qed (use assms c1 f1 in \<open>auto simp: promote_temporary_def bindIO_def raw_io_def same_objects_def\<close>)
qed


lemma copy_or_discard_same: "framed same_objects (copy_or_discard E (TmpPath n) max_bytes reads)"
  unfolding framed_def
proof
  fix D
  obtain r1 D1 where c: "copy_and_hash E (TmpPath n) max_bytes reads [] 0 D = (r1, D1)"
    by (cases "copy_and_hash E (TmpPath n) max_bytes reads [] 0 D")
  note f = framedD [OF copy_same c]
  show "same_objects D (snd (copy_or_discard E (TmpPath n) max_bytes reads D))"
  proof (cases r1)
    case (Inl e)
    have "framed same_objects (bindIO (raw_io (fs_remove_file (TmpPath n))) (\<lambda>_. failIO e))"
      by (intro same.bind tmp_calls same.fail)
    from this [unfolded framed_def, rule_format, of D1]
    have "same_objects D1 (snd (copy_or_discard E (TmpPath n) max_bytes reads D))"
      using c Inl by (simp add: copy_or_discard_def)
    with f show ?thesis by (rule same.trans)
  qed (use c f in \<open>simp add: copy_or_discard_def\<close>)
qed

lemma copy_or_discard_Inr:
  assumes "copy_or_discard E p max_bytes reads D = (Inr (h, n), D')" "files D p = Some []"
  obtains bs where "files D' p = Some bs" "h = sha256 E bs" "n = int (length bs)"
  using assms copy_and_hash_content [of E p max_bytes reads "[]" 0 D h n D']
  by (auto simp: copy_or_discard_def bindIO_eq split: sum.splits prod.splits)

lemma promoted_intact:
  assumes "promote_temporary E (TmpPath n) (Sha256Path (hex (sha256 E bs))) h D = (r, D')"
    and "files D (TmpPath n) = Some bs"
  shows "keeps_intact E D D'"
  using promote_cases [OF assms(1)]
proof
  assume new: "files D (Sha256Path (hex (sha256 E bs))) = None \<and> files D (TmpPath n) \<noteq> None \<and>
    (\<forall>q. files D' (Sha256Path q)
      = (if q = hex (sha256 E bs) then files D (TmpPath n) else files D (Sha256Path q)))"
  have "files D' (Sha256Path q)
      = (if q = hex (sha256 E bs) then Some bs else files D (Sha256Path q))" for q
    using new assms(2) by simp
  then show ?thesis by (simp add: keeps_intact_def intact_def)
qed (rule same_objects_intact)

lemma create_temporary_Inr:
  "create_temporary p D = (Inr u, D') \<Longrightarrow> files D' p = Some []"
  by (auto simp: create_temporary_def bindIO_eq raw_io_eq dest!: fs_create_new_cases)

lemma store_stream_steps:
  assumes "store_stream E name reads max_bytes media_type D = (r, D')"
  obtains (staged) "same_objects D D'" "\<And>raw. r \<noteq> Inr raw"
  | (promoted) bs D1 r1 where "same_objects D D1" "files D1 (TmpPath name) = Some bs"
      "promote_temporary E (TmpPath name) (Sha256Path (hex (sha256 E bs))) (sha256 E bs) D1 = (r1, D')"
      "r = (case r1 of Inl e \<Rightarrow> Inl e | Inr _ \<Rightarrow> Inr \<lparr>sw_blob_ref = blob_ref_of (hex (sha256 E bs)),
        sw_content_hash = sha256 E bs, sw_byte_size = int (length bs), sw_media_type = media_type\<rparr>)"
proof -
  obtain r1 D1 where c1: "create_temporary (TmpPath name) D = (r1, D1)"
    by (cases "create_temporary (TmpPath name) D")
  note f1 = framedD [OF create_temporary_same c1]
  obtain r2 D2 where c2: "copy_or_discard E (TmpPath name) max_bytes reads D1 = (r2, D2)"
    by (cases "copy_or_discard E (TmpPath name) max_bytes reads D1")
  note f2 = same.trans [OF f1 framedD [OF copy_or_discard_same c2]]
  obtain r3 D3 where c3: "fs_sync_all D2 = (r3, D3)" by (cases "fs_sync_all D2")
  note f3 = silentD(4) [OF c3]
  show thesis
  proof (cases "\<exists>u h n v. r1 = Inr u \<and> r2 = Inr (h, n) \<and> r3 = Inr v")
    case True
    then obtain u h n v where ok: "r1 = Inr u" "r2 = Inr (h, n)" "r3 = Inr v" by blast
    obtain bs where bs: "files D2 (TmpPath name) = Some bs" "h = sha256 E bs" "n = int (length bs)"
      using copy_or_discard_Inr [OF _ create_temporary_Inr] c1 c2 ok by blast
    obtain r4 D4 where c4:
      "promote_temporary E (TmpPath name) (Sha256Path (hex (sha256 E bs))) (sha256 E bs) D3 = (r4, D4)"
      by (cases "promote_temporary E (TmpPath name) (Sha256Path (hex (sha256 E bs))) (sha256 E bs) D3")
    have "r = (case r4 of Inl e \<Rightarrow> Inl e | Inr _ \<Rightarrow> Inr \<lparr>sw_blob_ref = blob_ref_of (hex (sha256 E bs)),
        sw_content_hash = sha256 E bs, sw_byte_size = int (length bs), sw_media_type = media_type\<rparr>) \<and> D' = D4"
      using assms c1 c2 c3 c4 ok bs
      by (cases r4) (simp_all add: store_stream_def bindIO_def raw_io_def returnIO_def Let_def)
    then show thesis using promoted [of D3 bs r4] f2 f3 bs(1) c4 by (simp add: same_objects_def)
  next
    case False
    then have "(\<exists>e. r = Inl e) \<and> (D' = D1 \<or> D' = D2 \<or> D' = D3)"
      using assms c1 c2 c3
      by (cases r1; cases r2; cases r3) (auto simp: store_stream_def bindIO_def raw_io_def Let_def)
    then show thesis using staged f1 f2 f3 by (auto simp: same_objects_def)
  qed
qed

lemma store_stream_intact: "framed (keeps_intact E) (store_stream E name reads max_bytes media_type)"
proof -
  have "keeps_intact E D D'" if "store_stream E name reads max_bytes media_type D = (r, D')" for D r D'
    using that
    by (cases rule: store_stream_steps)
      (blast intro: same_objects_intact kept.trans promoted_intact)+
  then show ?thesis by (simp add: framed_def) (metis prod.collapse)
qed


lemma store_stream_immutable: "framed immutable (store_stream E name reads max_bytes media_type)"
proof -
  have "immutable D D'" if "store_stream E name reads max_bytes media_type D = (r, D')" for D r D'
    using that
  proof (cases rule: store_stream_steps)
    case (promoted bs D1 r1)
    have "immutable D1 D'"
      using promote_cases [OF promoted(3)] by (auto simp: immutable_def same_objects_def)
    with same_objects_immutable [OF promoted(1)] show ?thesis by (rule imm.trans)
  qed (rule same_objects_immutable)
  then show ?thesis by (simp add: framed_def) (metis prod.collapse)
qed

lemma store_Inr:
  assumes "store E bs D = (Inr raw, D')"
  obtains c where "files D' (Sha256Path (hex (sha256 E bs))) = Some c" "sha256 E c = sha256 E bs"
    "files D (Sha256Path (hex (sha256 E bs))) \<noteq> None \<or> c = bs"
    "sw_blob_ref raw = blob_ref_of (hex (sha256 E bs))" "sw_content_hash raw = sha256 E bs"
proof -
  let ?p = "Sha256Path (hex (sha256 E bs))"
  obtain b D1 where e: "fs_try_exists ?p D = (Inr b, D1)"
    and s: "(if b then verify_raw_object E ?p (sha256 E bs) else create_once E ?p bs (sha256 E bs)) D1 = (Inr (), D')"
    and raw: "sw_blob_ref raw = blob_ref_of (hex (sha256 E bs))" "sw_content_hash raw = sha256 E bs"
    using assms by (auto simp: store_def Let_def bindIO_eq raw_io_eq split: if_splits)
  note f = silentD(1) [OF e] fs_try_exists_Inr [OF e]
  show thesis
  proof (cases b)
    case True
    then show thesis using that verify_Inr [of E ?p "sha256 E bs" D1 "()" D'] s f raw by auto
  next
    case False
    then have "create_once E ?p bs (sha256 E bs) D1 = (Inr (), D')" using s by simp
    from create_once_cases [OF this] show thesis using that False f raw by auto
  qed
qed

text \<open>Claim C26: raw evidence is immutable. Whatever system call fails, neither \<^verbatim>\<open>store\<close> nor
  \<^verbatim>\<open>store_stream\<close> changes or removes the bytes of an object that is already there.\<close>

theorem raw_objects_are_immutable:
  "immutable D (snd (store E bs D))
    \<and> immutable D (snd (store_stream E name reads max_bytes media_type D))"
  using store_immutable store_stream_immutable by (simp add: framed_def)

text \<open>Claim C27: a stored body reads back. When \<^verbatim>\<open>store\<close> returns, the reference and hash it returns read
  an object with that hash, and it is the stored body unless the store already held an object of
  the same digest.\<close>

theorem store_then_read_verified:
  assumes "store E bs D = (Inr raw, D')" and "faults D' = []"
  shows "\<exists>c. read_verified E (sw_blob_ref raw) (sw_content_hash raw) D' = (Inr c, D')
    \<and> sha256 E c = sha256 E bs \<and> (files D (Sha256Path (hex (sha256 E bs))) \<noteq> None \<or> c = bs)"
proof -
  obtain c where "files D' (Sha256Path (hex (sha256 E bs))) = Some c" "sha256 E c = sha256 E bs"
    "files D (Sha256Path (hex (sha256 E bs))) \<noteq> None \<or> c = bs"
    "sw_blob_ref raw = blob_ref_of (hex (sha256 E bs))" "sw_content_hash raw = sha256 E bs"
    by (rule store_Inr [OF assms(1)])
  then show ?thesis using assms(2)
    by (auto simp: read_verified_def Let_def bindIO_def raw_io_def fs_read_def syscall_def returnIO_def)
qed

definition sample_disk :: "io_fault list \<Rightarrow> disk" where
  "sample_disk script = \<lparr>files = Map.empty, faults = script\<rparr>"

theorem store_then_read_verified_witness:
  "\<exists>raw D' c. store (sample_env 10) [1, 2, 3] (sample_disk []) = (Inr raw, D')
    \<and> read_verified (sample_env 10) (sw_blob_ref raw) (sw_content_hash raw) D' = (Inr c, D') \<and> c = [1, 2, 3]"
proof -
  define r where "r = store (sample_env 10) [1, 2, 3] (sample_disk [])"
  have eq: "store (sample_env 10) [1, 2, 3] (sample_disk []) = (Inr (projr (fst r)), snd r)"
    and f: "faults (snd r) = []"
    by (simp_all add: r_def store_def Let_def I64_MAX_def sample_disk_def bindIO_def raw_io_def fs_try_exists_def
        syscall_def create_once_def fs_create_dir_all_def fs_create_new_def fs_write_all_def fs_sync_all_def
        append_to_def returnIO_def)
  from store_then_read_verified [OF eq f] eq show ?thesis by (auto simp: sample_disk_def)
qed

text \<open>Claim C7: a streamed body is never torn. Whatever system call fails, \<^verbatim>\<open>store_stream\<close> keeps every
  object filed under the digest of its bytes.\<close>

theorem store_stream_never_tears:
  assumes "intact E D"
  shows "intact E (snd (store_stream E name reads max_bytes media_type D))"
  using store_stream_intact assms by (simp add: framed_def keeps_intact_def)

theorem store_stream_never_tears_witness:
  "intact (sample_env 10) (snd (store_stream (sample_env 10) ''n'' [Inr [1, 2], Inr [3]] 8 ''text/plain''
    (sample_disk [NoFault, NoFault, NoFault, Fault 0 (IoError OtherIo ''disk full'')])))"
  by (rule store_stream_never_tears) (simp add: intact_def sample_disk_def)



end
