(* ===== verification/PublicResolution.thy ===== *)
theory PublicResolution
  imports Capture RawStore
begin

text \<open>
  \<^verbatim>\<open>public_resolution.rs\<close>: the credential-free oEmbed client and the store that records one approved
  observation. The HTTP exchange, the JSON parser and the URL parser are arguments; everything the
  service decides about their answers is modelled, and so is the one transaction that writes the raw
  object, the post, its revision, its relations, the resolved capture and the published fact.
\<close>

section \<open>Observations\<close>

definition PARSER_VERSION :: string where
  "PARSER_VERSION = ''threads-oembed-v1''"

record public_post =
  pp_provider_post_id :: string
  pp_permalink :: permalink
  pp_embed_html :: string
  pp_parser_version :: string
  pp_relations :: "relation_input list"

record public_observation =
  obs_post :: public_post
  obs_raw_response :: bytes

record stored_resolution =
  st_post_id :: uuid
  st_raw_object_id :: uuid
  st_revision_id :: uuid
  st_observed_at :: instant

definition string_field :: "json \<Rightarrow> string \<Rightarrow> public_resolution_error + string" where
  "string_field value name = ok_or (MissingField name) (Option.bind (json_get name value) json_as_str)"

text \<open>\<^verbatim>\<open>str.rsplit('/').next()\<close>: the text after the last slash.\<close>

definition after_last_slash :: "string \<Rightarrow> string" where
  "after_last_slash s = (case rsplit_once (CHR ''/'') s of None \<Rightarrow> s | Some (_, b) \<Rightarrow> b)"

definition parse_observation ::
  "(string \<Rightarrow> json option) \<Rightarrow> permalink \<Rightarrow> string \<Rightarrow> public_resolution_error + public_post" where
  "parse_observation from_str requested payload =
    bindE (ok_or InvalidJson (from_str payload)) (\<lambda>value.
    bindE (string_field value ''provider_name'') (\<lambda>provider.
    if provider \<noteq> ''Threads'' then Inl WrongPostProvider else
    bindE (string_field value ''url'') (\<lambda>url.
    bindE (map_err (\<lambda>_. PermalinkMismatch) (try_from url)) (\<lambda>canonical.
    if canonicalized_url.permalink canonical \<noteq> requested then Inl PermalinkMismatch else
    bindE (string_field value ''html'') (\<lambda>html.
    Inr \<lparr>pp_provider_post_id = after_last_slash (as_str requested), pp_permalink = requested,
      pp_embed_html = html, pp_parser_version = PARSER_VERSION, pp_relations = []\<rparr>)))))"

section \<open>The HTTP client\<close>

definition MAX_OEMBED_RESPONSE_BYTES :: int where
  "MAX_OEMBED_RESPONSE_BYTES = 256 * 1024"

record parsed_url =
  url_scheme :: string
  url_host :: "string option"
  url_path :: string
  url_query :: "string option"

definition ends_with :: "string \<Rightarrow> string \<Rightarrow> bool" where
  "ends_with s end_text \<longleftrightarrow> suffix end_text s"

definition approved_endpoint :: "parsed_url \<Rightarrow> bool" where
  "approved_endpoint endpoint \<longleftrightarrow> url_scheme endpoint = ''https''
    \<and> url_host endpoint \<in> {Some ''graph.threads.com'', Some ''graph.threads.net''}
    \<and> ends_with (url_path endpoint) ''/oembed'' \<and> url_query endpoint = None"

definition is_approved_endpoint :: "(string \<Rightarrow> parsed_url option) \<Rightarrow> string \<Rightarrow> bool" where
  "is_approved_endpoint parse endpoint = (case parse endpoint of None \<Rightarrow> False | Some url \<Rightarrow> approved_endpoint url)"

text \<open>\<^verbatim>\<open>ApprovedOembedClient::new\<close>; \<open>builds\<close> is whether the HTTP client can be built.\<close>

definition client_new ::
  "(string \<Rightarrow> parsed_url option) \<Rightarrow> bool \<Rightarrow> string \<Rightarrow> public_resolution_error + parsed_url" where
  "client_new parse builds endpoint =
    bindE (ok_or UnsupportedEndpoint (parse endpoint)) (\<lambda>url.
    if \<not> approved_endpoint url then Inl UnsupportedEndpoint
    else if builds then Inr url else Inl Network)"

text \<open>\<^verbatim>\<open>str::trim\<close> on a header value, which holds visible ASCII, spaces and tabs only.\<close>

definition is_blank :: "char \<Rightarrow> bool" where
  "is_blank c \<longleftrightarrow> c = CHR '' '' \<or> 9 \<le> (of_char c :: nat) \<and> (of_char c :: nat) \<le> 13"

definition trim :: "string \<Rightarrow> string" where
  "trim s = rev (dropWhile is_blank (rev (dropWhile is_blank s)))"

definition is_json :: "string option \<Rightarrow> bool" where
  "is_json content_type = (case content_type of
      None \<Rightarrow> False
    | Some value \<Rightarrow> (let mime = trim (cut_at (CHR '';'') value) in
        eq_ignore_ascii_case mime ''application/json'' \<or> ends_with mime ''+json''))"

text \<open>\<open>chunks\<close> is what successive calls of \<^verbatim>\<open>response.chunk\<close> return; \<open>None\<close> is a transport failure.\<close>

fun bounded_body :: "bytes option list \<Rightarrow> bytes \<Rightarrow> public_resolution_error + bytes" where
  "bounded_body [] bs = Inr bs"
| "bounded_body (None # chunks) bs = Inl Network"
| "bounded_body (Some chunk # chunks) bs =
    (if int (length bs + length chunk) > MAX_OEMBED_RESPONSE_BYTES then Inl ResponseTooLarge
     else bounded_body chunks (bs @ chunk))"

record http_response =
  hr_status :: int
  hr_content_type :: "string option"
  hr_content_length :: "nat option"
  hr_chunks :: "bytes option list"

definition is_success :: "int \<Rightarrow> bool" where
  "is_success status \<longleftrightarrow> 200 \<le> status \<and> status < 300"

text \<open>\<^verbatim>\<open>std::str::from_utf8\<close>: well-formed sequences of one to four bytes, without surrogates and
  overlong forms.\<close>

definition in_range :: "nat \<Rightarrow> nat \<Rightarrow> 8 word \<Rightarrow> bool" where
  "in_range lo hi b \<longleftrightarrow> lo \<le> unat b \<and> unat b \<le> hi"

fun utf8_valid :: "bytes \<Rightarrow> bool" where
  "utf8_valid [] = True"
| "utf8_valid (b # bs) =
    (if in_range 0 127 b then utf8_valid bs
     else case bs of
       c1 # cs1 \<Rightarrow>
         if in_range 194 223 b then in_range 128 191 c1 \<and> utf8_valid cs1
         else (case cs1 of
           c2 # cs2 \<Rightarrow>
             if in_range 224 239 b then
               in_range (if b = 224 then 160 else 128) (if b = 237 then 159 else 191) c1
               \<and> in_range 128 191 c2 \<and> utf8_valid cs2
             else (case cs2 of
               c3 # cs3 \<Rightarrow> in_range 240 244 b
                 \<and> in_range (if b = 240 then 144 else 128) (if b = 244 then 143 else 191) c1
                 \<and> in_range 128 191 c2 \<and> in_range 128 191 c3 \<and> utf8_valid cs3
             | [] \<Rightarrow> False)
         | [] \<Rightarrow> False)
     | [] \<Rightarrow> False)"

definition from_utf8 :: "bytes \<Rightarrow> string option" where
  "from_utf8 bs = (if utf8_valid bs then Some (map (\<lambda>b. char_of (unat b)) bs) else None)"

text \<open>\<open>http\<close> is one credential-free GET of the endpoint with the permalink as its query.\<close>

definition resolve ::
  "(string \<Rightarrow> json option) \<Rightarrow> (string \<Rightarrow> http_response option) \<Rightarrow> permalink
    \<Rightarrow> public_resolution_error + public_observation" where
  "resolve from_str http link =
    bindE (ok_or Network (http (as_str link))) (\<lambda>response.
    if \<not> is_success (hr_status response) then Inl (ProviderStatus (hr_status response))
    else if \<not> is_json (hr_content_type response) then Inl UnexpectedContentType
    else if (case hr_content_length response of None \<Rightarrow> False | Some n \<Rightarrow> int n > MAX_OEMBED_RESPONSE_BYTES)
      then Inl ResponseTooLarge else
    bindE (bounded_body (hr_chunks response) []) (\<lambda>raw_response.
    bindE (ok_or InvalidJson (from_utf8 raw_response)) (\<lambda>payload.
    bindE (parse_observation from_str link payload) (\<lambda>post.
    Inr \<lparr>obs_post = post, obs_raw_response = raw_response\<rparr>))))"

section \<open>Relations\<close>

definition MAX_RELATIONS_PER_OBSERVATION :: nat where
  "MAX_RELATIONS_PER_OBSERVATION = 128"

definition validate_relation_sources :: "public_post \<Rightarrow> public_resolution_error + unit" where
  "validate_relation_sources post =
    (if length (pp_relations post) > MAX_RELATIONS_PER_OBSERVATION then Inl TooManyRelations
     else if list_ex (\<lambda>r. rin_referencing_provider_post_id r \<noteq> pp_provider_post_id post) (pp_relations post)
       then Inl RelationSourceMismatch
     else Inr ())"

definition known_provider_ids :: "db \<Rightarrow> string set" where
  "known_provider_ids d = set (List.map_filter po_provider_post_id (posts d))"

text \<open>The stored reply edges joined with their source posts; a source without a provider identity does
  not decode.\<close>

definition reply_row :: "db \<Rightarrow> post_relation_row \<Rightarrow> sqlx_error + relation_input" where
  "reply_row d r = (case Option.bind (List.find (\<lambda>p. po_post_id p = rl_referencing_post_id r) (posts d))
      po_provider_post_id of
      None \<Rightarrow> Inl (ColumnDecode ''provider_post_id'' ''unexpected null'')
    | Some source \<Rightarrow> Inr \<lparr>rin_referencing_provider_post_id = source, rin_relation_kind = rl_relation_kind r,
        rin_target_provider_post_id = rl_target_provider_post_id r,
        rin_target_permalink = rl_target_permalink r\<rparr>)"

definition stored_replies :: "db \<Rightarrow> sqlx_error + relation_input list" where
  "stored_replies d = mapE (reply_row d) (filter (\<lambda>r. rl_relation_kind r = ''reply'') (post_relations d))"

text \<open>\<^verbatim>\<open>insert ... on conflict (referencing_post_id, target_provider_post_id, relation_kind) do update\<close>.\<close>

definition relation_key :: "post_relation_row \<Rightarrow> uuid \<times> string \<times> string" where
  "relation_key r = (rl_referencing_post_id r, rl_target_provider_post_id r, rl_relation_kind r)"

definition refresh_relation :: "post_relation_row \<Rightarrow> post_relation_row \<Rightarrow> post_relation_row" where
  "refresh_relation r s = s\<lparr>rl_target_post_id := rl_target_post_id r,
    rl_target_permalink := (case rl_target_permalink r of None \<Rightarrow> rl_target_permalink s | Some u \<Rightarrow> Some u)\<rparr>"

definition upsert_post_relation :: "post_relation_row \<Rightarrow> db \<Rightarrow> sqlx_error + db" where
  "upsert_post_relation r d =
    (if exists_where (\<lambda>s. relation_key s = relation_key r) (post_relations d) then
       bindE (checked [(opt_in (rl_target_post_id r) (post_ids (posts d)), ''post_relations_target_post_id_fkey'')])
       (\<lambda>_. Inr (d\<lparr>post_relations :=
         update_where (\<lambda>s. relation_key s = relation_key r) (refresh_relation r) (post_relations d)\<rparr>))
     else insert_post_relation r d)"

definition provider_post :: "string \<Rightarrow> db \<Rightarrow> uuid option" where
  "provider_post provider_id d =
    map_option po_post_id (List.find (\<lambda>p. po_provider_post_id p = Some provider_id) (posts d))"

definition record_relation :: "env \<Rightarrow> uuid \<Rightarrow> db \<Rightarrow> graph_relation \<Rightarrow> sqlx_error + db" where
  "record_relation E post_id d relation =
    (let (relation_id, d) = now_v7 E d in
     upsert_post_relation
       \<lparr>rl_relation_id = relation_id, rl_referencing_post_id = post_id,
        rl_target_post_id = provider_post (gr_target_provider_post_id relation) d,
        rl_target_provider_post_id = gr_target_provider_post_id relation,
        rl_target_permalink = (case gr_target relation of
          ResolvedTarget \<Rightarrow> None | UnresolvedTarget evidence \<Rightarrow> evidence),
        rl_relation_kind = kind_str (gr_relation_kind relation)\<rparr> d)"

definition resolution_query :: "sqlx_error \<Rightarrow> public_resolution_error" where
  "resolution_query e = ResolutionPersistence (Query e)"

definition record_relations :: "env \<Rightarrow> uuid \<Rightarrow> public_post \<Rightarrow> db \<Rightarrow> public_resolution_error + db" where
  "record_relations E post_id post d =
    (let known = known_provider_ids d in
     bindE (map_err resolution_query (stored_replies d)) (\<lambda>existing.
     let all_replies = existing @ filter (\<lambda>r. rin_relation_kind r = ''reply'') (pp_relations post) in
     bindE (map_err RelationGraphRefused (normalize_relations known all_replies)) (\<lambda>_.
     bindE (map_err RelationGraphRefused (normalize_relations known (pp_relations post))) (\<lambda>relations.
     map_err resolution_query (foldE (record_relation E post_id) d relations)))))"

section \<open>Recording\<close>

definition public_post_row :: "env \<Rightarrow> public_post \<Rightarrow> uuid \<Rightarrow> post_row" where
  "public_post_row E post post_id =
    \<lparr>po_post_id = post_id, po_account_id = None, po_provider_post_id = Some (pp_provider_post_id post),
     po_permalink = as_str (pp_permalink post), po_post_kind = ''post'',
     po_text_content = Some (pp_embed_html post), po_published_at = None,
     po_acquisition_method = ''public_resolution'', po_saved_authority = ''explicit_user_capture'',
     po_upstream_status = ''active'', po_updated_at = now E\<rparr>"

text \<open>\<^verbatim>\<open>insert into posts ... on conflict (provider_post_id) do update ... returning post_id\<close>.\<close>

definition upsert_public_post :: "env \<Rightarrow> public_post \<Rightarrow> db \<Rightarrow> sqlx_error + uuid \<times> db" where
  "upsert_public_post E post d =
    (let (post_id, d) = now_v7 E d in
     case provider_post (pp_provider_post_id post) d of
       Some existing \<Rightarrow>
         bindE (update_posts (\<lambda>p. po_post_id p = existing)
           (\<lambda>p. p\<lparr>po_permalink := as_str (pp_permalink post), po_text_content := Some (pp_embed_html post),
             po_updated_at := now E\<rparr>) d) (\<lambda>d. Inr (existing, d))
     | None \<Rightarrow> bindE (insert_post (public_post_row E post post_id) d) (\<lambda>d. Inr (post_id, d)))"

definition raw_evidence_row :: "env \<Rightarrow> stored_raw \<Rightarrow> uuid \<Rightarrow> raw_object_row" where
  "raw_evidence_row E raw raw_object_id =
    \<lparr>ro_raw_object_id = raw_object_id, ro_object_kind = ''oembed_response'', ro_blob_ref = sw_blob_ref raw,
     ro_content_hash = sw_content_hash raw, ro_byte_size = sw_byte_size raw,
     ro_media_type = sw_media_type raw, ro_observed_at = now E\<rparr>"

text \<open>The transaction of \<^verbatim>\<open>PublicResolutionStore::record\<close>, after the raw bytes are on disk.\<close>

definition record_transaction ::
  "env \<Rightarrow> uuid \<Rightarrow> public_post \<Rightarrow> stored_raw \<Rightarrow> db \<Rightarrow> public_resolution_error + stored_resolution \<times> db" where
  "record_transaction E capture_id post raw d =
    (let (raw_object_id, d) = now_v7 E d in
     bindE (map_err resolution_query (insert_raw_object (raw_evidence_row E raw raw_object_id) d)) (\<lambda>d.
     bindE (map_err resolution_query (upsert_public_post E post d)) (\<lambda>(post_id, d).
     let (revision_id, d) = now_v7 E d in
     bindE (map_err resolution_query (insert_post_revision
       \<lparr>pr_revision_id = revision_id, pr_post_id = post_id, pr_raw_object_id = raw_object_id,
        pr_parser_version = pp_parser_version post, pr_observed_at = now E\<rparr> d)) (\<lambda>d.
     bindE (record_relations E post_id post d) (\<lambda>d.
     bindE (map_err resolution_query (update_captures (\<lambda>c. cp_capture_id c = capture_id)
       (\<lambda>c. c\<lparr>cp_post_id := Some post_id, cp_status := ''resolved''\<rparr>) d)) (\<lambda>d.
     let (resolution_id, d) = now_v7 E d in
     bindE (map_err resolution_query (insert_capture_resolution
       \<lparr>rs_resolution_id = resolution_id, rs_capture_id = capture_id, rs_outcome = ''resolved'',
        rs_resolver_version = Some (pp_parser_version post), rs_raw_object_id = Some raw_object_id,
        rs_observed_at = now E\<rparr> d)) (\<lambda>d.
     bindE (map_err (\<lambda>e. resolution_query (Protocol (publish_error_text E e))) (append_fact E capture_id d)) (\<lambda>d.
     Inr (\<lparr>st_post_id = post_id, st_raw_object_id = raw_object_id, st_revision_id = revision_id,
       st_observed_at = now E\<rparr>, d)))))))))"

definition liftE :: "public_resolution_error + 'a \<Rightarrow> 'a io" where
  "liftE r D = (r, D)"

definition record_resolution ::
  "env \<Rightarrow> uuid \<Rightarrow> public_post \<Rightarrow> bytes \<Rightarrow> db \<Rightarrow> (stored_resolution \<times> db) io" where
  "record_resolution E capture_id post raw_response d =
    bindIO (liftE (validate_relation_sources post)) (\<lambda>_.
    bindIO (store E raw_response) (\<lambda>raw.
    liftE (record_transaction E capture_id post raw d)))"

definition resolve_and_record ::
  "env \<Rightarrow> (string \<Rightarrow> json option) \<Rightarrow> (string \<Rightarrow> http_response option) \<Rightarrow> uuid \<Rightarrow> permalink
    \<Rightarrow> db \<Rightarrow> (stored_resolution \<times> db) io" where
  "resolve_and_record E from_str http capture_id link d =
    bindIO (liftE (resolve from_str http link)) (\<lambda>observation.
    record_resolution E capture_id (obs_post observation) (obs_raw_response observation) d)"


section \<open>Lemmas\<close>

lemma bounded_body_Inr:
  "bounded_body chunks bs = Inr out \<Longrightarrow> int (length bs) \<le> MAX_OEMBED_RESPONSE_BYTES \<Longrightarrow>
    int (length out) \<le> MAX_OEMBED_RESPONSE_BYTES \<and> out = bs @ concat (map the chunks) \<and> None \<notin> set chunks"
  by (induction chunks bs rule: bounded_body.induct) (auto split: if_splits)

lemma parse_observation_Inr:
  assumes "parse_observation from_str requested payload = Inr post"
  obtains v url canonical html where "from_str payload = Some v"
    "string_field v ''provider_name'' = Inr ''Threads''" "string_field v ''url'' = Inr url"
    "try_from url = Inr canonical" "canonicalized_url.permalink canonical = requested"
    "post = \<lparr>pp_provider_post_id = after_last_slash (as_str requested), pp_permalink = requested,
      pp_embed_html = html, pp_parser_version = PARSER_VERSION, pp_relations = []\<rparr>"
  using assms by (auto simp: parse_observation_def split: if_splits)

definition relations_only :: "db \<Rightarrow> db \<Rightarrow> bool" where
  "relations_only d d' \<longleftrightarrow> d' = d\<lparr>post_relations := post_relations d', minted := minted d'\<rparr>"

lemma relations_only_refl [simp]: "relations_only d d"
  by (simp add: relations_only_def)

lemma relations_only_trans: "relations_only a b \<Longrightarrow> relations_only b c \<Longrightarrow> relations_only a c"
proof -
  assume ab: "relations_only a b" and bc: "relations_only b c"
  from bc have "c = b\<lparr>post_relations := post_relations c, minted := minted c\<rparr>" by (simp add: relations_only_def)
  also have "\<dots> = a\<lparr>post_relations := post_relations c, minted := minted c\<rparr>"
    using ab by (subst ab [unfolded relations_only_def]) simp
  finally show ?thesis by (simp add: relations_only_def)
qed

lemma relations_only_keeps:
  assumes "relations_only d d'"
  shows "posts d' = posts d" "captures d' = captures d" "raw_objects d' = raw_objects d"
    "post_revisions d' = post_revisions d" "capture_resolutions d' = capture_resolutions d"
    "outbox d' = outbox d" "social_sources d' = social_sources d" "source_revisions d' = source_revisions d"
    "tombstones d' = tombstones d" "inbox d' = inbox d" "media d' = media d" "accounts d' = accounts d"
  by (subst assms [unfolded relations_only_def], simp)+

lemma refresh_relation_keeps [simp]:
  "relation_key (refresh_relation r s) = relation_key s"
  "rl_relation_id (refresh_relation r s) = rl_relation_id s"
  "rl_referencing_post_id (refresh_relation r s) = rl_referencing_post_id s"
  "rl_target_provider_post_id (refresh_relation r s) = rl_target_provider_post_id s"
  "rl_relation_kind (refresh_relation r s) = rl_relation_kind s"
  "rl_target_post_id (refresh_relation r s) = rl_target_post_id r"
  by (simp_all add: refresh_relation_def relation_key_def)

lemma checked_bind: "bindE (checked cs) (\<lambda>_. Inr x) = Inr d' \<Longrightarrow> d' = x"
  by (cases "checked cs") simp_all

lemma upsert_post_relation_cases:
  assumes "upsert_post_relation r d = Inr d'"
  obtains (update) "relation_key r \<in> relation_key ` set (post_relations d)"
      "opt_in (rl_target_post_id r) (post_ids (posts d))"
      "d' = d\<lparr>post_relations := update_where (\<lambda>s. relation_key s = relation_key r) (refresh_relation r)
        (post_relations d)\<rparr>"
  | (insert) "insert_post_relation r d = Inr d'" "d' = d\<lparr>post_relations := post_relations d @ [r]\<rparr>"
proof (cases "exists_where (\<lambda>s. relation_key s = relation_key r) (post_relations d)")
  case True
  have "opt_in (rl_target_post_id r) (post_ids (posts d)) \<and> d' = d\<lparr>post_relations :=
      update_where (\<lambda>s. relation_key s = relation_key r) (refresh_relation r) (post_relations d)\<rparr>"
    using assms unfolding upsert_post_relation_def if_P [OF True] by (simp split: if_splits)
  moreover obtain s where "s \<in> set (post_relations d)" "relation_key s = relation_key r"
    using True unfolding exists_where_iff by blast
  then have "relation_key r \<in> relation_key ` set (post_relations d)"
    using imageI [of s _ relation_key] by simp
  ultimately show thesis using update by blast
next
  case False
  then have i: "insert_post_relation r d = Inr d'" using assms by (simp add: upsert_post_relation_def)
  then have "d' = d\<lparr>post_relations := post_relations d @ [r]\<rparr>"
    unfolding insert_post_relation_def by (rule checked_bind)
  with i show thesis by (rule insert)
qed

lemma upsert_post_relation_effect:
  assumes "upsert_post_relation r d = Inr d'"
  shows "relations_only d d'"
    and "relation_key ` set (post_relations d') = insert (relation_key r) (relation_key ` set (post_relations d))"
proof -
  show "relations_only d d'"
    using assms by (cases rule: upsert_post_relation_cases) (simp_all add: relations_only_def)
  from assms
  show "relation_key ` set (post_relations d') = insert (relation_key r) (relation_key ` set (post_relations d))"
  proof (cases rule: upsert_post_relation_cases)
    case update
    have "relation_key ` set (post_relations d') = relation_key ` set (post_relations d)"
      by (simp add: update(3) set_map [symmetric] map_update_where del: set_map)
    then show ?thesis using update(1) by auto
  qed simp
qed

lemma upsert_post_relation_schema [schema_intros]:
  assumes "upsert_post_relation r d = Inr d'" "schema_ok d"
  shows "schema_ok d'"
  using assms(1)
proof (cases rule: upsert_post_relation_cases)
  case update
  have "table_ok rl_relation_id (\<lambda>r. matches_token_pattern RELATION_KIND_PATTERN_MAX (rl_relation_kind r)
      \<and> rl_referencing_post_id r \<in> post_ids (posts d) \<and> opt_in (rl_target_post_id r) (post_ids (posts d)))
      (post_relations d')"
    using assms(2) update(2) unfolding update(3) by (simp, intro table_ok_update) (auto simp: schema_defs)
  moreover have "unique_on (\<lambda>r. (rl_referencing_post_id r, rl_target_provider_post_id r, rl_relation_kind r))
      (post_relations d')"
    using assms(2) unfolding update(3) by (simp, intro unique_on_update) (simp_all add: schema_defs)
  ultimately show ?thesis using assms(2) update(3) by (simp add: schema_defs)
qed (use assms(2) in \<open>simp add: schema_ok_insert_post_relation\<close>)

lemma record_relation_effect:
  assumes "record_relation E post_id d g = Inr d'"
  shows "relations_only d d'"
    "relation_key ` set (post_relations d') = insert
      (post_id, gr_target_provider_post_id g, kind_str (gr_relation_kind g)) (relation_key ` set (post_relations d))"
proof -
  obtain r where r: "upsert_post_relation r (d\<lparr>minted := Suc (minted d)\<rparr>) = Inr d'"
    and key: "relation_key r = (post_id, gr_target_provider_post_id g, kind_str (gr_relation_kind g))"
    using assms by (auto simp: record_relation_def now_v7_def relation_key_def)
  note e = upsert_post_relation_effect [OF r]
  have "relations_only d (d\<lparr>minted := Suc (minted d)\<rparr>)" by (simp add: relations_only_def)
  then show "relations_only d d'" using e(1) by (rule relations_only_trans)
  show "relation_key ` set (post_relations d') = insert
      (post_id, gr_target_provider_post_id g, kind_str (gr_relation_kind g)) (relation_key ` set (post_relations d))"
    using e(2) key by simp
qed


lemma record_relation_schema:
  "record_relation E post_id d g = Inr d' \<Longrightarrow> schema_ok d \<Longrightarrow> schema_ok d'"
  by (auto simp: record_relation_def now_v7_def intro: schema_intros)

lemma fold_record_relation:
  assumes "foldE (record_relation E post_id) d gs = Inr d'"
  shows "relations_only d d'"
    and "relation_key ` set (post_relations d') = relation_key ` set (post_relations d)
      \<union> (\<lambda>g. (post_id, gr_target_provider_post_id g, kind_str (gr_relation_kind g))) ` set gs"
    and "schema_ok d \<Longrightarrow> schema_ok d'"
proof -
  show "relations_only d d'"
    by (rule foldE_relation [OF assms, of relations_only])
      (simp_all add: record_relation_effect(1), rule relations_only_trans)
  show "relation_key ` set (post_relations d') = relation_key ` set (post_relations d)
      \<union> (\<lambda>g. (post_id, gr_target_provider_post_id g, kind_str (gr_relation_kind g))) ` set gs"
    using assms
  proof (induction gs arbitrary: d)
    case (Cons g gs)
    then obtain d1 where r: "record_relation E post_id d g = Inr d1"
      and f: "foldE (record_relation E post_id) d1 gs = Inr d'" by auto
    from Cons.IH [OF f] record_relation_effect(2) [OF r] show ?case by simp
  qed simp
  show "schema_ok d \<Longrightarrow> schema_ok d'"
    using assms by (rule foldE_invariant) (blast intro: record_relation_schema)
qed

lemma record_relations_Inr:
  assumes "record_relations E post_id post d = Inr d'"
  obtains existing out where "stored_replies d = Inr existing"
    "acyclic (reply_edges (known_provider_ids d)
      (existing @ filter (\<lambda>r. rin_relation_kind r = ''reply'') (pp_relations post)))"
    "out = sort_key graph_order (map (\<lambda>r. normalize_one (known_provider_ids d)
      (RelationKind (rin_relation_kind r)) r) (pp_relations post))"
    "foldE (record_relation E post_id) d out = Inr d'"
  using assms by (auto simp: record_relations_def Let_def normalize_relations_iff)

lemma record_relations_keeps:
  assumes "record_relations E post_id post d = Inr d'"
  shows "relations_only d d'" "schema_ok d \<Longrightarrow> schema_ok d'"
  using assms by (auto elim!: record_relations_Inr dest: fold_record_relation)

text \<open>The reply graph the archive stores: edges between posts it knows by provider identity.\<close>

definition stored_reply_edges :: "db \<Rightarrow> (string \<times> string) set" where
  "stored_reply_edges d = {(source, target). \<exists>p \<in> set (posts d). po_provider_post_id p = Some source
    \<and> target \<in> known_provider_ids d
    \<and> (po_post_id p, target, ''reply'') \<in> relation_key ` set (post_relations d)}"

lemma mapE_Inr: "mapE f xs = Inr ys \<longleftrightarrow> list_all2 (\<lambda>x y. f x = Inr y) xs ys"
proof (induction xs arbitrary: ys)
  case (Cons x xs)
  then show ?case by (cases ys) (auto simp: list_all2_Cons1)
qed (auto simp: list_all2_Nil)

lemma list_all2_mem: "list_all2 P xs ys \<Longrightarrow> x \<in> set xs \<Longrightarrow> \<exists>y \<in> set ys. P x y"
  by (induction rule: list_all2_induct) auto

lemma post_find:
  assumes "schema_ok d" "p \<in> set (posts d)"
  shows "List.find (\<lambda>q. po_post_id q = po_post_id p) (posts d) = Some p"
  using assms by (intro find_key_eq) (simp_all add: schema_defs table_ok_def)

lemma stored_reply_edges_decoded:
  assumes "stored_replies d = Inr existing" "schema_ok d"
  shows "stored_reply_edges d \<subseteq> reply_edges (known_provider_ids d) existing"
proof
  fix e assume "e \<in> stored_reply_edges d"
  moreover obtain s t where st: "e = (s, t)" by (cases e)
  ultimately obtain p where p: "p \<in> set (posts d)" "po_provider_post_id p = Some s" "t \<in> known_provider_ids d"
    "(po_post_id p, t, ''reply'') \<in> relation_key ` set (post_relations d)"
    unfolding stored_reply_edges_def mem_Collect_eq by blast
  from p(4) obtain r where "(po_post_id p, t, ''reply'') = relation_key r" "r \<in> set (post_relations d)"
    by (rule imageE)
  then have e: "e = (s, t)" "p \<in> set (posts d)" "po_provider_post_id p = Some s"
    "t \<in> known_provider_ids d" "r \<in> set (post_relations d)"
    "rl_referencing_post_id r = po_post_id p" "rl_target_provider_post_id r = t" "rl_relation_kind r = ''reply''"
    using p st by (simp_all add: relation_key_def)
  have l: "list_all2 (\<lambda>x y. reply_row d x = Inr y) (filter (\<lambda>r. rl_relation_kind r = ''reply'') (post_relations d)) existing"
    using assms(1) by (simp add: stored_replies_def mapE_Inr)
  have "r \<in> set (filter (\<lambda>r. rl_relation_kind r = ''reply'') (post_relations d))" using e(5,8) by simp
  from list_all2_mem [OF l this] obtain y where y: "y \<in> set existing" "reply_row d r = Inr y" by blast
  have "List.find (\<lambda>q. po_post_id q = rl_referencing_post_id r) (posts d) = Some p"
    using post_find [OF assms(2) e(2)] e(6) by simp
  then have "y = \<lparr>rin_referencing_provider_post_id = s, rin_relation_kind = rl_relation_kind r,
        rin_target_provider_post_id = t, rin_target_permalink = rl_target_permalink r\<rparr>"
    using y(2) e(3,7) by (simp add: reply_row_def)
  then show "e \<in> reply_edges (known_provider_ids d) existing"
    unfolding reply_edges_def e(1) mem_Collect_eq using y(1) e(4,8) by (intro exI [of _ y]) simp
qed


lemma provider_post_Some:
  assumes "provider_post pid d = Some k"
  obtains p :: post_row where "p \<in> set (posts d)" "po_provider_post_id p = Some pid" "po_post_id p = k"
  using assms by (auto simp: provider_post_def dest: find_SomeD)

definition refreshed :: "env \<Rightarrow> public_post \<Rightarrow> post_row \<Rightarrow> post_row" where
  "refreshed E post p = p\<lparr>po_permalink := as_str (pp_permalink post), po_text_content := Some (pp_embed_html post),
    po_updated_at := now E\<rparr>"

lemma refreshed_keeps [simp]:
  "po_post_id (refreshed E post p) = po_post_id p"
  "po_provider_post_id (refreshed E post p) = po_provider_post_id p"
  "po_permalink (refreshed E post p) = as_str (pp_permalink post)"
  "po_text_content (refreshed E post p) = Some (pp_embed_html post)"
  by (simp_all add: refreshed_def)

lemma upsert_public_post_cases:
  assumes "upsert_public_post E post d = Inr (k, d')"
  obtains (existing) "provider_post (pp_provider_post_id post) d = Some k"
      "update_posts (\<lambda>p. po_post_id p = k) (refreshed E post) (d\<lparr>minted := Suc (minted d)\<rparr>) = Inr d'"
      "d' = d\<lparr>minted := Suc (minted d), posts := update_where (\<lambda>p. po_post_id p = k) (refreshed E post) (posts d)\<rparr>"
  | (created) "provider_post (pp_provider_post_id post) d = None" "k = mint E (minted d)"
      "insert_post (public_post_row E post k) (d\<lparr>minted := Suc (minted d)\<rparr>) = Inr d'"
      "d' = d\<lparr>minted := Suc (minted d), posts := posts d @ [public_post_row E post k]\<rparr>"
proof (cases "provider_post (pp_provider_post_id post) d")
  case None
  then have "k = mint E (minted d)"
    and i: "insert_post (public_post_row E post k) (d\<lparr>minted := Suc (minted d)\<rparr>) = Inr d'"
    using assms by (auto simp: upsert_public_post_def now_v7_def provider_post_def)
  moreover have "d' = d\<lparr>minted := Suc (minted d), posts := posts d @ [public_post_row E post k]\<rparr>"
    using checked_bind [OF i [unfolded insert_post_def]] by simp
  ultimately show thesis using None created by blast
next
  case (Some e)
  then have k: "k = e"
    and u: "update_posts (\<lambda>p. po_post_id p = k) (refreshed E post) (d\<lparr>minted := Suc (minted d)\<rparr>) = Inr d'"
    using assms by (auto simp: upsert_public_post_def now_v7_def provider_post_def refreshed_def [abs_def])
  moreover have "d' = d\<lparr>minted := Suc (minted d), posts := update_where (\<lambda>p. po_post_id p = k) (refreshed E post) (posts d)\<rparr>"
    using checked_bind [OF u [unfolded update_posts_def]] by simp
  ultimately show thesis using Some existing by blast
qed

lemma upsert_public_post_schema [schema_intros]:
  assumes "upsert_public_post E post d = Inr (k, d')" "schema_ok d"
  shows "schema_ok d'"
  using assms(1)
proof (cases rule: upsert_public_post_cases)
  case existing
  show ?thesis by (rule schema_ok_update_posts [OF existing(2)]) (simp_all add: assms(2))
next
  case created
  show ?thesis by (rule schema_ok_insert_post [OF created(3)]) (simp add: assms(2))
qed

lemma upsert_public_post_effect:
  assumes "upsert_public_post E post d = Inr (k, d')"
  shows "d' = d\<lparr>minted := Suc (minted d), posts := posts d'\<rparr>"
    and "\<exists>p \<in> set (posts d'). po_post_id p = k \<and> po_provider_post_id p = Some (pp_provider_post_id post)
      \<and> po_permalink p = as_str (pp_permalink post) \<and> po_text_content p = Some (pp_embed_html post)"
    and "\<And>p. p \<in> set (posts d) \<Longrightarrow>
      \<exists>p' \<in> set (posts d'). po_post_id p' = po_post_id p \<and> po_provider_post_id p' = po_provider_post_id p"
proof -
  show "d' = d\<lparr>minted := Suc (minted d), posts := posts d'\<rparr>"
    using assms by (cases rule: upsert_public_post_cases) simp_all
  from assms show "\<exists>p \<in> set (posts d'). po_post_id p = k \<and> po_provider_post_id p = Some (pp_provider_post_id post)
      \<and> po_permalink p = as_str (pp_permalink post) \<and> po_text_content p = Some (pp_embed_html post)"
  proof (cases rule: upsert_public_post_cases)
    case existing
    from existing(1) obtain p :: post_row where p: "p \<in> set (posts d)"
      "po_provider_post_id p = Some (pp_provider_post_id post)" "po_post_id p = k"
      by (rule provider_post_Some)
    then have "refreshed E post p \<in> set (posts d')"
      using imageI [of p "set (posts d)" "\<lambda>p. if po_post_id p = k then refreshed E post p else p"]
      by (simp add: existing(3) set_update_where)
    then show ?thesis using p by (intro bexI [of _ "refreshed E post p"]) simp_all
  next
    case created
    then show ?thesis by (intro bexI [of _ "public_post_row E post k"]) (simp_all add: public_post_row_def)
  qed
  fix p assume p: "p \<in> set (posts d)"
  from assms show "\<exists>p' \<in> set (posts d'). po_post_id p' = po_post_id p \<and> po_provider_post_id p' = po_provider_post_id p"
  proof (cases rule: upsert_public_post_cases)
    case existing
    let ?f = "\<lambda>p. if po_post_id p = k then refreshed E post p else p"
    have "?f p \<in> set (posts d')"
      using imageI [OF p, of ?f] by (simp add: existing(3) set_update_where)
    then show ?thesis by (intro bexI [of _ "?f p"]) simp_all
  next
    case created
    then show ?thesis using p by (intro bexI [of _ p]) simp_all
  qed
qed

lemma record_transaction_steps:
  assumes "record_transaction E capture_id post raw d = Inr (st, d')"
  obtains d1 d2 d3 d4 d5 d6 where
    "insert_raw_object (raw_evidence_row E raw (st_raw_object_id st)) (d\<lparr>minted := Suc (minted d)\<rparr>) = Inr d1"
    "upsert_public_post E post d1 = Inr (st_post_id st, d2)"
    "insert_post_revision \<lparr>pr_revision_id = st_revision_id st, pr_post_id = st_post_id st,
      pr_raw_object_id = st_raw_object_id st, pr_parser_version = pp_parser_version post,
      pr_observed_at = now E\<rparr> (d2\<lparr>minted := Suc (minted d2)\<rparr>) = Inr d3"
    "record_relations E (st_post_id st) post d3 = Inr d4"
    "update_captures (\<lambda>c. cp_capture_id c = capture_id)
       (\<lambda>c. c\<lparr>cp_post_id := Some (st_post_id st), cp_status := ''resolved''\<rparr>) d4 = Inr d5"
    "insert_capture_resolution \<lparr>rs_resolution_id = mint E (minted d5), rs_capture_id = capture_id,
       rs_outcome = ''resolved'', rs_resolver_version = Some (pp_parser_version post),
       rs_raw_object_id = Some (st_raw_object_id st), rs_observed_at = now E\<rparr>
       (d5\<lparr>minted := Suc (minted d5)\<rparr>) = Inr d6"
    "append_fact E capture_id d6 = Inr d'"
  using assms
  unfolding record_transaction_def Let_def now_v7_def prod.case bindE_eq_Inr map_err_eq_Inr
  by clarsimp


lemma record_transaction_schema [schema_intros]:
  assumes "record_transaction E capture_id post raw d = Inr (st, d')" "schema_ok d"
  shows "schema_ok d'"
  using assms(1)
proof (cases rule: record_transaction_steps)
  case (1 d1 d2 d3 d4 d5 d6)
  have "schema_ok d1" by (rule schema_ok_insert_raw_object [OF 1(1)]) (simp add: assms(2))
  then have "schema_ok d2" by (rule upsert_public_post_schema [OF 1(2)])
  then have "schema_ok d3" by (intro schema_ok_insert_post_revision [OF 1(3)]) simp
  then have "schema_ok d4" by (rule record_relations_keeps(2) [OF 1(4)])
  then have "schema_ok d5" by (intro schema_ok_update_captures [OF 1(5)]) simp_all
  then have "schema_ok d6" by (intro schema_ok_insert_capture_resolution [OF 1(6)]) simp
  then show ?thesis by (rule append_fact_schema [OF 1(7)])
qed

lemma record_transaction_tables:
  assumes "record_transaction E capture_id post raw d = Inr (st, d')"
  obtains d3 d4 where "record_relations E (st_post_id st) post d3 = Inr d4" "schema_ok d \<Longrightarrow> schema_ok d3"
    "posts d' = posts d3" "post_relations d' = post_relations d4" "post_relations d3 = post_relations d"
    "\<exists>p \<in> set (posts d3). po_post_id p = st_post_id st \<and> po_provider_post_id p = Some (pp_provider_post_id post)
      \<and> po_permalink p = as_str (pp_permalink post) \<and> po_text_content p = Some (pp_embed_html post)"
    "\<And>p. p \<in> set (posts d) \<Longrightarrow>
      \<exists>p' \<in> set (posts d3). po_post_id p' = po_post_id p \<and> po_provider_post_id p' = po_provider_post_id p"
    "raw_objects d' = raw_objects d @ [raw_evidence_row E raw (st_raw_object_id st)]"
    "captures d' = update_where (\<lambda>c. cp_capture_id c = capture_id)
       (\<lambda>c. c\<lparr>cp_post_id := Some (st_post_id st), cp_status := ''resolved''\<rparr>) (captures d)"
    "\<exists>r. capture_resolutions d' = capture_resolutions d @ [r] \<and> rs_capture_id r = capture_id
       \<and> rs_outcome r = ''resolved'' \<and> rs_raw_object_id r = Some (st_raw_object_id st)"
    "\<exists>r. post_revisions d' = post_revisions d @ [r] \<and> pr_post_id r = st_post_id st
       \<and> pr_raw_object_id r = st_raw_object_id st \<and> pr_parser_version r = pp_parser_version post"
    "tombstones d' = tombstones d" "inbox d' = inbox d"
  using assms
proof (cases rule: record_transaction_steps)
  case (1 d1 d2 d3 d4 d5 d6)
  have e1: "d1 = d\<lparr>minted := Suc (minted d),
      raw_objects := raw_objects d @ [raw_evidence_row E raw (st_raw_object_id st)]\<rparr>"
    using checked_bind [OF 1(1) [unfolded insert_raw_object_def]] by simp
  note e2 = upsert_public_post_effect [OF 1(2)]
  have e2': "d2 = d\<lparr>minted := Suc (Suc (minted d)), posts := posts d2,
      raw_objects := raw_objects d @ [raw_evidence_row E raw (st_raw_object_id st)]\<rparr>"
    by (subst e2(1)) (simp add: e1)
  define rev where "rev = \<lparr>pr_revision_id = st_revision_id st, pr_post_id = st_post_id st,
      pr_raw_object_id = st_raw_object_id st, pr_parser_version = pp_parser_version post, pr_observed_at = now E\<rparr>"
  have e3: "d3 = d2\<lparr>minted := Suc (minted d2), post_revisions := post_revisions d2 @ [rev]\<rparr>"
    using checked_bind [OF 1(3) [unfolded insert_post_revision_def]] by (simp add: rev_def)
  note e4 = relations_only_keeps [OF record_relations_keeps(1) [OF 1(4)]]
  have e4': "d4 = d3\<lparr>post_relations := post_relations d4, minted := minted d4\<rparr>"
    using record_relations_keeps(1) [OF 1(4)] by (simp add: relations_only_def)
  have e5: "d5 = d4\<lparr>captures := update_where (\<lambda>c. cp_capture_id c = capture_id)
       (\<lambda>c. c\<lparr>cp_post_id := Some (st_post_id st), cp_status := ''resolved''\<rparr>) (captures d4)\<rparr>"
    using checked_bind [OF 1(5) [unfolded update_captures_def]] .
  define res where "res = \<lparr>rs_resolution_id = mint E (minted d5), rs_capture_id = capture_id,
       rs_outcome = ''resolved'', rs_resolver_version = Some (pp_parser_version post),
       rs_raw_object_id = Some (st_raw_object_id st), rs_observed_at = now E\<rparr>"
  have e6: "d6 = d5\<lparr>minted := Suc (minted d5), capture_resolutions := capture_resolutions d5 @ [res]\<rparr>"
    using checked_bind [OF 1(6) [unfolded insert_capture_resolution_def]] by (simp add: res_def)
  note e7 = published_from_keeps [OF append_fact_frame [OF 1(7)]]
  have ok: "schema_ok d \<Longrightarrow> schema_ok d3"
  proof -
    assume "schema_ok d"
    then have "schema_ok d1" by (intro schema_ok_insert_raw_object [OF 1(1)]) simp
    then have "schema_ok d2" by (rule upsert_public_post_schema [OF 1(2)])
    then show "schema_ok d3" by (intro schema_ok_insert_post_revision [OF 1(3)]) simp
  qed
  have p3: "posts d3 = posts d2" "post_relations d3 = post_relations d" "captures d3 = captures d"
    "raw_objects d3 = raw_objects d @ [raw_evidence_row E raw (st_raw_object_id st)]"
    "capture_resolutions d3 = capture_resolutions d" "post_revisions d3 = post_revisions d @ [rev]"
    "tombstones d3 = tombstones d" "inbox d3 = inbox d"
    by (simp_all add: e3, (subst e2', simp)+)
  show thesis
  proof (rule that [OF 1(4) ok])
    show "\<exists>p \<in> set (posts d3). po_post_id p = st_post_id st \<and> po_provider_post_id p = Some (pp_provider_post_id post)
      \<and> po_permalink p = as_str (pp_permalink post) \<and> po_text_content p = Some (pp_embed_html post)"
      using e2(2) by (simp add: p3)
    show "\<exists>p' \<in> set (posts d3). po_post_id p' = po_post_id p \<and> po_provider_post_id p' = po_provider_post_id p"
      if "p \<in> set (posts d)" for p
      using e2(3) [of p] that by (simp add: p3 e1)
    show "\<exists>r. capture_resolutions d' = capture_resolutions d @ [r] \<and> rs_capture_id r = capture_id
       \<and> rs_outcome r = ''resolved'' \<and> rs_raw_object_id r = Some (st_raw_object_id st)"
      by (intro exI [of _ res]) (simp add: e7 e6 e5 e4 p3 res_def)
    show "\<exists>r. post_revisions d' = post_revisions d @ [r] \<and> pr_post_id r = st_post_id st
       \<and> pr_raw_object_id r = st_raw_object_id st \<and> pr_parser_version r = pp_parser_version post"
      by (intro exI [of _ rev]) (simp add: e7 e6 e5 e4 p3 rev_def)
  qed (simp_all add: e7 e6 e5 e4 p3)
qed


lemma record_resolution_Inr:
  assumes "record_resolution E capture_id post bs d D = (Inr (st, d'), D')"
  obtains raw where "store E bs D = (Inr raw, D')" "record_transaction E capture_id post raw d = Inr (st, d')"
    "list_all (\<lambda>r. rin_referencing_provider_post_id r = pp_provider_post_id post) (pp_relations post)"
  using assms
  by (auto simp: record_resolution_def bindIO_eq liftE_def validate_relation_sources_def list_all_iff list_ex_iff
      split: if_splits)

lemma known_mono:
  assumes "\<And>p. p \<in> set (posts d) \<Longrightarrow> \<exists>p' \<in> set (posts d'). po_post_id p' = po_post_id p
    \<and> po_provider_post_id p' = po_provider_post_id p"
  shows "known_provider_ids d \<subseteq> known_provider_ids d'"
proof
  fix x assume "x \<in> known_provider_ids d"
  then obtain p where "p \<in> set (posts d)" "po_provider_post_id p = Some x"
    unfolding known_provider_ids_def set_map_filter_iff by blast
  then show "x \<in> known_provider_ids d'"
    using assms [of p] unfolding known_provider_ids_def set_map_filter_iff by metis
qed

lemma recorded_keys:
  assumes "record_relations E k post d = Inr d'"
  shows "relation_key ` set (post_relations d') = relation_key ` set (post_relations d)
    \<union> (\<lambda>r. (k, rin_target_provider_post_id r, rin_relation_kind r)) ` set (pp_relations post)"
  using assms
proof (rule record_relations_Inr)
  fix existing out
  assume out: "out = sort_key graph_order (map (\<lambda>r. normalize_one (known_provider_ids d)
      (RelationKind (rin_relation_kind r)) r) (pp_relations post))"
    and f: "foldE (record_relation E k) d out = Inr d'"
  show ?thesis
    unfolding fold_record_relation(2) [OF f] out
    by (simp add: image_image normalize_one_def)
qed

lemma record_relations_acyclic:
  assumes "record_relations E k post d = Inr d'" and "schema_ok d" and "p \<in> set (posts d)"
    and "po_post_id p = k" and "po_provider_post_id p = Some (pp_provider_post_id post)"
    and "list_all (\<lambda>r. rin_referencing_provider_post_id r = pp_provider_post_id post) (pp_relations post)"
  shows "acyclic (stored_reply_edges d')"
  using assms(1)
proof (rule record_relations_Inr)
  fix existing
  let ?new = "filter (\<lambda>r. rin_relation_kind r = ''reply'') (pp_relations post)"
  assume ex: "stored_replies d = Inr existing"
    and ac: "acyclic (reply_edges (known_provider_ids d) (existing @ ?new))"
  have posts: "posts d' = posts d" "known_provider_ids d' = known_provider_ids d"
    using relations_only_keeps [OF record_relations_keeps(1) [OF assms(1)]] by (simp_all add: known_provider_ids_def)
  have "e \<in> reply_edges (known_provider_ids d) (existing @ ?new)" if "e \<in> stored_reply_edges d'" for e
  proof -
    obtain s t where st: "e = (s, t)" by (cases e)
    with that obtain q where q: "q \<in> set (posts d)" "po_provider_post_id q = Some s" "t \<in> known_provider_ids d"
      "(po_post_id q, t, ''reply'') \<in> relation_key ` set (post_relations d')"
      unfolding stored_reply_edges_def mem_Collect_eq posts by blast
    from q(4) [unfolded recorded_keys [OF assms(1)]] show ?thesis
    proof
      assume "(po_post_id q, t, ''reply'') \<in> relation_key ` set (post_relations d)"
      with q st have "e \<in> stored_reply_edges d" unfolding stored_reply_edges_def by blast
      with stored_reply_edges_decoded [OF ex assms(2)] have "e \<in> reply_edges (known_provider_ids d) existing" by blast
      then show ?thesis unfolding reply_edges_def set_append by blast
    next
      assume "(po_post_id q, t, ''reply'')
        \<in> (\<lambda>r. (k, rin_target_provider_post_id r, rin_relation_kind r)) ` set (pp_relations post)"
      then obtain r where r: "(po_post_id q, t, ''reply'') = (k, rin_target_provider_post_id r, rin_relation_kind r)"
        "r \<in> set (pp_relations post)" by (rule imageE)
      have "q = p" using assms(2-4) q(1) r(1) by (auto simp: schema_defs dest: table_ok_unique)
      then have "s = rin_referencing_provider_post_id r"
        using q(2) assms(5,6) r(2) by (simp add: list_all_iff)
      then show ?thesis
        unfolding reply_edges_def st mem_Collect_eq using r q(3) by (intro exI [of _ r]) simp
    qed
  qed
  then show ?thesis using ac by (blast intro: acyclic_subset)
qed



definition sample_http :: "string \<Rightarrow> http_response option" where
  "sample_http url = Some \<lparr>hr_status = 200, hr_content_type = Some ''application/json; charset=utf-8'',
    hr_content_length = Some 2, hr_chunks = [Some [123], Some [125]]\<rparr>"

definition sample_json :: "string \<Rightarrow> json option" where
  "sample_json payload = Some (JObject [(''provider_name'', JString ''Threads''),
    (''url'', JString ''https://www.threads.net/@ab/post/C1''), (''html'', JString ''hi'')])"

definition sample_url :: canonicalized_url where
  "sample_url = \<lparr>original = ''https://www.threads.net/@ab/post/C1'',
    permalink = Permalink ''https://www.threads.net/@ab/post/C1''\<rparr>"

definition sample_public_post :: public_post where
  "sample_public_post = \<lparr>pp_provider_post_id = ''C1'', pp_permalink = Permalink ''https://www.threads.net/@ab/post/C1'',
    pp_embed_html = ''hi'', pp_parser_version = ''threads-oembed-v1'', pp_relations = []\<rparr>"


text \<open>Claim C6: one committed observation is complete. The raw bytes are on disk under the recorded
  reference and hash; the post under the observed identity carries the observed permalink and text;
  one raw object, one revision and one \<^verbatim>\<open>resolved\<close> resolution are appended and name each other; the
  capture, and no other, becomes \<^verbatim>\<open>resolved\<close> and points at the post; the schema still holds.\<close>

theorem record_resolution_is_complete:
  assumes "record_resolution E capture_id post bs d D = (Inr (st, d'), D')" and "schema_ok d"
  shows "\<exists>raw p rev res.
    store E bs D = (Inr raw, D') \<and>
    raw_objects d' = raw_objects d @ [raw_evidence_row E raw (st_raw_object_id st)] \<and>
    p \<in> set (posts d') \<and> po_post_id p = st_post_id st \<and> po_provider_post_id p = Some (pp_provider_post_id post) \<and>
    po_permalink p = as_str (pp_permalink post) \<and> po_text_content p = Some (pp_embed_html post) \<and>
    post_revisions d' = post_revisions d @ [rev] \<and> pr_post_id rev = st_post_id st \<and>
    pr_raw_object_id rev = st_raw_object_id st \<and>
    capture_resolutions d' = capture_resolutions d @ [res] \<and> rs_capture_id res = capture_id \<and>
    rs_outcome res = ''resolved'' \<and> rs_raw_object_id res = Some (st_raw_object_id st) \<and>
    captures d' = update_where (\<lambda>c. cp_capture_id c = capture_id)
      (\<lambda>c. c\<lparr>cp_post_id := Some (st_post_id st), cp_status := ''resolved''\<rparr>) (captures d) \<and> schema_ok d'"
  using assms(1)
proof (rule record_resolution_Inr)
  fix raw
  assume s: "store E bs D = (Inr raw, D')" and t: "record_transaction E capture_id post raw d = Inr (st, d')"
  note ok = record_transaction_schema [OF t assms(2)]
  from t show ?thesis
    by (rule record_transaction_tables) (use s ok in \<open>metis\<close>)
qed

definition pending_capture :: capture_row where
  "pending_capture = sample_capture\<lparr>cp_post_id := None, cp_status := ''accepted''\<rparr>"

theorem record_resolution_is_complete_witness:
  "\<exists>st d' D'. record_resolution (sample_env 10) 4 sample_public_post [123, 125]
      (empty_db\<lparr>captures := [pending_capture]\<rparr>) (sample_disk []) = (Inr (st, d'), D')
    \<and> map cp_status (captures d') = [''resolved''] \<and> schema_ok d'"
proof -
  define r where "r = record_resolution (sample_env 10) 4 sample_public_post [123, 125]
      (empty_db\<lparr>captures := [pending_capture]\<rparr>) (sample_disk [])"
  have "isl (fst r) = False" unfolding r_def by code_simp
  then obtain st d' where eq: "record_resolution (sample_env 10) 4 sample_public_post [123, 125]
      (empty_db\<lparr>captures := [pending_capture]\<rparr>) (sample_disk []) = (Inr (st, d'), snd r)"
    unfolding r_def by (metis old.prod.exhaust isl_def prod.collapse sum.exhaust)
  have "schema_ok (empty_db\<lparr>captures := [pending_capture]\<rparr>)" by code_simp
  from record_resolution_is_complete [OF eq this] eq show ?thesis
    by (fastforce simp: pending_capture_def sample_capture_def)
qed

lemma recorded_acyclic:
  assumes "record_resolution E capture_id post bs d D = (Inr (st, d'), D')" and "schema_ok d"
  shows "acyclic (stored_reply_edges d')"
  using assms(1)
proof (rule record_resolution_Inr)
  fix raw
  assume t: "record_transaction E capture_id post raw d = Inr (st, d')"
    and src: "list_all (\<lambda>r. rin_referencing_provider_post_id r = pp_provider_post_id post) (pp_relations post)"
  from t show ?thesis
  proof (rule record_transaction_tables)
    fix d3 d4
    assume r: "record_relations E (st_post_id st) post d3 = Inr d4" and ok: "schema_ok d \<Longrightarrow> schema_ok d3"
      and same: "posts d' = posts d3" "post_relations d' = post_relations d4"
      and "\<exists>p \<in> set (posts d3). po_post_id p = st_post_id st \<and> po_provider_post_id p = Some (pp_provider_post_id post)
        \<and> po_permalink p = as_str (pp_permalink post) \<and> po_text_content p = Some (pp_embed_html post)"
    then obtain p where "p \<in> set (posts d3)" "po_post_id p = st_post_id st"
      "po_provider_post_id p = Some (pp_provider_post_id post)" by blast
    from record_relations_acyclic [OF r ok this src] assms(2) have "acyclic (stored_reply_edges d4)" by blast
    moreover have "posts d4 = posts d3"
      using relations_only_keeps [OF record_relations_keeps(1) [OF r]] by simp
    ultimately show ?thesis by (simp add: stored_reply_edges_def known_provider_ids_def same)
  qed
qed

text \<open>Claim C12: after every committed observation the reply graph between known posts is acyclic,
  whatever it was before: stored and observed replies are checked together, under the new post.\<close>

theorem record_resolution_keeps_replies_acyclic:
  assumes "record_resolution E capture_id post bs d D = (Inr (st, d'), D')" and "schema_ok d"
  shows "acyclic (stored_reply_edges d')"
  using assms by (rule recorded_acyclic)

theorem record_resolution_keeps_replies_acyclic_witness:
  "\<exists>st d' D'. record_resolution (sample_env 10) 4 sample_public_post [123, 125]
      (empty_db\<lparr>captures := [pending_capture]\<rparr>) (sample_disk []) = (Inr (st, d'), D')
    \<and> acyclic (stored_reply_edges d')"
proof -
  define r where "r = record_resolution (sample_env 10) 4 sample_public_post [123, 125]
      (empty_db\<lparr>captures := [pending_capture]\<rparr>) (sample_disk [])"
  have "isl (fst r) = False" unfolding r_def by code_simp
  then obtain st d' where eq: "record_resolution (sample_env 10) 4 sample_public_post [123, 125]
      (empty_db\<lparr>captures := [pending_capture]\<rparr>) (sample_disk []) = (Inr (st, d'), snd r)"
    unfolding r_def by (metis old.prod.exhaust isl_def prod.collapse sum.exhaust)
  have "schema_ok (empty_db\<lparr>captures := [pending_capture]\<rparr>)" by code_simp
  from record_resolution_keeps_replies_acyclic [OF eq this] eq show ?thesis by blast
qed


lemma record_transaction_edges_grow:
  assumes "record_transaction E capture_id post raw d = Inr (st, d')"
  shows "stored_reply_edges d \<subseteq> stored_reply_edges d'"
  using assms
proof (rule record_transaction_tables)
  fix d3 d4
  assume r: "record_relations E (st_post_id st) post d3 = Inr d4"
    and same: "posts d' = posts d3" "post_relations d' = post_relations d4" "post_relations d3 = post_relations d"
    and grow: "\<And>p. p \<in> set (posts d) \<Longrightarrow>
      \<exists>p' \<in> set (posts d3). po_post_id p' = po_post_id p \<and> po_provider_post_id p' = po_provider_post_id p"
  have known: "known_provider_ids d \<subseteq> known_provider_ids d'"
    using known_mono [of d d3] grow same(1) by (simp add: known_provider_ids_def)
  have keys: "relation_key ` set (post_relations d) \<subseteq> relation_key ` set (post_relations d')"
    using recorded_keys [OF r] same by auto
  show "stored_reply_edges d \<subseteq> stored_reply_edges d'"
  proof
    fix e assume "e \<in> stored_reply_edges d"
    moreover obtain s t where st: "e = (s, t)" by (cases e)
    ultimately obtain p where p: "p \<in> set (posts d)" "po_provider_post_id p = Some s" "t \<in> known_provider_ids d"
      "(po_post_id p, t, ''reply'') \<in> relation_key ` set (post_relations d)"
      unfolding stored_reply_edges_def mem_Collect_eq by blast
    obtain p' where "p' \<in> set (posts d3)" "po_post_id p' = po_post_id p" "po_provider_post_id p' = po_provider_post_id p"
      using grow [OF p(1)] by blast
    then have "p' \<in> set (posts d')" "po_provider_post_id p' = Some s"
      "(po_post_id p', t, ''reply'') \<in> relation_key ` set (post_relations d')"
      using p keys same(1) by auto
    then show "e \<in> stored_reply_edges d'"
      unfolding stored_reply_edges_def st using p(3) known by blast
  qed
qed

text \<open>Claim C30: a reply cycle that another importer stored blocks public resolution for everybody. Once
  the stored reply graph has a cycle, no observation of any post for any capture can be recorded.\<close>

theorem stored_cycle_blocks_every_resolution:
  assumes "\<not> acyclic (stored_reply_edges d)" and "schema_ok d"
  shows "\<exists>e. fst (record_resolution E capture_id post bs d D) = Inl e"
proof (cases "record_resolution E capture_id post bs d D")
  case (Pair r D')
  show ?thesis
  proof (cases r)
    case (Inr x)
    obtain st d' where x: "x = (st, d')" by (cases x)
    with Pair Inr have eq: "record_resolution E capture_id post bs d D = (Inr (st, d'), D')" by simp
    then have "stored_reply_edges d \<subseteq> stored_reply_edges d'"
      by (rule record_resolution_Inr) (rule record_transaction_edges_grow)
    moreover have "acyclic (stored_reply_edges d')"
      by (rule recorded_acyclic [OF eq assms(2)])
    ultimately show ?thesis using assms(1) acyclic_subset by blast
  qed (use Pair in simp)
qed

text \<open>Two stored posts that reply to each other.\<close>

definition cyclic_db :: db where
  "cyclic_db = empty_db\<lparr>captures := [pending_capture\<lparr>cp_canonical_url := ''https://www.threads.net/@ab/post/C9''\<rparr>],
    posts := [sample_post ''a'', (sample_post ''b'')\<lparr>po_post_id := 2, po_provider_post_id := Some ''C2'',
      po_permalink := ''https://www.threads.net/@ab/post/C2''\<rparr>],
    post_relations := [
      \<lparr>rl_relation_id = 5, rl_referencing_post_id = 1, rl_target_post_id = Some 2, rl_target_provider_post_id = ''C2'',
        rl_target_permalink = None, rl_relation_kind = ''reply''\<rparr>,
      \<lparr>rl_relation_id = 6, rl_referencing_post_id = 2, rl_target_post_id = Some 1, rl_target_provider_post_id = ''C1'',
        rl_target_permalink = None, rl_relation_kind = ''reply''\<rparr>]\<rparr>"

lemma cyclic_db_cycle: "\<not> acyclic (stored_reply_edges cyclic_db)"
proof -
  have "(''C1'', ''C2'') \<in> stored_reply_edges cyclic_db" "(''C2'', ''C1'') \<in> stored_reply_edges cyclic_db"
    by (simp_all add: stored_reply_edges_def cyclic_db_def known_provider_ids_def sample_post_def relation_key_def)
  then have "(''C1'', ''C1'') \<in> (stored_reply_edges cyclic_db)\<^sup>+" by auto
  then show ?thesis by (auto simp: acyclic_def)
qed

lemma cyclic_db_schema: "schema_ok cyclic_db"
  by code_simp

theorem stored_cycle_blocks_every_resolution_witness:
  "\<exists>e. fst (record_resolution (sample_env 10) 4 (sample_public_post\<lparr>pp_provider_post_id := ''C9'',
      pp_permalink := Permalink ''https://www.threads.net/@ab/post/C9''\<rparr>) [123, 125] cyclic_db (sample_disk [])) = Inl e"
  by (rule stored_cycle_blocks_every_resolution [OF cyclic_db_cycle cyclic_db_schema])

end
