(* ===== verification/Inbox.thy ===== *)
theory Inbox
  imports Database
begin

text \<open>
  The contract of a consumer that deduplicates broker deliveries by a row of
  \<^verbatim>\<open>threads_archive.inbox_events\<close>. JetStream delivers at least once, in any order; a failed handler
  rolls its transaction back. The locale \<open>claim_once\<close> derives, from three laws of one transaction,
  that every delivery after the first committed one is absorbed, whatever happens in between. It is
  interpreted on the capture command handler (BrowserCapture) and on the Knowledge completion
  store (Knowledge).
\<close>

definition claimed :: "string \<Rightarrow> uuid \<Rightarrow> db \<Rightarrow> bool" where
  "claimed consumer event_id d \<longleftrightarrow>
    exists_where (\<lambda>r. ib_consumer_name r = consumer \<and> ib_event_id r = event_id) (inbox d)"

text \<open>One delivery: the transaction commits or leaves the database as it was.\<close>

definition attempt_delivery :: "('c \<Rightarrow> db \<Rightarrow> 'e + 'r \<times> db) \<Rightarrow> db \<Rightarrow> 'c \<Rightarrow> db" where
  "attempt_delivery handle d c = (case handle c d of Inl _ \<Rightarrow> d | Inr (_, d') \<Rightarrow> d')"

definition run_deliveries :: "('c \<Rightarrow> db \<Rightarrow> 'e + 'r \<times> db) \<Rightarrow> db \<Rightarrow> 'c list \<Rightarrow> db" where
  "run_deliveries handle = foldl (attempt_delivery handle)"

lemma run_deliveries_simps [simp]:
  "run_deliveries handle d [] = d"
  "run_deliveries handle d (c # cs) = run_deliveries handle (attempt_delivery handle d c) cs"
  "run_deliveries handle d (cs @ ds) = run_deliveries handle (run_deliveries handle d cs) ds"
  by (simp_all add: run_deliveries_def)

lemma insert_inbox_cases:
  assumes "insert_inbox r d = Inr (first, d')"
  shows "first \<longleftrightarrow> \<not> claimed (ib_consumer_name r) (ib_event_id r) d"
    and "d' = (if first then d\<lparr>inbox := inbox d @ [r]\<rparr> else d)"
  using assms by (auto simp: insert_inbox_def claimed_def split: if_splits)

lemma insert_inbox_eq:
  "ib_handler_outcome r \<in> set HANDLER_OUTCOMES \<Longrightarrow> insert_inbox r d =
    (if claimed (ib_consumer_name r) (ib_event_id r) d then Inr (False, d)
     else Inr (True, d\<lparr>inbox := inbox d @ [r]\<rparr>))"
  by (simp add: insert_inbox_def claimed_def)

lemma claimed_append [simp]:
  "claimed k e (d\<lparr>inbox := inbox d @ [r]\<rparr>) \<longleftrightarrow>
    claimed k e d \<or> ib_consumer_name r = k \<and> ib_event_id r = e"
  by (auto simp: claimed_def exists_where_def)

locale claim_once =
  fixes handle :: "'c \<Rightarrow> db \<Rightarrow> 'e + 'r \<times> db"
    and consumer :: string
    and event :: "'c \<Rightarrow> uuid"
    and duplicate :: 'r
  assumes claims: "handle c d = Inr (r, d') \<Longrightarrow> claimed consumer (event c) d'"
    and repeats: "claimed consumer (event c) d \<Longrightarrow> handle c d = Inr (duplicate, d)"
    and keeps: "handle c d = Inr (r, d') \<Longrightarrow> claimed consumer e d \<Longrightarrow> claimed consumer e d'"
begin

lemma attempt_keeps: "claimed consumer e d \<Longrightarrow> claimed consumer e (attempt_delivery handle d c)"
  by (auto simp: attempt_delivery_def split: sum.splits intro: keeps)

lemma attempt_repeats: "claimed consumer (event c) d \<Longrightarrow> attempt_delivery handle d c = d"
  by (simp add: attempt_delivery_def repeats)

lemma run_absorbs:
  "claimed consumer e d \<Longrightarrow>
    run_deliveries handle d cs = run_deliveries handle d (filter (\<lambda>c. event c \<noteq> e) cs)"
  by (induction cs arbitrary: d) (auto simp: attempt_repeats attempt_keeps)

lemma redelivery_absorbed:
  assumes "handle c (run_deliveries handle d before) = Inr (r, d')"
  shows "run_deliveries handle d (before @ c # after)
    = run_deliveries handle d' (filter (\<lambda>x. event x \<noteq> event c) after)"
  using assms run_absorbs [OF claims [OF assms]] by (simp add: attempt_delivery_def)

lemma run_claims:
  assumes "handle c (run_deliveries handle d before) = Inr (r, d')"
  shows "claimed consumer (event c) (run_deliveries handle d (before @ c # after))"
proof -
  have "claimed consumer e a \<Longrightarrow> claimed consumer e (run_deliveries handle a cs)" for e a cs
    by (induction cs arbitrary: a) (auto simp: attempt_keeps)
  then show ?thesis using assms claims [OF assms] by (simp add: attempt_delivery_def)
qed

end

end
