(* ===== verification/BrowserCapture.thy ===== *)
theory BrowserCapture
  imports Capture Inbox
begin

text \<open>
  \<^verbatim>\<open>capture_reporting.rs\<close>, \<^verbatim>\<open>browser_capture_command.rs\<close> and \<^verbatim>\<open>browser_capture_inbox.rs\<close>: Platform capture
  commands are decoded, validated, and delivered once through the durable inbox together with a
  queued (or failed) operation report. The locale \<open>claim_once\<close> is the contract of a consumer that
  deduplicates by an inbox row.
\<close>

section \<open>Operation reports\<close>

definition OPERATION_REPORT_EVENT :: string where
  "OPERATION_REPORT_EVENT = ''platform.operation.reported.v1''"

datatype report_aggregate =
    CaptureAggregate uuid
  | OperationAggregate

record report_target =
  rt_owner :: uuid
  rt_operation_id :: uuid
  rt_command_id :: uuid
  rt_aggregate :: report_aggregate

text \<open>\<open>ReportSerialization\<close> is the failure of reading canonical JSON back; canonical JSON always parses,
  so no step below raises it.\<close>

datatype report_error =
    ReportContract string
  | ReportSerialization string
  | ReportPersistence sqlx_error

definition aggregate_of :: "report_target \<Rightarrow> string \<times> uuid" where
  "aggregate_of target = (case rt_aggregate target of
      CaptureAggregate capture_id \<Rightarrow> (''capture'', capture_id)
    | OperationAggregate \<Rightarrow> (''operation'', rt_operation_id target))"

definition append_report :: "env \<Rightarrow> report_target \<Rightarrow> operation_reported \<Rightarrow> db \<Rightarrow> report_error + db" where
  "append_report E target report d =
    (let (event_id, d) = now_v7 E d;
         (aggregate_type, aggregate_id) = aggregate_of target;
         aggregate = aggregate_type @ '':'' @ uuid_text E aggregate_id;
         envelope = \<lparr>rep_producer = PRODUCER, rep_owner = rt_owner target,
           rep_operation = rt_operation_id target, rep_aggregate = aggregate,
           rep_command = rt_command_id target, rep_event = event_id, rep_report = report\<rparr> in
     bindE (contract E ReportContract (EntityRefV aggregate)) (\<lambda>_.
     bindE (contract E ReportContract (ReportEnvelopeV envelope)) (\<lambda>_.
     map_err ReportPersistence (insert_outbox
       (outbox_entry E event_id OPERATION_REPORT_EVENT aggregate_type aggregate_id
         (ReportPayload envelope) (Some (rt_operation_id target)) (Some (rt_command_id target))) d))))"

text \<open>\<^verbatim>\<open>queued_report\<close>, \<^verbatim>\<open>preserved_report\<close> and \<^verbatim>\<open>unavailable_report\<close> of the contract crate.\<close>

definition make_report :: "env \<Rightarrow> operation_reported \<Rightarrow> report_error + operation_reported" where
  "make_report E report = bindE (contract E ReportContract (ReportV report)) (\<lambda>_. Inr report)"

fun reports :: "outbox_payload \<Rightarrow> operation_reported option" where
  "reports (ReportPayload envelope) = Some (rep_report envelope)"
| "reports (EventPayload envelope) = None"

definition is_report :: "operation_reported \<Rightarrow> outbox_row \<Rightarrow> bool" where
  "is_report report row \<longleftrightarrow> ob_event_type row = OPERATION_REPORT_EVENT \<and>
    reports (ob_payload row) = Some report"

lemma append_report_effect:
  assumes "append_report E target report d = Inr d'"
  obtains row where "d' = d\<lparr>minted := Suc (minted d), outbox := outbox d @ [row]\<rparr>"
    "is_report report row" "(ob_aggregate_type row, ob_aggregate_id row) = aggregate_of target"
    "ob_correlation_id row = Some (rt_operation_id target)"
    "ob_causation_id row = Some (rt_command_id target)" "ob_published_at row = None"
  using assms
  by (auto simp: append_report_def Let_def now_v7_def insert_outbox_def outbox_entry_def is_report_def
      split: if_splits prod.splits)

lemma append_report_schema [schema_intros]:
  "append_report E target report d = Inr d' \<Longrightarrow> schema_ok d \<Longrightarrow> schema_ok d'"
  by (auto simp: append_report_def Let_def now_v7_def split: prod.splits intro: schema_intros)

section \<open>Commands\<close>

record browser_capture_command =
  bc_command_id :: uuid
  bc_user_ref :: uuid
  bc_operation_id :: uuid
  bc_idempotency_key :: string
  bc_original_permalink :: string
  bc_canonical_permalink :: string
  bc_captured_at :: instant
  bc_acquisition :: contract_acquisition
  bc_saved_authority :: contract_authority

record rejected_command =
  rj_command_id :: uuid
  rj_user_ref :: uuid
  rj_operation_id :: uuid

datatype browser_capture_command_error =
    Malformed string
  | WrongProvider
  | InvalidAcquisition
  | InvalidSavedAuthority
  | MissingTenant
  | InvalidPermalink
  | InvalidCapturedAt
  | UnsupportedIdempotencyDigest

datatype intake_outcome =
    IntakeAccepted browser_capture_command
  | IntakeRejected rejected_command browser_capture_command_error
  | IntakeInvalid browser_capture_command_error

fun is_attributable :: "browser_capture_command_error \<Rightarrow> bool" where
  "is_attributable InvalidAcquisition = True"
| "is_attributable InvalidSavedAuthority = True"
| "is_attributable InvalidPermalink = True"
| "is_attributable InvalidCapturedAt = True"
| "is_attributable UnsupportedIdempotencyDigest = True"
| "is_attributable _ = False"

definition attribute_command :: "command_envelope \<Rightarrow> rejected_command option" where
  "attribute_command envelope = (case cmd_payload envelope of
      Inl _ \<Rightarrow> None
    | Inr payload \<Rightarrow> (case cmd_tenant_id envelope of
        None \<Rightarrow> None
      | Some user_ref \<Rightarrow> Some \<lparr>rj_command_id = cmd_command_id envelope, rj_user_ref = user_ref,
          rj_operation_id = req_operation_id payload\<rparr>))"

text \<open>\<open>rfc3339\<close> is chrono's \<^verbatim>\<open>DateTime::parse_from_rfc3339\<close>, in nanoseconds; \<^verbatim>\<open>trunc_subsecs(6)\<close> keeps the
  microseconds.\<close>

definition parse_command ::
  "(string \<Rightarrow> int option) \<Rightarrow> command_envelope \<Rightarrow> browser_capture_command_error + browser_capture_command" where
  "parse_command rfc3339 envelope =
    bindE (map_err Malformed (cmd_payload envelope)) (\<lambda>payload.
    if req_provider payload \<noteq> Threads then Inl WrongProvider
    else if req_acquisition payload \<noteq> BrowserExtension then Inl InvalidAcquisition
    else if req_saved_authority payload \<noteq> ExplicitUserCapture then Inl InvalidSavedAuthority else
    bindE (ok_or MissingTenant (cmd_tenant_id envelope)) (\<lambda>user_ref.
    bindE (map_err (\<lambda>_. InvalidPermalink) (try_from (req_original_permalink payload))) (\<lambda>canonicalized.
    bindE (ok_or InvalidCapturedAt (rfc3339 (req_captured_at payload))) (\<lambda>nanos.
    bindE (case req_digest_algorithm payload of
        Sha256 \<Rightarrow> Inr (''sha256:'' @ req_digest_hex payload)
      | OtherDigest _ \<Rightarrow> Inl UnsupportedIdempotencyDigest) (\<lambda>idempotency_key.
    Inr \<lparr>bc_command_id = cmd_command_id envelope, bc_user_ref = user_ref,
      bc_operation_id = req_operation_id payload, bc_idempotency_key = idempotency_key,
      bc_original_permalink = req_original_permalink payload,
      bc_canonical_permalink = as_str (canonicalized_url.permalink canonicalized),
      bc_captured_at = nanos div 1000, bc_acquisition = req_acquisition payload,
      bc_saved_authority = req_saved_authority payload\<rparr>)))))"

definition intake ::
  "(bytes \<Rightarrow> string + command_envelope) \<Rightarrow> (string \<Rightarrow> int option) \<Rightarrow> bytes \<Rightarrow> intake_outcome" where
  "intake from_json rfc3339 bs = (case from_json bs of
      Inl e \<Rightarrow> IntakeInvalid (Malformed e)
    | Inr envelope \<Rightarrow> (case parse_command rfc3339 envelope of
        Inr command \<Rightarrow> IntakeAccepted command
      | Inl reason \<Rightarrow> if is_attributable reason then
            (case attribute_command envelope of
               Some command \<Rightarrow> IntakeRejected command reason
             | None \<Rightarrow> IntakeInvalid reason)
          else IntakeInvalid reason))"

section \<open>The inbox\<close>

definition CONSUMER_NAME :: string where
  "CONSUMER_NAME = ''threads_browser_capture''"

datatype browser_capture_delivery =
    DeliveryAccepted uuid
  | DeliveryRejected
  | DeliveryDuplicate

datatype browser_capture_inbox_error =
    InboxPersistence persistence_error
  | InboxSerialization string
  | InboxContract string

fun from_report_error :: "report_error \<Rightarrow> browser_capture_inbox_error" where
  "from_report_error (ReportContract e) = InboxContract e"
| "from_report_error (ReportSerialization e) = InboxSerialization e"
| "from_report_error (ReportPersistence e) = InboxPersistence (Query e)"

definition claim_delivery :: "env \<Rightarrow> uuid \<Rightarrow> string \<Rightarrow> db \<Rightarrow> persistence_error + bool \<times> db" where
  "claim_delivery E command_id outcome d = map_err Query (insert_inbox
    \<lparr>ib_consumer_name = CONSUMER_NAME, ib_event_id = command_id, ib_consumed_at = now E,
     ib_handler_outcome = outcome\<rparr> d)"

definition delivered_row :: "env \<Rightarrow> browser_capture_command \<Rightarrow> uuid \<Rightarrow> capture_row" where
  "delivered_row E command capture_id =
    \<lparr>cp_capture_id = capture_id, cp_user_ref = bc_user_ref command, cp_post_id = None,
     cp_idempotency_key = bc_idempotency_key command,
     cp_canonical_url = bc_canonical_permalink command, cp_original_url = bc_original_permalink command,
     cp_acquisition_method = ''browser_extension'', cp_saved_authority = ''explicit_user_capture'',
     cp_client_source = ''browser_extension'', cp_status = ''accepted'', cp_note = None,
     cp_captured_at = bc_captured_at command, cp_next_resolution_at = Some (now E),
     cp_operation_id = Some (bc_operation_id command), cp_command_id = Some (bc_command_id command),
     cp_resolution_attempts = 0, cp_operation_reported_at = None\<rparr>"

text \<open>\<^verbatim>\<open>insert ... on conflict (user_ref, idempotency_key) do update set capture_id = captures.capture_id\<close>:
  an existing capture keeps all its columns.\<close>

definition upsert_delivered :: "env \<Rightarrow> browser_capture_command \<Rightarrow> db \<Rightarrow> sqlx_error + uuid \<times> db" where
  "upsert_delivered E command d =
    (let (capture_id, d) = now_v7 E d in
     case replay_row (bc_user_ref command) (bc_idempotency_key command) d of
       Some existing \<Rightarrow> Inr (cp_capture_id existing, d)
     | None \<Rightarrow> bindE (insert_capture (delivered_row E command capture_id) d) (\<lambda>d. Inr (capture_id, d)))"

definition deliver ::
  "env \<Rightarrow> browser_capture_command \<Rightarrow> db \<Rightarrow> browser_capture_inbox_error + browser_capture_delivery \<times> db" where
  "deliver E command d =
    bindE (map_err InboxPersistence (claim_delivery E (bc_command_id command) ''processed'' d))
      (\<lambda>(first, d).
    if \<not> first then Inr (DeliveryDuplicate, d) else
    bindE (map_err (InboxPersistence \<circ> Query) (upsert_delivered E command d)) (\<lambda>(capture_id, d).
    let target = \<lparr>rt_owner = bc_user_ref command, rt_operation_id = bc_operation_id command,
          rt_command_id = bc_command_id command, rt_aggregate = CaptureAggregate capture_id\<rparr> in
    bindE (map_err from_report_error (make_report E (QueuedReport (bc_operation_id command)))) (\<lambda>queued.
    bindE (map_err from_report_error (append_report E target queued d)) (\<lambda>d.
    Inr (DeliveryAccepted capture_id, d)))))"

definition reject ::
  "env \<Rightarrow> rejected_command \<Rightarrow> db \<Rightarrow> browser_capture_inbox_error + browser_capture_delivery \<times> db" where
  "reject E command d =
    bindE (map_err InboxPersistence (claim_delivery E (rj_command_id command) ''rejected'' d))
      (\<lambda>(first, d).
    if \<not> first then Inr (DeliveryDuplicate, d) else
    let target = \<lparr>rt_owner = rj_user_ref command, rt_operation_id = rj_operation_id command,
          rt_command_id = rj_command_id command, rt_aggregate = OperationAggregate\<rparr> in
    bindE (map_err from_report_error
      (make_report E (UnavailableReport (rj_operation_id command) SourceInaccessible))) (\<lambda>failed.
    bindE (map_err from_report_error (append_report E target failed d)) (\<lambda>d.
    Inr (DeliveryRejected, d))))"


text \<open>The two commands the handler of \<^verbatim>\<open>nats.rs\<close> dispatches on, each run in the environment of its own
  delivery.\<close>

definition handle_command ::
  "env \<times> (browser_capture_command + rejected_command) \<Rightarrow> db
    \<Rightarrow> browser_capture_inbox_error + browser_capture_delivery \<times> db" where
  "handle_command = (\<lambda>(E, command). case command of Inl c \<Rightarrow> deliver E c | Inr c \<Rightarrow> reject E c)"

definition command_id_of :: "env \<times> (browser_capture_command + rejected_command) \<Rightarrow> uuid" where
  "command_id_of = (\<lambda>(E, command). case command of Inl c \<Rightarrow> bc_command_id c | Inr c \<Rightarrow> rj_command_id c)"

section \<open>Lemmas\<close>

definition processed_claim :: "env \<Rightarrow> uuid \<Rightarrow> inbox_row" where
  "processed_claim E command_id = \<lparr>ib_consumer_name = CONSUMER_NAME, ib_event_id = command_id,
    ib_consumed_at = now E, ib_handler_outcome = ''processed''\<rparr>"

definition is_queued :: "uuid \<Rightarrow> outbox_row \<Rightarrow> bool" where
  "is_queued operation row \<longleftrightarrow> reports (ob_payload row) = Some (QueuedReport operation)"

lemma claim_delivery_eq:
  assumes "outcome \<in> set HANDLER_OUTCOMES"
  shows "claim_delivery E command_id outcome d =
    (if claimed CONSUMER_NAME command_id d then Inr (False, d)
     else Inr (True, d\<lparr>inbox := inbox d @ [\<lparr>ib_consumer_name = CONSUMER_NAME,
       ib_event_id = command_id, ib_consumed_at = now E, ib_handler_outcome = outcome\<rparr>]\<rparr>))"
  using assms by (simp add: claim_delivery_def insert_inbox_eq)

lemma delivery_outcomes [simp]:
  "''processed'' \<in> set HANDLER_OUTCOMES" "''rejected'' \<in> set HANDLER_OUTCOMES"
  by (simp_all add: HANDLER_OUTCOMES_def)

lemma claimed_other [simp]:
  "claimed k e (d\<lparr>minted := n\<rparr>) = claimed k e d"
  "claimed k e (d\<lparr>outbox := rows\<rparr>) = claimed k e d"
  "claimed k e (d\<lparr>captures := rows'\<rparr>) = claimed k e d"
  by (simp_all add: claimed_def)

lemma upsert_delivered_cases:
  assumes "upsert_delivered E command d = Inr (capture_id, d')"
  obtains (existing) row where
    "replay_row (bc_user_ref command) (bc_idempotency_key command) d = Some row"
    "capture_id = cp_capture_id row" "d' = d\<lparr>minted := Suc (minted d)\<rparr>"
  | (created) "replay_row (bc_user_ref command) (bc_idempotency_key command) d = None"
    "capture_id = mint E (minted d)"
    "d' = d\<lparr>minted := Suc (minted d), captures := captures d @ [delivered_row E command capture_id]\<rparr>"
    "insert_capture (delivered_row E command capture_id) (d\<lparr>minted := Suc (minted d)\<rparr>) = Inr d'"
  using assms
  by (auto simp: upsert_delivered_def now_v7_def replay_row_def insert_capture_def
      split: option.splits if_splits)

lemma deliver_cases:
  assumes "deliver E command d = Inr (result, d')"
  obtains (duplicate) "claimed CONSUMER_NAME (bc_command_id command) d" "result = DeliveryDuplicate" "d' = d"
  | (first) capture_id d1 d2 where "\<not> claimed CONSUMER_NAME (bc_command_id command) d"
    "d1 = d\<lparr>inbox := inbox d @ [\<lparr>ib_consumer_name = CONSUMER_NAME,
       ib_event_id = bc_command_id command, ib_consumed_at = now E, ib_handler_outcome = ''processed''\<rparr>]\<rparr>"
    "upsert_delivered E command d1 = Inr (capture_id, d2)"
    "append_report E \<lparr>rt_owner = bc_user_ref command, rt_operation_id = bc_operation_id command,
       rt_command_id = bc_command_id command, rt_aggregate = CaptureAggregate capture_id\<rparr>
       (QueuedReport (bc_operation_id command)) d2 = Inr d'"
    "result = DeliveryAccepted capture_id"
proof (cases "claimed CONSUMER_NAME (bc_command_id command) d")
  case True
  then have "result = DeliveryDuplicate" "d' = d"
    using assms by (simp_all add: deliver_def claim_delivery_eq)
  then show ?thesis by (rule duplicate [OF True])
next
  case False
  then show ?thesis using assms
    apply (clarsimp simp: deliver_def claim_delivery_eq make_report_def Let_def)
    apply (rule first [OF _ refl]; assumption?)
    done
qed

lemma reject_cases:
  assumes "reject E command d = Inr (result, d')"
  obtains (duplicate) "claimed CONSUMER_NAME (rj_command_id command) d" "result = DeliveryDuplicate" "d' = d"
  | (first) d1 where "\<not> claimed CONSUMER_NAME (rj_command_id command) d"
    "d1 = d\<lparr>inbox := inbox d @ [\<lparr>ib_consumer_name = CONSUMER_NAME,
       ib_event_id = rj_command_id command, ib_consumed_at = now E, ib_handler_outcome = ''rejected''\<rparr>]\<rparr>"
    "append_report E \<lparr>rt_owner = rj_user_ref command, rt_operation_id = rj_operation_id command,
       rt_command_id = rj_command_id command, rt_aggregate = OperationAggregate\<rparr>
       (UnavailableReport (rj_operation_id command) SourceInaccessible) d1 = Inr d'"
    "result = DeliveryRejected"
  using assms
  by (auto simp: reject_def claim_delivery_eq make_report_def Let_def split: if_splits)

lemma append_report_claimed [simp]:
  "append_report E target report d = Inr d' \<Longrightarrow> claimed k e d' = claimed k e d"
  by (erule append_report_effect) (simp add: claimed_def)

lemma upsert_delivered_claimed [simp]:
  "upsert_delivered E command d = Inr (c, d') \<Longrightarrow> claimed k e d' = claimed k e d"
  by (erule upsert_delivered_cases) (simp_all add: claimed_def)

lemma claim_delivery_schema [schema_intros]:
  "claim_delivery E c out d = Inr (b, d') \<Longrightarrow> schema_ok d \<Longrightarrow> schema_ok d'"
  by (simp add: claim_delivery_def schema_ok_insert_inbox)

lemma upsert_delivered_schema [schema_intros]:
  "upsert_delivered E command d = Inr (c, d') \<Longrightarrow> schema_ok d \<Longrightarrow> schema_ok d'"
  by (erule upsert_delivered_cases) (auto dest: schema_ok_insert_capture)

lemma deliver_schema [schema_intros]:
  assumes "deliver E command d = Inr (result, d')" "schema_ok d"
  shows "schema_ok d'"
  using assms(1)
proof (cases rule: deliver_cases)
  case (first capture_id d1 d2)
  have "schema_ok d1"
    by (rule claim_delivery_schema [of E "bc_command_id command" "''processed''" d True])
      (simp_all add: first(1,2) claim_delivery_eq assms(2))
  then have "schema_ok d2" by (rule upsert_delivered_schema [OF first(3)])
  then show ?thesis by (rule append_report_schema [OF first(4)])
qed (simp add: assms(2))

lemma reject_schema [schema_intros]:
  assumes "reject E command d = Inr (result, d')" "schema_ok d"
  shows "schema_ok d'"
  using assms
  by (auto simp: reject_def claim_delivery_def make_report_def Let_def split: if_splits
      intro: schema_intros)

interpretation command_inbox:
  claim_once handle_command CONSUMER_NAME command_id_of DeliveryDuplicate
proof
  show "claimed CONSUMER_NAME (command_id_of c) d'" if "handle_command c d = Inr (r, d')" for c d r d'
    using that by (cases c; cases "snd c") (auto simp: handle_command_def command_id_of_def
        elim!: deliver_cases reject_cases)
  show "handle_command c d = Inr (DeliveryDuplicate, d)" if "claimed CONSUMER_NAME (command_id_of c) d" for c d
    using that by (cases c; cases "snd c")
      (auto simp: handle_command_def command_id_of_def deliver_def reject_def claim_delivery_eq)
  show "claimed CONSUMER_NAME e d'" if "handle_command c d = Inr (r, d')" "claimed CONSUMER_NAME e d" for c d r d' e
    using that by (cases c; cases "snd c") (auto simp: handle_command_def elim!: deliver_cases reject_cases)
qed


lemma parse_command_refusal:
  assumes "parse_command rfc3339 envelope = Inl reason" "cmd_payload envelope = Inr payload"
    "req_provider payload = Threads" "cmd_tenant_id envelope = Some user_ref"
  shows "is_attributable reason"
  using assms
  by (auto simp: parse_command_def bindE_eq_Inl map_err_eq_Inl ok_or_def
      split: if_splits option.splits digest_algorithm.splits)

lemma parse_command_owned:
  assumes "parse_command rfc3339 envelope = Inr command"
  obtains payload where "cmd_payload envelope = Inr payload" "req_provider payload = Threads"
    "cmd_tenant_id envelope = Some (bc_user_ref command)"
    "bc_operation_id command = req_operation_id payload" "bc_command_id command = cmd_command_id envelope"
    "bc_idempotency_key command = ''sha256:'' @ req_digest_hex payload"
  using assms by (auto simp: parse_command_def split: if_splits digest_algorithm.splits)

lemma parse_command_other_provider:
  assumes "parse_command rfc3339 envelope = Inl reason" "cmd_payload envelope = Inr payload"
    "is_attributable reason"
  shows "req_provider payload = Threads"
  using assms by (cases "req_provider payload = Threads") (auto simp: parse_command_def)

text \<open>Who is waiting for an answer to a broker payload: command, owner and operation of a decodable
  Threads command that names its owner.\<close>

definition waiting ::
  "(bytes \<Rightarrow> string + command_envelope) \<Rightarrow> bytes \<Rightarrow> (uuid \<times> uuid \<times> uuid) option" where
  "waiting from_json bs = (case from_json bs of
      Inl _ \<Rightarrow> None
    | Inr envelope \<Rightarrow> (case (cmd_payload envelope, cmd_tenant_id envelope) of
        (Inr payload, Some user_ref) \<Rightarrow> if req_provider payload = Threads
          then Some (cmd_command_id envelope, user_ref, req_operation_id payload) else None
      | _ \<Rightarrow> None))"

fun answered :: "intake_outcome \<Rightarrow> (uuid \<times> uuid \<times> uuid) option" where
  "answered (IntakeAccepted c) = Some (bc_command_id c, bc_user_ref c, bc_operation_id c)"
| "answered (IntakeRejected c reason) = Some (rj_command_id c, rj_user_ref c, rj_operation_id c)"
| "answered (IntakeInvalid reason) = None"

text \<open>Claim C23: the intake answers exactly the commands somebody is waiting on. A decodable Threads
  command with an owner is accepted or rejected under its own command, owner and operation; only
  undecodable input, another provider's command and a command without an owner are dropped.\<close>

theorem intake_answers_exactly_the_waiting:
  "answered (intake from_json rfc3339 bs) = waiting from_json bs"
proof (cases "from_json bs")
  case (Inr envelope)
  show ?thesis
  proof (cases "parse_command rfc3339 envelope")
    case (Inl reason)
    then show ?thesis
    proof (cases "is_attributable reason")
      case True
      then show ?thesis using Inr Inl parse_command_other_provider [OF Inl]
        by (auto simp: intake_def waiting_def attribute_command_def split: sum.splits option.splits)
    next
      case False
      then show ?thesis using Inr Inl parse_command_refusal [OF Inl]
        by (auto simp: intake_def waiting_def split: sum.splits option.splits)
    qed
  qed (use Inr in \<open>auto simp: intake_def waiting_def elim!: parse_command_owned\<close>)
qed (simp add: intake_def waiting_def)

text \<open>Claim C3: whatever deliveries precede and follow, once a command has been handled every later
  delivery of the same command is absorbed: the final database is the one in which those
  redeliveries never arrived. A redelivery therefore creates no capture and no report.\<close>

theorem command_redelivery_absorbed:
  assumes "handle_command c (run_deliveries handle_command d before) = Inr (r, d')"
  shows "run_deliveries handle_command d (before @ c # after)
    = run_deliveries handle_command d' (filter (\<lambda>x. command_id_of x \<noteq> command_id_of c) after)"
  using assms by (rule command_inbox.redelivery_absorbed)

definition sample_command :: browser_capture_command where
  "sample_command = \<lparr>bc_command_id = 7, bc_user_ref = 1, bc_operation_id = 8,
    bc_idempotency_key = ''sha256:00'',
    bc_original_permalink = ''https://www.threads.net/@a/post/B'',
    bc_canonical_permalink = ''https://www.threads.com/@a/post/B'',
    bc_captured_at = 5, bc_acquisition = BrowserExtension, bc_saved_authority = ExplicitUserCapture\<rparr>"

text \<open>Two redeliveries of the sample command, the second in a later environment.\<close>

theorem command_redelivery_absorbed_witness:
  "run_deliveries handle_command empty_db [(sample_env 10, Inl sample_command),
      (sample_env 20, Inl sample_command), (sample_env 30, Inl sample_command)]
    = snd (projr (handle_command (sample_env 10, Inl sample_command) empty_db))
   \<and> length (outbox (snd (projr (handle_command (sample_env 10, Inl sample_command) empty_db)))) = 1"
proof -
  have eq: "handle_command (sample_env 10, Inl sample_command) empty_db
    = Inr (DeliveryAccepted 100, snd (projr (handle_command (sample_env 10, Inl sample_command) empty_db)))"
    by code_simp
  have "length (outbox (snd (projr (handle_command (sample_env 10, Inl sample_command) empty_db)))) = 1"
    by code_simp
  then show ?thesis
    using command_redelivery_absorbed [of "(sample_env 10, Inl sample_command)" empty_db "[]"
        "DeliveryAccepted 100" _ "[(sample_env 20, Inl sample_command), (sample_env 30, Inl sample_command)]"] eq
    by (simp add: command_id_of_def)
qed

text \<open>Claim C24: the first delivery of an accepted command commits one inbox row, one queued report
  filed under the capture, and the capture itself: a new accepted row that is due at once, or the
  row the owner already has under the same idempotency key, untouched. Nothing else changes.\<close>

theorem deliver_commits_atomically:
  assumes "deliver E command d = Inr (DeliveryAccepted capture_id, d')"
  shows "\<exists>report.
    d' = d\<lparr>inbox := inbox d @ [processed_claim E (bc_command_id command)], captures := captures d',
      outbox := outbox d @ [report], minted := minted d + 2\<rparr> \<and>
    is_report (QueuedReport (bc_operation_id command)) report \<and>
    ob_aggregate_type report = ''capture'' \<and> ob_aggregate_id report = capture_id \<and>
    (case replay_row (bc_user_ref command) (bc_idempotency_key command) d of
       Some row \<Rightarrow> captures d' = captures d \<and> cp_capture_id row = capture_id
     | None \<Rightarrow> captures d' = captures d @ [delivered_row E command capture_id])"
  using assms
proof (cases rule: deliver_cases)
  case (first k d1 d2)
  obtain report where r: "d' = d2\<lparr>minted := Suc (minted d2), outbox := outbox d2 @ [report]\<rparr>"
    "is_report (QueuedReport (bc_operation_id command)) report"
    "(ob_aggregate_type report, ob_aggregate_id report) = (''capture'', k)"
    using append_report_effect [OF first(4)] by (auto simp: aggregate_of_def)
  from first(3) show ?thesis
  proof (cases rule: upsert_delivered_cases)
    case (existing row)
    then show ?thesis using first(2,5) r
      by (intro exI [of _ report]) (auto simp: replay_row_def processed_claim_def)
  next
    case created
    then show ?thesis using first(2,5) r
      by (intro exI [of _ report]) (auto simp: replay_row_def processed_claim_def)
  qed
qed simp

theorem deliver_commits_atomically_witness:
  "\<exists>d'. deliver (sample_env 10) sample_command empty_db = Inr (DeliveryAccepted 100, d')
    \<and> captures d' = [delivered_row (sample_env 10) sample_command 100] \<and> minted d' = 2"
proof -
  have "deliver (sample_env 10) sample_command empty_db
    = Inr (DeliveryAccepted 100, snd (projr (deliver (sample_env 10) sample_command empty_db)))"
    by code_simp
  from this deliver_commits_atomically [OF this] show ?thesis
    by (auto simp: replay_row_def empty_db_def)
qed



end
