(* ===== verification/CaptureResolution.thy ===== *)
theory CaptureResolution
  imports PublicResolution BrowserCapture
begin

text \<open>
  \<^verbatim>\<open>capture_resolution.rs\<close>: the resolver pass. It claims due captures under a lease, resolves each
  through the public client, classifies every failure, retries transient ones on a bounded schedule
  and queues exactly one terminal report per operation. Each archive transaction commits on its own,
  so a pass runs over a \<open>world\<close> (database and disk) that keeps what was committed before an error.
\<close>

section \<open>Classification\<close>

definition CLAIM_LEASE_SECONDS :: int where
  "CLAIM_LEASE_SECONDS = 120"

definition FIRST_RETRY_SECONDS :: int where
  "FIRST_RETRY_SECONDS = 30"

definition LONGEST_RETRY_SECONDS :: int where
  "LONGEST_RETRY_SECONDS = 30 * 60"

datatype resolution =
    ResolutionDeleted
  | ResolutionInaccessible
  | ResolutionTransient

text \<open>\<^verbatim>\<open>StatusCode::is_client_error\<close>.\<close>

definition is_client_error :: "int \<Rightarrow> bool" where
  "is_client_error status \<longleftrightarrow> 400 \<le> status \<and> status < 500"

definition classify_status :: "int \<Rightarrow> resolution" where
  "classify_status status =
    (if status = 404 \<or> status = 410 then ResolutionDeleted
     else if status = 408 \<or> status = 429 \<or> \<not> is_client_error status then ResolutionTransient
     else ResolutionInaccessible)"

fun classify :: "public_resolution_error \<Rightarrow> resolution" where
  "classify (ProviderStatus status) = classify_status status"
| "classify Network = ResolutionTransient"
| "classify ResponseTooLarge = ResolutionTransient"
| "classify InvalidJson = ResolutionInaccessible"
| "classify (MissingField _) = ResolutionInaccessible"
| "classify WrongPostProvider = ResolutionInaccessible"
| "classify PermalinkMismatch = ResolutionInaccessible"
| "classify UnexpectedContentType = ResolutionInaccessible"
| "classify RelationSourceMismatch = ResolutionInaccessible"
| "classify TooManyRelations = ResolutionInaccessible"
| "classify (RelationGraphRefused _) = ResolutionInaccessible"
| "classify UnsupportedEndpoint = ResolutionTransient"
| "classify (RawStorage _) = ResolutionTransient"
| "classify RawDigestMismatch = ResolutionTransient"
| "classify (ResolutionPersistence _) = ResolutionTransient"

fun is_local_fault :: "public_resolution_error \<Rightarrow> bool" where
  "is_local_fault UnsupportedEndpoint = True"
| "is_local_fault (RawStorage _) = True"
| "is_local_fault RawDigestMismatch = True"
| "is_local_fault (ResolutionPersistence _) = True"
| "is_local_fault _ = False"

text \<open>Decimal rendering of an unsigned number.\<close>

function decimal :: "int \<Rightarrow> string" where
  "decimal n = (if n < 10 then [hex_digit (nat n)] else decimal (n div 10) @ [hex_digit (nat (n mod 10))])"
  by pat_completeness auto
termination decimal
  by (relation "measure nat") auto

declare decimal.simps [simp del]

fun reason_code :: "public_resolution_error \<Rightarrow> string" where
  "reason_code (ProviderStatus status) = ''provider_status_'' @ decimal status"
| "reason_code InvalidJson = ''invalid_json''"
| "reason_code (MissingField _) = ''missing_field''"
| "reason_code WrongPostProvider = ''wrong_provider''"
| "reason_code PermalinkMismatch = ''permalink_mismatch''"
| "reason_code UnexpectedContentType = ''unexpected_content_type''"
| "reason_code _ = ''unusable_response''"

section \<open>The retry schedule\<close>

text \<open>\<^verbatim>\<open>i64::saturating_pow\<close> and \<^verbatim>\<open>i64::saturating_mul\<close> on non-negative operands.\<close>

definition saturating_pow :: "int \<Rightarrow> nat \<Rightarrow> int" where
  "saturating_pow b n = min (b ^ n) I64_MAX"

definition saturating_mul :: "int \<Rightarrow> int \<Rightarrow> int" where
  "saturating_mul a b = min (a * b) I64_MAX"

text \<open>\<open>attempt\<close> is a \<^verbatim>\<open>u32\<close>; natural subtraction is \<^verbatim>\<open>saturating_sub\<close>.\<close>

definition retry_delay :: "nat \<Rightarrow> instant" where
  "retry_delay attempt =
    (let factor = saturating_pow 4 (attempt - 1) in
     seconds (min (saturating_mul FIRST_RETRY_SECONDS factor) LONGEST_RETRY_SECONDS))"

section \<open>Types of a pass\<close>

record resolver_policy =
  rp_max_attempts :: nat
  rp_batch_size :: nat
  rp_poll_interval :: instant

record run_summary =
  rn_claimed :: nat
  rn_reported :: nat

datatype resolver_error =
    ResolverPersistence persistence_error
  | ResolverCapture capture_error
  | ResolverLocal public_resolution_error
  | ResolverReport string
  | ResolverSerialization string

fun resolver_report_error :: "report_error \<Rightarrow> resolver_error" where
  "resolver_report_error (ReportContract e) = ResolverReport e"
| "resolver_report_error (ReportSerialization e) = ResolverSerialization e"
| "resolver_report_error (ReportPersistence e) = ResolverPersistence (Query e)"

definition resolver_query :: "sqlx_error \<Rightarrow> resolver_error" where
  "resolver_query e = ResolverPersistence (Query e)"

record due =
  du_capture_id :: uuid
  du_user_ref :: uuid
  du_operation_id :: uuid
  du_command_id :: uuid
  du_canonical_url :: string
  du_status :: string
  du_resolution_attempts :: int

datatype terminal =
    TerminalPreserved
  | TerminalUnavailable source_unavailability

datatype attempt =
    AttemptTerminal terminal
  | AttemptRetry

section \<open>Claiming\<close>

definition is_due :: "instant \<Rightarrow> capture_row \<Rightarrow> bool" where
  "is_due at c \<longleftrightarrow> cp_operation_id c \<noteq> None \<and> cp_command_id c \<noteq> None
    \<and> cp_operation_reported_at c = None
    \<and> (case cp_next_resolution_at c of None \<Rightarrow> False | Some next_at \<Rightarrow> next_at \<le> at)"

definition due_of :: "capture_row \<Rightarrow> due" where
  "due_of c = \<lparr>du_capture_id = cp_capture_id c, du_user_ref = cp_user_ref c,
    du_operation_id = the (cp_operation_id c), du_command_id = the (cp_command_id c),
    du_canonical_url = cp_canonical_url c, du_status = cp_status c,
    du_resolution_attempts = cp_resolution_attempts c\<rparr>"

text \<open>\<open>locked\<close> are the rows other transactions hold; \<^verbatim>\<open>skip locked\<close> passes over them.\<close>

definition due_rows :: "(uuid \<Rightarrow> bool) \<Rightarrow> resolver_policy \<Rightarrow> instant \<Rightarrow> db \<Rightarrow> capture_row list" where
  "due_rows locked policy at d = take (rp_batch_size policy)
    (sort_key (\<lambda>c. (the (cp_next_resolution_at c), cp_capture_id c))
      (filter (\<lambda>c. is_due at c \<and> \<not> locked (cp_capture_id c)) (captures d)))"

definition claim :: "(uuid \<Rightarrow> bool) \<Rightarrow> resolver_policy \<Rightarrow> instant \<Rightarrow> db \<Rightarrow> resolver_error + due list \<times> db" where
  "claim locked policy at d =
    (let rows = map due_of (due_rows locked policy at d) in
     if rows = [] then Inr (rows, d) else
     bindE (map_err resolver_query (update_captures (\<lambda>c. cp_capture_id c \<in> set (map du_capture_id rows))
       (\<lambda>c. c\<lparr>cp_next_resolution_at := Some (at + seconds CLAIM_LEASE_SECONDS)\<rparr>) d)) (\<lambda>d. Inr (rows, d)))"

section \<open>One capture\<close>

type_synonym world = "db \<times> disk"
type_synonym 'a pass = "world \<Rightarrow> (resolver_error + 'a) \<times> world"

definition bindP :: "'a pass \<Rightarrow> ('a \<Rightarrow> 'b pass) \<Rightarrow> 'b pass" where
  "bindP m f w = (case m w of (Inl e, w') \<Rightarrow> (Inl e, w') | (Inr x, w') \<Rightarrow> f x w')"

definition returnP :: "'a \<Rightarrow> 'a pass" where
  "returnP x w = (Inr x, w)"

definition failP :: "resolver_error \<Rightarrow> 'a pass" where
  "failP e w = (Inl e, w)"

text \<open>A transaction commits its database or rolls it back.\<close>

definition transact :: "(db \<Rightarrow> resolver_error + 'a \<times> db) \<Rightarrow> 'a pass" where
  "transact f = (\<lambda>(d, D). case f d of Inl e \<Rightarrow> (Inl e, d, D) | Inr (x, d') \<Rightarrow> (Inr x, d', D))"

definition recorded_terminal :: "resolver_policy \<Rightarrow> due \<Rightarrow> db \<Rightarrow> terminal option" where
  "recorded_terminal policy row d =
    (if du_status row = ''resolved'' then Some TerminalPreserved
     else if du_status row = ''unavailable'' \<or> du_status row = ''failed'' then
       (let avail = map_option tb_availability (latest_by (\<lambda>t. (tb_observed_at t, tb_tombstone_id t))
             (filter (\<lambda>t. tb_capture_id t = Some (du_capture_id row)) (tombstones d))) in
        Some (TerminalUnavailable (if avail = Some ''deleted'' then SourceDeleted else SourceInaccessible)))
     else if 0 \<le> du_resolution_attempts row \<and> nat (du_resolution_attempts row) \<ge> rp_max_attempts policy
       then Some (TerminalUnavailable SourceTransient)
     else None)"

definition observe :: "env \<Rightarrow> due \<Rightarrow> capture_error + unavailability_observation \<Rightarrow> db \<Rightarrow> resolver_error + unit \<times> db" where
  "observe E row observation d =
    bindE (map_err ResolverCapture observation) (\<lambda>observation.
    bindE (map_err ResolverCapture (record_observation E (du_capture_id row) observation d)) (\<lambda>d. Inr ((), d)))"

definition I32_MAX :: int where
  "I32_MAX = 2 ^ 31 - 1"

definition schedule_retry :: "due \<Rightarrow> instant \<Rightarrow> db \<Rightarrow> resolver_error + nat \<times> db" where
  "schedule_retry row at d =
    (let attempts = min (du_resolution_attempts row + 1) I32_MAX;
         attempt = (if attempts < 0 then 2 ^ 32 - 1 else nat attempts) in
     bindE (map_err resolver_query (update_captures (\<lambda>c. cp_capture_id c = du_capture_id row)
       (\<lambda>c. c\<lparr>cp_resolution_attempts := attempts, cp_next_resolution_at := Some (at + retry_delay attempt)\<rparr>) d))
     (\<lambda>d. Inr (attempt, d)))"

definition record_transient_failure :: "env \<Rightarrow> resolver_policy \<Rightarrow> due \<Rightarrow> instant \<Rightarrow> attempt pass" where
  "record_transient_failure E policy row at =
    bindP (transact (observe E row (resolver_failed PARSER_VERSION))) (\<lambda>_.
    bindP (transact (schedule_retry row at)) (\<lambda>attempt.
    returnP (if attempt \<ge> rp_max_attempts policy
      then AttemptTerminal (TerminalUnavailable SourceTransient) else AttemptRetry)))"

text \<open>\<^verbatim>\<open>resolve_and_record\<close> on the world: the disk keeps what was written, the database only a commit.\<close>

definition resolve_world ::
  "env \<Rightarrow> (string \<Rightarrow> json option) \<Rightarrow> (string \<Rightarrow> http_response option) \<Rightarrow> uuid \<Rightarrow> permalink
    \<Rightarrow> world \<Rightarrow> (public_resolution_error + stored_resolution) \<times> world" where
  "resolve_world E from_str http capture_id link = (\<lambda>(d, D).
    case resolve_and_record E from_str http capture_id link d D of
      (Inl e, D') \<Rightarrow> (Inl e, d, D')
    | (Inr (st, d'), D') \<Rightarrow> (Inr st, d', D'))"

definition attempt_capture ::
  "env \<Rightarrow> (string \<Rightarrow> json option) \<Rightarrow> (string \<Rightarrow> http_response option) \<Rightarrow> resolver_policy \<Rightarrow> due \<Rightarrow> instant
    \<Rightarrow> attempt pass" where
  "attempt_capture E from_str http policy row at =
    (case try_from (du_canonical_url row) of
       Inl _ \<Rightarrow> bindP (transact (observe E row (private_or_inaccessible ''invalid_permalink''))) (\<lambda>_.
         returnP (AttemptTerminal (TerminalUnavailable SourceInaccessible)))
     | Inr canonical \<Rightarrow> (\<lambda>w.
         case resolve_world E from_str http (du_capture_id row) (canonicalized_url.permalink canonical) w of
           (Inr _, w) \<Rightarrow> returnP (AttemptTerminal TerminalPreserved) w
         | (Inl e, w) \<Rightarrow>
             if is_local_fault e then failP (ResolverLocal e) w
             else (case classify e of
               ResolutionDeleted \<Rightarrow> bindP (transact (observe E row (deleted (reason_code e)))) (\<lambda>_.
                 returnP (AttemptTerminal (TerminalUnavailable SourceDeleted))) w
             | ResolutionInaccessible \<Rightarrow>
                 bindP (transact (observe E row (private_or_inaccessible (reason_code e)))) (\<lambda>_.
                 returnP (AttemptTerminal (TerminalUnavailable SourceInaccessible))) w
             | ResolutionTransient \<Rightarrow> record_transient_failure E policy row at w)))"

definition stored_source :: "env \<Rightarrow> due \<Rightarrow> uuid option \<Rightarrow> db \<Rightarrow> resolver_error + uuid option" where
  "stored_source E row post_id d =
    (case Option.bind post_id (\<lambda>p. social_source_id_for (du_user_ref row) p d) of
       None \<Rightarrow> Inr None
     | Some source \<Rightarrow> bindE (contract E ResolverReport (SocialSourceIdV (uuid_text E source))) (\<lambda>_. Inr (Some source)))"

definition terminal_report :: "env \<Rightarrow> due \<Rightarrow> terminal \<Rightarrow> uuid option \<Rightarrow> db \<Rightarrow> resolver_error + operation_reported" where
  "terminal_report E row terminal post_id d = (case terminal of
      TerminalPreserved \<Rightarrow> bindE (stored_source E row post_id d) (\<lambda>source. Inr (case source of
          Some source \<Rightarrow> PreservedReport (du_operation_id row) source
        | None \<Rightarrow> UnavailableReport (du_operation_id row) SourceInaccessible))
    | TerminalUnavailable reason \<Rightarrow> Inr (UnavailableReport (du_operation_id row) reason))"

definition report_target_of :: "due \<Rightarrow> report_target" where
  "report_target_of row = \<lparr>rt_owner = du_user_ref row, rt_operation_id = du_operation_id row,
    rt_command_id = du_command_id row, rt_aggregate = CaptureAggregate (du_capture_id row)\<rparr>"

definition unreported :: "uuid \<Rightarrow> capture_row \<Rightarrow> bool" where
  "unreported capture_id c \<longleftrightarrow> cp_capture_id c = capture_id \<and> cp_operation_reported_at c = None"

definition mark_reported :: "env \<Rightarrow> capture_row \<Rightarrow> capture_row" where
  "mark_reported E c = c\<lparr>cp_operation_reported_at := Some (now E), cp_next_resolution_at := None\<rparr>"

text \<open>When the guard matches no row the transaction is dropped, which changes nothing.\<close>

definition report :: "env \<Rightarrow> due \<Rightarrow> terminal \<Rightarrow> db \<Rightarrow> resolver_error + bool \<times> db" where
  "report E row terminal d =
    (case List.find (unreported (du_capture_id row)) (captures d) of
       None \<Rightarrow> Inr (False, d)
     | Some c \<Rightarrow>
         bindE (map_err resolver_query (update_captures (unreported (du_capture_id row)) (mark_reported E) d)) (\<lambda>d.
         bindE (terminal_report E row terminal (cp_post_id c) d) (\<lambda>report.
         bindE (map_err resolver_report_error (make_report E report)) (\<lambda>report.
         bindE (map_err resolver_report_error (append_report E (report_target_of row) report d)) (\<lambda>d.
         Inr (True, d))))))"

definition process ::
  "env \<Rightarrow> (string \<Rightarrow> json option) \<Rightarrow> (string \<Rightarrow> http_response option) \<Rightarrow> resolver_policy \<Rightarrow> due \<Rightarrow> instant
    \<Rightarrow> bool pass" where
  "process E from_str http policy row at = (\<lambda>(d, D).
    case recorded_terminal policy row d of
      Some terminal \<Rightarrow> transact (report E row terminal) (d, D)
    | None \<Rightarrow> bindP (attempt_capture E from_str http policy row at) (\<lambda>attempt. case attempt of
          AttemptTerminal terminal \<Rightarrow> transact (report E row terminal)
        | AttemptRetry \<Rightarrow> returnP False) (d, D))"

fun process_all ::
  "env \<Rightarrow> (string \<Rightarrow> json option) \<Rightarrow> (string \<Rightarrow> http_response option) \<Rightarrow> resolver_policy \<Rightarrow> instant
    \<Rightarrow> due list \<Rightarrow> run_summary \<Rightarrow> run_summary pass" where
  "process_all E from_str http policy at [] summary = returnP summary"
| "process_all E from_str http policy at (row # rows) summary =
    bindP (process E from_str http policy row at) (\<lambda>reported.
    process_all E from_str http policy at rows
      (if reported then summary\<lparr>rn_reported := rn_reported summary + 1\<rparr> else summary))"

definition run_due_once ::
  "env \<Rightarrow> (string \<Rightarrow> json option) \<Rightarrow> (string \<Rightarrow> http_response option) \<Rightarrow> (uuid \<Rightarrow> bool) \<Rightarrow> resolver_policy
    \<Rightarrow> instant \<Rightarrow> run_summary pass" where
  "run_due_once E from_str http locked policy at =
    bindP (transact (claim locked policy at)) (\<lambda>rows.
    process_all E from_str http policy at rows \<lparr>rn_claimed = length rows, rn_reported = 0\<rparr>)"


section \<open>Lemmas\<close>

lemma bindP_eq:
  "bindP m f w = (Inr y, w') \<longleftrightarrow> (\<exists>x w1. m w = (Inr x, w1) \<and> f x w1 = (Inr y, w'))"
  by (auto simp: bindP_def split: sum.splits prod.splits)

lemma returnP_eq [simp]: "returnP x w = (r, w') \<longleftrightarrow> r = Inr x \<and> w' = w"
  by (auto simp: returnP_def)

lemma failP_eq [simp]: "failP e w = (r, w') \<longleftrightarrow> r = Inl e \<and> w' = w"
  by (auto simp: failP_def)

lemma transact_eq:
  "transact f (d, D) = (Inr x, w') \<longleftrightarrow> (\<exists>d'. f d = Inr (x, d') \<and> w' = (d', D))"
  "transact f (d, D) = (Inl e, w') \<longleftrightarrow> f d = Inl e \<and> w' = (d, D)"
  by (auto simp: transact_def split: sum.splits prod.splits)

lemma update_captures_Inr:
  "update_captures Q f d = Inr d' \<Longrightarrow> d' = d\<lparr>captures := update_where Q f (captures d)\<rparr>"
  unfolding update_captures_def by (rule checked_bind)

text \<open>Passes never change who a capture belongs to and which operation it carries.\<close>

definition identity :: "capture_row \<Rightarrow> uuid \<times> uuid \<times> uuid option \<times> uuid option \<times> string" where
  "identity c = (cp_capture_id c, cp_user_ref c, cp_operation_id c, cp_command_id c, cp_canonical_url c)"

definition progress :: "capture_row \<Rightarrow> (uuid \<times> uuid \<times> uuid option \<times> uuid option \<times> string) \<times> int \<times> instant option" where
  "progress c = (identity c, cp_resolution_attempts c, cp_operation_reported_at c)"

lemma map_update_keeps: "(\<And>r. k (f r) = k r) \<Longrightarrow> map k (update_where Q f rows) = map k rows"
  by (simp add: update_where_def)

lemma update_where_mem: "x \<in> set (update_where Q f rows) \<Longrightarrow> \<exists>r \<in> set rows. x = (if Q r then f r else r)"
  by (simp only: set_update_where image_iff)

lemma observe_Inr:
  assumes "observe E row obs d = Inr (u, d')"
  obtains o' where "obs = Inr o'" "record_observation E (du_capture_id row) o' d = Inr d'"
  using assms by (auto simp: observe_def)

lemma record_observation_progress:
  assumes "record_observation E k obs d = Inr d'"
  shows "map progress (captures d') = map progress (captures d)"
proof -
  have "captures d' = marked k (captures d) \<or> captures d' = captures d"
    using assms
    by (auto simp: record_observation_def split: if_splits unavailability_observation.splits
        dest!: mark_unavailable_effect record_resolver_failure_effect)
  moreover have "map progress (marked k cs) = map progress cs" for cs
    unfolding marked_def by (rule map_update_keeps) (simp add: progress_def identity_def)
  ultimately show ?thesis by auto
qed

lemma resolve_world_Inr:
  assumes "resolve_world E from_str http k link (d, D) = (Inr st, d', D')"
  obtains observation where "resolve from_str http link = Inr observation"
    "record_resolution E k (obs_post observation) (obs_raw_response observation) d D = (Inr (st, d'), D')"
  using assms
  by (auto simp: resolve_world_def resolve_and_record_def bindIO_eq liftE_def split: prod.splits sum.splits)

lemma resolve_world_Inl:
  assumes "resolve_world E from_str http k link (d, D) = (Inl e, d', D')"
  shows "d' = d"
  using assms by (auto simp: resolve_world_def split: prod.splits sum.splits)

lemma record_resolution_progress:
  assumes "record_resolution E k post bs d D = (Inr (st, d'), D')"
  shows "map progress (captures d') = map progress (captures d)"
  using assms
proof (rule record_resolution_Inr)
  fix raw assume t: "record_transaction E k post raw d = Inr (st, d')"
  then have "captures d' = update_where (\<lambda>c. cp_capture_id c = k)
       (\<lambda>c. c\<lparr>cp_post_id := Some (st_post_id st), cp_status := ''resolved''\<rparr>) (captures d)"
    by (rule record_transaction_tables)
  then show ?thesis by (simp only:) (rule map_update_keeps, simp add: progress_def identity_def)
qed

lemma record_resolution_schema:
  "record_resolution E k post bs d D = (Inr (st, d'), D') \<Longrightarrow> schema_ok d \<Longrightarrow> schema_ok d'"
  by (erule record_resolution_Inr) (rule record_transaction_schema)

lemma schedule_retry_Inr:
  assumes "schedule_retry row at d = Inr (n, d')"
  shows "d' = d\<lparr>captures := update_where (\<lambda>c. cp_capture_id c = du_capture_id row)
      (\<lambda>c. c\<lparr>cp_resolution_attempts := min (du_resolution_attempts row + 1) I32_MAX,
        cp_next_resolution_at := Some (at + retry_delay n)\<rparr>) (captures d)\<rparr>"
    and "n = (if min (du_resolution_attempts row + 1) I32_MAX < 0 then 2 ^ 32 - 1
      else nat (min (du_resolution_attempts row + 1) I32_MAX))"
    and "schema_ok d \<Longrightarrow> schema_ok d'"
proof -
  let ?f = "\<lambda>n c. c\<lparr>cp_resolution_attempts := min (du_resolution_attempts row + 1) I32_MAX,
    cp_next_resolution_at := Some (at + retry_delay n)\<rparr>"
  have n: "n = (if min (du_resolution_attempts row + 1) I32_MAX < 0 then 2 ^ 32 - 1
      else nat (min (du_resolution_attempts row + 1) I32_MAX))"
    and u: "update_captures (\<lambda>c. cp_capture_id c = du_capture_id row) (?f n) d = Inr d'"
    using assms unfolding schedule_retry_def Let_def bindE_eq_Inr map_err_eq_Inr by auto
  show "n = (if min (du_resolution_attempts row + 1) I32_MAX < 0 then 2 ^ 32 - 1
      else nat (min (du_resolution_attempts row + 1) I32_MAX))" by (rule n)
  show "d' = d\<lparr>captures := update_where (\<lambda>c. cp_capture_id c = du_capture_id row) (?f n) (captures d)\<rparr>"
    by (rule update_captures_Inr [OF u])
  show "schema_ok d \<Longrightarrow> schema_ok d'" by (rule schema_ok_update_captures [OF u]) simp_all
qed

lemma terminal_report_terminal:
  "terminal_report E row t p d = Inr r \<Longrightarrow> report_terminal r \<and> report_operation r = du_operation_id row"
  by (auto simp: terminal_report_def split: terminal.splits option.splits)

lemma report_cases:
  assumes "report E row t d = Inr (reported, d')"
  obtains (nothing) "\<not> reported" "d' = d" "List.find (unreported (du_capture_id row)) (captures d) = None"
  | (queued) c r d1 entry where "reported"
      "List.find (unreported (du_capture_id row)) (captures d) = Some c"
      "update_captures (unreported (du_capture_id row)) (mark_reported E) d = Inr d1"
      "d1 = d\<lparr>captures := update_where (unreported (du_capture_id row)) (mark_reported E) (captures d)\<rparr>"
      "terminal_report E row t (cp_post_id c) d1 = Inr r"
      "append_report E (report_target_of row) r d1 = Inr d'"
      "d' = d1\<lparr>minted := Suc (minted d1), outbox := outbox d1 @ [entry]\<rparr>" "is_report r entry"
      "ob_aggregate_type entry = ''capture''" "ob_aggregate_id entry = du_capture_id row"
      "ob_correlation_id entry = Some (du_operation_id row)" "ob_published_at entry = None"
proof (cases "List.find (unreported (du_capture_id row)) (captures d)")
  case None
  then have "\<not> reported" "d' = d" using assms by (simp_all add: report_def)
  then show thesis using None by (rule nothing)
next
  case (Some c)
  obtain d1 r where s: "reported"
    "update_captures (unreported (du_capture_id row)) (mark_reported E) d = Inr d1"
    "terminal_report E row t (cp_post_id c) d1 = Inr r"
    "append_report E (report_target_of row) r d1 = Inr d'"
    using assms Some by (auto simp: report_def make_report_def)
  note d1 = update_captures_Inr [OF s(2)]
  from s(4) show thesis
  proof (rule append_report_effect)
    fix entry
    assume "d' = d1\<lparr>minted := Suc (minted d1), outbox := outbox d1 @ [entry]\<rparr>" "is_report r entry"
      "(ob_aggregate_type entry, ob_aggregate_id entry) = aggregate_of (report_target_of row)"
      "ob_correlation_id entry = Some (rt_operation_id (report_target_of row))" "ob_published_at entry = None"
    then show thesis
      using queued [OF s(1) Some s(2) d1 s(3,4)] by (simp add: aggregate_of_def report_target_of_def)
  qed
qed

lemma report_schema [schema_intros]:
  assumes "report E row t d = Inr (reported, d')" "schema_ok d"
  shows "schema_ok d'"
  using assms(1)
proof (cases rule: report_cases)
  case (queued c r d1 entry)
  have "schema_ok d1"
    by (rule schema_ok_update_captures [OF queued(3) assms(2)]) (simp_all add: mark_reported_def)
  then show ?thesis by (rule append_report_schema [OF queued(6)])
qed (simp add: assms(2))


section \<open>The schedule\<close>

text \<open>Claim C31: the wait before the next attempt is 30 s, 2 min and 8 min after the first three
  transient failures and 30 min after every later one: four times as long each time, never above
  30 minutes, and no attempt number overflows.\<close>

theorem retry_delay_schedule:
  "retry_delay n = seconds (if n \<le> 1 then 30 else if n = 2 then 120 else if n = 3 then 480 else 1800)"
proof (cases "n \<le> 3")
  case True
  then have "n \<in> {0, 1, 2, 3}" by auto
  then show ?thesis
    by (auto simp: retry_delay_def saturating_pow_def saturating_mul_def I64_MAX_def
        FIRST_RETRY_SECONDS_def LONGEST_RETRY_SECONDS_def)
next
  case False
  then have "(4 :: int) ^ 3 \<le> 4 ^ (n - 1)" by (intro power_increasing) auto
  then have "64 \<le> saturating_pow 4 (n - 1)" by (simp add: saturating_pow_def I64_MAX_def)
  then have "1800 \<le> saturating_mul FIRST_RETRY_SECONDS (saturating_pow 4 (n - 1))"
    by (simp add: saturating_mul_def FIRST_RETRY_SECONDS_def I64_MAX_def)
  with False show ?thesis by (simp add: retry_delay_def Let_def LONGEST_RETRY_SECONDS_def)
qed

section \<open>Claims\<close>

lemma due_rows_mem:
  assumes "c \<in> set (due_rows locked policy at d)"
  shows "c \<in> set (captures d)" "is_due at c" "\<not> locked (cp_capture_id c)"
  using assms by (auto simp: due_rows_def dest: in_set_takeD)

lemma due_rows_distinct:
  "schema_ok d \<Longrightarrow> distinct (map cp_capture_id (due_rows locked policy at d))"
proof -
  assume "schema_ok d"
  then have "distinct (map cp_capture_id (captures d))" by (simp add: schema_defs table_ok_def)
  then have "distinct (captures d)" "inj_on cp_capture_id (set (captures d))" by (simp_all add: distinct_map)
  moreover have "set (due_rows locked policy at d) \<subseteq> set (captures d)"
    using due_rows_mem(1) by blast
  ultimately have "distinct (due_rows locked policy at d)" "inj_on cp_capture_id (set (due_rows locked policy at d))"
    by (simp_all add: due_rows_def inj_on_subset)
  then show ?thesis by (simp add: distinct_map)
qed

definition leased :: "uuid list \<Rightarrow> instant \<Rightarrow> capture_row list \<Rightarrow> capture_row list" where
  "leased ids at cs = update_where (\<lambda>c. cp_capture_id c \<in> set ids)
    (\<lambda>c. c\<lparr>cp_next_resolution_at := Some (at + seconds CLAIM_LEASE_SECONDS)\<rparr>) cs"

lemma claim_Inr:
  assumes "claim locked policy at d = Inr (rows, d')"
  shows "rows = map due_of (due_rows locked policy at d)"
    and "d' = d\<lparr>captures := leased (map du_capture_id rows) at (captures d)\<rparr>"
    and "schema_ok d \<Longrightarrow> schema_ok d'"
proof -
  let ?rows = "map due_of (due_rows locked policy at d)"
  show r: "rows = ?rows" using assms by (auto simp: claim_def Let_def split: if_splits)
  show "d' = d\<lparr>captures := leased (map du_capture_id rows) at (captures d)\<rparr>"
  proof (cases "?rows = []")
    case True
    then show ?thesis using assms by (simp add: claim_def leased_def update_where_def)
  next
    case False
    then have "update_captures (\<lambda>c. cp_capture_id c \<in> set (map du_capture_id rows))
       (\<lambda>c. c\<lparr>cp_next_resolution_at := Some (at + seconds CLAIM_LEASE_SECONDS)\<rparr>) d = Inr d'"
      using assms unfolding claim_def Let_def if_not_P [OF False] bindE_eq_Inr map_err_eq_Inr r by auto
    from update_captures_Inr [OF this] show ?thesis by (simp add: leased_def)
  qed
  show "schema_ok d \<Longrightarrow> schema_ok d'"
  proof (cases "?rows = []")
    case False
    assume ok: "schema_ok d"
    have "update_captures (\<lambda>c. cp_capture_id c \<in> set (map du_capture_id rows))
       (\<lambda>c. c\<lparr>cp_next_resolution_at := Some (at + seconds CLAIM_LEASE_SECONDS)\<rparr>) d = Inr d'"
      using assms unfolding claim_def Let_def if_not_P [OF False] bindE_eq_Inr map_err_eq_Inr r by auto
    from schema_ok_update_captures [OF this ok] show ?thesis by simp
  qed (use assms in \<open>simp add: claim_def\<close>)
qed


definition claimable_db :: db where
  "claimable_db = empty_db\<lparr>captures := [pending_capture]\<rparr>"

definition sample_policy :: resolver_policy where
  "sample_policy = \<lparr>rp_max_attempts = 2, rp_batch_size = 8, rp_poll_interval = seconds 5\<rparr>"



section \<open>Reports\<close>

definition terminal_for :: "uuid \<Rightarrow> outbox_row \<Rightarrow> bool" where
  "terminal_for capture_id row \<longleftrightarrow> ob_aggregate_type row = ''capture'' \<and> ob_aggregate_id row = capture_id
    \<and> (case reports (ob_payload row) of None \<Rightarrow> False | Some r \<Rightarrow> report_terminal r)"

lemma report_guard:
  assumes "report E row t d = Inr (True, d')"
  shows "List.find (unreported (du_capture_id row)) (captures d') = None"
  using assms
proof (cases rule: report_cases)
  case (queued c r d1 entry)
  have "captures d' = update_where (unreported (du_capture_id row)) (mark_reported E) (captures d)"
    using queued(4,7) by simp
  then show ?thesis
    unfolding find_None_conv by (auto dest!: update_where_mem simp: mark_reported_def unreported_def)
qed simp



section \<open>Attempts\<close>

lemma record_transient_failure_Inr:
  assumes "record_transient_failure E policy row at (d, D) = (Inr a, d', D')"
  obtains d1 n where "record_observation E (du_capture_id row) (ResolverFailed PARSER_VERSION) d = Inr d1"
    "schedule_retry row at d1 = Inr (n, d')" "D' = D"
    "a = (if n \<ge> rp_max_attempts policy then AttemptTerminal (TerminalUnavailable SourceTransient) else AttemptRetry)"
  using assms
  by (auto simp: record_transient_failure_def bindP_eq transact_eq resolver_failed_def elim!: observe_Inr)

definition link_of :: "due \<Rightarrow> permalink option" where
  "link_of row = (case try_from (du_canonical_url row) of
    Inl _ \<Rightarrow> None | Inr canonical \<Rightarrow> Some (canonicalized_url.permalink canonical))"

lemma attempt_capture_cases:
  assumes "attempt_capture E from_str http policy row at (d, D) = (Inr a, d', D')"
  obtains (invalid) "link_of row = None" "a = AttemptTerminal (TerminalUnavailable SourceInaccessible)"
      "record_observation E (du_capture_id row) (ObservedPrivateOrInaccessible ''invalid_permalink'') d = Inr d'"
  | (preserved) link observation st where "link_of row = Some link" "a = AttemptTerminal TerminalPreserved"
      "resolve from_str http link = Inr observation"
      "record_resolution E (du_capture_id row) (obs_post observation) (obs_raw_response observation) d D = (Inr (st, d'), D')"
  | (gone) link e D1 where "link_of row = Some link" "a = AttemptTerminal (TerminalUnavailable SourceDeleted)"
      "resolve_world E from_str http (du_capture_id row) link (d, D) = (Inl e, d, D1)"
      "classify e = ResolutionDeleted" "\<not> is_local_fault e"
      "record_observation E (du_capture_id row) (ObservedDeleted (reason_code e)) d = Inr d'"
  | (refused) link e D1 where "link_of row = Some link" "a = AttemptTerminal (TerminalUnavailable SourceInaccessible)"
      "resolve_world E from_str http (du_capture_id row) link (d, D) = (Inl e, d, D1)"
      "classify e = ResolutionInaccessible"
      "record_observation E (du_capture_id row) (ObservedPrivateOrInaccessible (reason_code e)) d = Inr d'"
  | (transient) link e D1 where "link_of row = Some link"
      "resolve_world E from_str http (du_capture_id row) link (d, D) = (Inl e, d, D1)"
      "classify e = ResolutionTransient" "\<not> is_local_fault e"
      "record_transient_failure E policy row at (d, D1) = (Inr a, d', D')"
proof (cases "try_from (du_canonical_url row)")
  case (Inl x)
  then show thesis using assms
    by (auto simp: attempt_capture_def bindP_eq transact_eq private_or_inaccessible_def link_of_def
        elim!: observe_Inr intro: invalid)
next
  case (Inr canonical)
  define link where "link = canonicalized_url.permalink canonical"
  have l: "link_of row = Some link" using Inr by (simp add: link_of_def link_def)
  let ?w = "resolve_world E from_str http (du_capture_id row) link (d, D)"
  obtain r d1 D1 where w: "?w = (r, d1, D1)" by (cases ?w) auto
  note run = assms [unfolded attempt_capture_def Inr sum.case, folded link_def, unfolded w prod.case]
  show thesis
  proof (cases r)
    case (Inl e)
    with w have d1: "d1 = d" using resolve_world_Inl by blast
    show thesis
    proof (cases "classify e")
      case ResolutionDeleted
      with run Inl d1 have "\<not> is_local_fault e" "a = AttemptTerminal (TerminalUnavailable SourceDeleted)"
        "record_observation E (du_capture_id row) (ObservedDeleted (reason_code e)) d = Inr d'"
        by (auto simp: bindP_eq transact_eq deleted_def split: if_splits elim!: observe_Inr)
      then show thesis using gone [OF l] w Inl d1 ResolutionDeleted by blast
    next
      case ResolutionInaccessible
      with run Inl d1 have "a = AttemptTerminal (TerminalUnavailable SourceInaccessible)"
        "record_observation E (du_capture_id row) (ObservedPrivateOrInaccessible (reason_code e)) d = Inr d'"
        by (auto simp: bindP_eq transact_eq private_or_inaccessible_def split: if_splits elim!: observe_Inr)
      then show thesis using refused [OF l] w Inl d1 ResolutionInaccessible by blast
    next
      case ResolutionTransient
      with run Inl d1 have "\<not> is_local_fault e" "record_transient_failure E policy row at (d, D1) = (Inr a, d', D')"
        by (auto split: if_splits)
      then show thesis using transient [OF l] w Inl d1 ResolutionTransient by blast
    qed
  next
    case (Inr st)
    then have "a = AttemptTerminal TerminalPreserved" "d1 = d'" "D1 = D'" using run by auto
    with w Inr show thesis using preserved [OF l] by (auto elim!: resolve_world_Inr)
  qed
qed

lemma bounded_body_error: "bounded_body chunks bs = Inl e \<Longrightarrow> e = Network \<or> e = ResponseTooLarge"
  by (induction chunks bs rule: bounded_body.induct) (auto split: if_splits)

lemma raw_io_local: "raw_io m D = (Inl e, D') \<Longrightarrow> is_local_fault e"
  by (auto simp: raw_io_eq)

lemma verify_local: "verify_raw_object E p h D = (Inl e, D') \<Longrightarrow> is_local_fault e"
  by (auto simp: verify_raw_object_def bindIO_eq raw_io_eq split: if_splits)

lemma create_once_local:
  assumes "create_once E p bs h D = (Inl e, D')"
  shows "is_local_fault e"
proof (cases "raw_io fs_create_dir_all D")
  case (Pair r D1)
  show ?thesis
  proof (cases r)
    case (Inr u)
    obtain r2 D2 where c: "fs_create_new p D1 = (r2, D2)" by (cases "fs_create_new p D1")
    show ?thesis using assms Pair Inr c
      by (cases r2) (auto simp: create_once_def bindIO_def [of "raw_io fs_create_dir_all"] bindIO_eq
          split: if_splits dest: raw_io_local verify_local)
  qed (use assms Pair in \<open>auto simp: create_once_def bindIO_def dest: raw_io_local\<close>)
qed

lemma store_local_fault: "store E bs D = (Inl e, D') \<Longrightarrow> is_local_fault e"
  by (auto simp: store_def Let_def bindIO_eq configuration_error_def split: if_splits
      dest: raw_io_local verify_local create_once_local)

lemma record_transaction_error:
  "record_transaction E k post raw d = Inl e \<Longrightarrow> is_local_fault e \<or> (\<exists>g. e = RelationGraphRefused g)"
  by (auto simp: record_transaction_def record_relations_def Let_def now_v7_def bindE_eq_Inl map_err_eq_Inl
      resolution_query_def)

text \<open>A provider status reaches the resolver only from the HTTP exchange.\<close>

lemma parse_observation_status: "parse_observation from_str link payload \<noteq> Inl (ProviderStatus s)"
  by (auto simp: parse_observation_def string_field_def bindE_eq_Inl ok_or_def map_err_eq_Inl split: option.splits)

lemma resolve_status:
  assumes "resolve from_str http link = Inl (ProviderStatus s)"
  shows "\<exists>response. http (as_str link) = Some response \<and> hr_status response = s"
proof (cases "http (as_str link)")
  case (Some response)
  show ?thesis
  proof (cases "is_success (hr_status response)")
    case True
    show ?thesis
      using assms Some True parse_observation_status [of from_str link]
      by (auto simp: resolve_def bindE_eq_Inl ok_or_def split: if_splits option.splits dest!: bounded_body_error)
  qed (use assms Some in \<open>simp add: resolve_def\<close>)
qed (use assms in \<open>simp add: resolve_def\<close>)

lemma resolve_world_status:
  assumes "resolve_world E from_str http k link (d, D) = (Inl (ProviderStatus s), d', D')"
  shows "\<exists>response. http (as_str link) = Some response \<and> hr_status response = s"
proof (cases "resolve from_str http link")
  case (Inl e)
  then have "e = ProviderStatus s"
    using assms by (auto simp: resolve_world_def resolve_and_record_def bindIO_def liftE_def)
  with Inl show ?thesis by (simp add: resolve_status)
next
  case (Inr observation)
  then have "record_resolution E k (obs_post observation) (obs_raw_response observation) d D
      = (Inl (ProviderStatus s), D')"
    using assms by (auto simp: resolve_world_def resolve_and_record_def bindIO_def liftE_def split: prod.splits sum.splits)
  then show ?thesis
    by (auto simp: record_resolution_def bindIO_eq liftE_def validate_relation_sources_def split: if_splits
        dest: store_local_fault record_transaction_error)
qed


lemma classify_deleted:
  "classify e = ResolutionDeleted \<Longrightarrow> \<exists>s. e = ProviderStatus s \<and> (s = 404 \<or> s = 410)"
  by (cases e) (auto simp: classify_status_def split: if_splits)

lemma record_transient_failure_outcome:
  "record_transient_failure E policy row at (d, D) = (Inr a, d', D') \<Longrightarrow>
    a = AttemptTerminal (TerminalUnavailable SourceTransient) \<or> a = AttemptRetry"
  by (erule record_transient_failure_Inr) simp

text \<open>Claim C32: the resolver reports a post as deleted only on the provider's word: the answer to the
  request for the capture's own permalink was a 404 or a 410.\<close>

theorem attempt_reports_deleted_only_when_gone:
  assumes "attempt_capture E from_str http policy row at (d, D)
    = (Inr (AttemptTerminal (TerminalUnavailable SourceDeleted)), d', D')"
  shows "\<exists>link response. link_of row = Some link \<and> http (as_str link) = Some response
    \<and> (hr_status response = 404 \<or> hr_status response = 410)"
  using assms
proof (cases rule: attempt_capture_cases)
  case (gone link e D1)
  then obtain s where "e = ProviderStatus s" "s = 404 \<or> s = 410" using classify_deleted by blast
  with resolve_world_status gone show ?thesis by blast
qed (auto dest: record_transient_failure_outcome)

definition gone_http :: "string \<Rightarrow> http_response option" where
  "gone_http url = Some \<lparr>hr_status = 404, hr_content_type = None, hr_content_length = None, hr_chunks = []\<rparr>"

theorem attempt_reports_deleted_only_when_gone_witness:
  "\<exists>d' D'. attempt_capture (sample_env 10) sample_json gone_http sample_policy (due_of pending_capture) 10
      (claimable_db, sample_disk []) = (Inr (AttemptTerminal (TerminalUnavailable SourceDeleted)), d', D')
    \<and> (\<exists>link response. link_of (due_of pending_capture) = Some link \<and> gone_http (as_str link) = Some response
        \<and> (hr_status response = 404 \<or> hr_status response = 410))"
proof -
  define r where "r = attempt_capture (sample_env 10) sample_json gone_http sample_policy (due_of pending_capture) 10
      (claimable_db, sample_disk [])"
  have "fst r = Inr (AttemptTerminal (TerminalUnavailable SourceDeleted))" unfolding r_def by code_simp
  moreover obtain d' D' where "r = (fst r, d', D')" by (metis prod.collapse)
  ultimately have eq: "attempt_capture (sample_env 10) sample_json gone_http sample_policy (due_of pending_capture) 10
      (claimable_db, sample_disk []) = (Inr (AttemptTerminal (TerminalUnavailable SourceDeleted)), d', D')"
    unfolding r_def by simp
  from attempt_reports_deleted_only_when_gone [OF eq] eq show ?thesis by blast
qed

text \<open>Claim C33: a transient failure is not evidence about the post. Whichever attempt it is, the status
  of every capture, all posts, tombstones, publications and reports stay as they were; the attempt
  is counted on the capture and one \<^verbatim>\<open>resolver_failed\<close> resolution is added.\<close>

theorem transient_failure_is_no_evidence:
  assumes "record_transient_failure E policy row at (d, D) = (Inr a, d', D')"
  shows "map cp_status (captures d') = map cp_status (captures d) \<and> posts d' = posts d
    \<and> tombstones d' = tombstones d \<and> source_revisions d' = source_revisions d \<and> outbox d' = outbox d
    \<and> (\<exists>r. capture_resolutions d' = capture_resolutions d @ [r] \<and> rs_outcome r = ''resolver_failed'')
    \<and> list_all (\<lambda>c. cp_capture_id c \<noteq> du_capture_id row
        \<or> cp_resolution_attempts c = min (du_resolution_attempts row + 1) I32_MAX) (captures d')"
  using assms
proof (rule record_transient_failure_Inr)
  fix d1 n
  assume o: "record_observation E (du_capture_id row) (ResolverFailed PARSER_VERSION) d = Inr d1"
    and s: "schedule_retry row at d1 = Inr (n, d')"
  obtain r where r: "d1 = d\<lparr>minted := Suc (minted d), capture_resolutions := capture_resolutions d @ [r]\<rparr>"
    "rs_outcome r = ''resolver_failed''"
    using o record_resolver_failure_effect [of E "du_capture_id row" PARSER_VERSION d d1]
    by (auto simp: record_observation_def split: if_splits)
  note d' = schedule_retry_Inr(1) [OF s]
  have "map cp_status (captures d') = map cp_status (captures d)"
    unfolding d' by (simp add: r map_update_keeps)
  moreover have "list_all (\<lambda>c. cp_capture_id c \<noteq> du_capture_id row
        \<or> cp_resolution_attempts c = min (du_resolution_attempts row + 1) I32_MAX) (captures d')"
    unfolding list_all_iff
  proof
    fix c assume "c \<in> set (captures d')"
    then obtain b where "c = (if cp_capture_id b = du_capture_id row
        then b\<lparr>cp_resolution_attempts := min (du_resolution_attempts row + 1) I32_MAX,
          cp_next_resolution_at := Some (at + retry_delay n)\<rparr> else b)"
      unfolding d' by (auto dest!: update_where_mem)
    then show "cp_capture_id c \<noteq> du_capture_id row
        \<or> cp_resolution_attempts c = min (du_resolution_attempts row + 1) I32_MAX"
      by (simp split: if_splits)
  qed
  ultimately show ?thesis using d' r by simp
qed

theorem transient_failure_is_no_evidence_witness:
  "\<exists>a d' D'. record_transient_failure (sample_env 10) sample_policy (due_of pending_capture) 10
      (claimable_db, sample_disk []) = (Inr a, d', D') \<and> map cp_status (captures d') = [''accepted'']"
proof -
  define r where "r = record_transient_failure (sample_env 10) sample_policy (due_of pending_capture) 10
      (claimable_db, sample_disk [])"
  have "fst r = Inr AttemptRetry" unfolding r_def by code_simp
  moreover obtain d' D' where "r = (fst r, d', D')" by (metis prod.collapse)
  ultimately have eq: "record_transient_failure (sample_env 10) sample_policy (due_of pending_capture) 10
      (claimable_db, sample_disk []) = (Inr AttemptRetry, d', D')"
    unfolding r_def by simp
  have "map cp_status (captures claimable_db) = [''accepted'']" by code_simp
  with transient_failure_is_no_evidence [OF eq] have "map cp_status (captures d') = [''accepted'']" by simp
  with eq show ?thesis by (intro exI conjI)
qed

section \<open>Bounded retries\<close>

lemma attempt_schema:
  assumes "attempt_capture E from_str http policy row at (d, D) = (Inr a, d', D')" "schema_ok d"
  shows "schema_ok d'"
  using assms(1)
proof (cases rule: attempt_capture_cases)
  case preserved
  then show ?thesis using assms(2) by (auto intro: record_resolution_schema)
next
  case (transient link e D1)
  from transient(5) show ?thesis
    by (rule record_transient_failure_Inr)
      (use assms(2) in \<open>blast intro: record_observation_schema schedule_retry_Inr(3)\<close>)
qed (use assms(2) in \<open>blast intro: record_observation_schema\<close>)+

lemma attempt_terminal_progress:
  assumes "attempt_capture E from_str http policy row at (d, D) = (Inr a, d', D')"
  shows "map cp_operation_reported_at (captures d') = map cp_operation_reported_at (captures d)
    \<and> map identity (captures d') = map identity (captures d)"
proof -
  have keep: "map cp_operation_reported_at cs' = map cp_operation_reported_at cs \<and> map identity cs' = map identity cs"
    if "map progress cs' = map progress cs" for cs cs'
  proof -
    have "map (snd \<circ> snd \<circ> progress) cs' = map (snd \<circ> snd \<circ> progress) cs"
      "map (fst \<circ> progress) cs' = map (fst \<circ> progress) cs"
      using that by (metis map_map)+
    then show ?thesis by (simp add: progress_def comp_def)
  qed
  from assms show ?thesis
  proof (cases rule: attempt_capture_cases)
    case (transient link e D1)
    from transient(5) show ?thesis
    proof (rule record_transient_failure_Inr)
      fix d1 n assume o: "record_observation E (du_capture_id row) (ResolverFailed PARSER_VERSION) d = Inr d1"
        and s: "schedule_retry row at d1 = Inr (n, d')"
      have "map cp_operation_reported_at (captures d') = map cp_operation_reported_at (captures d1)"
        "map identity (captures d') = map identity (captures d1)"
        unfolding schedule_retry_Inr(1) [OF s] by (simp_all add: map_update_keeps identity_def)
      with keep [OF record_observation_progress [OF o]] show ?thesis by simp
    qed
  qed (rule keep, (erule record_observation_progress | erule record_resolution_progress))+
qed


lemma report_unreported:
  assumes "c \<in> set (captures d)" "cp_capture_id c = du_capture_id row" "cp_operation_reported_at c = None"
    and "report E row t d = Inr (reported, d')"
  shows "reported"
  using assms(4)
proof (cases rule: report_cases)
  case nothing
  then show ?thesis using assms(1-3) by (auto simp: find_None_conv unreported_def)
qed

text \<open>A pass over an unreported capture either reports it or counts one more attempt below the limit.\<close>

lemma process_retry:
  assumes "process E from_str http policy (due_of c) at (d, D) = (Inr False, d', D')"
    and "schema_ok d" and "c \<in> set (captures d)" and "cp_operation_reported_at c = None"
    and "0 \<le> cp_resolution_attempts c" and "cp_resolution_attempts c < I32_MAX"
  shows "schema_ok d' \<and> (\<exists>c' \<in> set (captures d'). cp_capture_id c' = cp_capture_id c
    \<and> cp_operation_reported_at c' = None \<and> cp_resolution_attempts c' = cp_resolution_attempts c + 1)
    \<and> nat (cp_resolution_attempts c + 1) < rp_max_attempts policy"
proof -
  have id: "cp_capture_id c = du_capture_id (due_of c)" by (simp add: due_of_def)
  have "recorded_terminal policy (due_of c) d = None"
    using assms(1) report_unreported [OF assms(3) id assms(4)]
    by (auto simp: process_def transact_eq split: option.splits)
  then obtain a d1 D1 where a: "attempt_capture E from_str http policy (due_of c) at (d, D) = (Inr a, d1, D1)"
    and rest: "(case a of AttemptTerminal t \<Rightarrow> transact (report E (due_of c) t) | AttemptRetry \<Rightarrow> returnP False) (d1, D1)
      = (Inr False, d', D')"
    using assms(1) by (auto simp: process_def bindP_eq)
  have keep: "map cp_operation_reported_at (captures d1) = map cp_operation_reported_at (captures d)"
    "map identity (captures d1) = map identity (captures d)"
    using attempt_terminal_progress [OF a] by simp_all
  have "a = AttemptRetry"
  proof (cases a)
    case (AttemptTerminal t)
    obtain i where i: "i < length (captures d)" "captures d ! i = c" using assms(3) by (auto simp: in_set_conv_nth)
    have "length (captures d1) = length (captures d)" using keep(1) by (rule map_eq_imp_length_eq)
    then have "captures d1 ! i \<in> set (captures d1)" "cp_operation_reported_at (captures d1 ! i) = None"
      "identity (captures d1 ! i) = identity c"
      using i keep assms(4) by (auto simp: list_eq_iff_nth_eq)
    then show ?thesis
      using report_unreported [of "captures d1 ! i" d1 "due_of c" E t False d'] rest AttemptTerminal
      by (auto simp: transact_eq identity_def due_of_def)
  qed simp
  then have d1: "d1 = d'" using rest by simp
  from a \<open>a = AttemptRetry\<close> obtain D2 where
    t: "record_transient_failure E policy (due_of c) at (d, D2) = (Inr AttemptRetry, d1, D1)"
    by (cases rule: attempt_capture_cases) auto
  from t show ?thesis
  proof (rule record_transient_failure_Inr)
    fix d2 n
    assume o: "record_observation E (du_capture_id (due_of c)) (ResolverFailed PARSER_VERSION) d = Inr d2"
      and s: "schedule_retry (due_of c) at d2 = Inr (n, d1)"
      and n: "AttemptRetry = (if n \<ge> rp_max_attempts policy
        then AttemptTerminal (TerminalUnavailable SourceTransient) else AttemptRetry)"
    have m: "min (du_resolution_attempts (due_of c) + 1) I32_MAX = cp_resolution_attempts c + 1"
      using assms(6) by (simp add: due_of_def)
    have lim: "nat (cp_resolution_attempts c + 1) < rp_max_attempts policy"
      using n schedule_retry_Inr(2) [OF s] assms(5) unfolding m by (auto split: if_splits)
    have d2: "captures d2 = captures d"
      using o record_resolver_failure_effect [of E "du_capture_id (due_of c)" PARSER_VERSION d d2]
      by (auto simp: record_observation_def split: if_splits)
    let ?c = "c\<lparr>cp_resolution_attempts := cp_resolution_attempts c + 1, cp_next_resolution_at := Some (at + retry_delay n)\<rparr>"
    have "?c \<in> set (captures d1)"
      unfolding schedule_retry_Inr(1) [OF s] m
      using assms(3) id by (simp add: d2 set_update_where image_iff) (intro disjI1 bexI [of _ c], simp_all)
    moreover have "schema_ok d1"
      using attempt_schema [OF a assms(2)] .
    ultimately show ?thesis using lim assms(4) unfolding d1 by (intro conjI bexI [of _ ?c]) simp_all
  qed
qed

text \<open>Successive passes over capture \<open>k\<close>, each in its own environment and against its own provider.\<close>

fun passes ::
  "resolver_policy \<Rightarrow> uuid \<Rightarrow> (env \<times> (string \<Rightarrow> json option) \<times> (string \<Rightarrow> http_response option) \<times> instant) list
    \<Rightarrow> bool pass" where
  "passes policy k [] = returnP False"
| "passes policy k ((E, from_str, http, at) # ps) = (\<lambda>(d, D).
    case List.find (\<lambda>c. cp_capture_id c = k) (captures d) of
      None \<Rightarrow> returnP False (d, D)
    | Some c \<Rightarrow> bindP (process E from_str http policy (due_of c) at) (\<lambda>reported.
        if reported then returnP True else passes policy k ps) (d, D))"

lemma capture_find:
  assumes "schema_ok d" "c \<in> set (captures d)"
  shows "List.find (\<lambda>b. cp_capture_id b = cp_capture_id c) (captures d) = Some c"
  using assms by (intro find_key_eq) (simp_all add: schema_defs table_ok_def)

lemma passes_report:
  assumes "passes policy k ps (d, D) = (Inr reported, d', D')"
    and "schema_ok d" and "c \<in> set (captures d)" and "cp_capture_id c = k" and "cp_operation_reported_at c = None"
    and "0 \<le> cp_resolution_attempts c" and "int (rp_max_attempts policy) < I32_MAX"
    and "cp_resolution_attempts c \<le> int (rp_max_attempts policy)"
    and "rp_max_attempts policy \<le> nat (cp_resolution_attempts c) + length ps" and "ps \<noteq> []"
  shows "reported"
  using assms(1-6,8-10)
proof (induction ps arbitrary: d D c)
  case Nil
  from Nil.prems(9) show ?case by simp
next
  case (Cons p ps)
  obtain E from_str http at where p: "p = (E, from_str, http, at)" by (cases p)
  note find = capture_find [OF Cons.prems(2,3), unfolded Cons.prems(4)]
  have "bindP (process E from_str http policy (due_of c) at) (\<lambda>reported.
      if reported then returnP True else passes policy k ps) (d, D) = (Inr reported, d', D')"
    using Cons.prems(1) by (simp add: p find)
  then obtain r w1 where "process E from_str http policy (due_of c) at (d, D) = (Inr r, w1)"
    "(if r then returnP True else passes policy k ps) w1 = (Inr reported, d', D')"
    unfolding bindP_eq by (elim exE conjE)
  moreover obtain d1 D1 where "w1 = (d1, D1)" by (cases w1)
  ultimately have
    r: "process E from_str http policy (due_of c) at (d, D) = (Inr r, d1, D1)"
    and rest: "(if r then returnP True else passes policy k ps) (d1, D1) = (Inr reported, d', D')"
    by simp_all
  show ?case
  proof (cases r)
    case False
    have lt: "cp_resolution_attempts c < I32_MAX" using Cons.prems(7) assms(7) by simp
    have "process E from_str http policy (due_of c) at (d, D) = (Inr False, d1, D1)" using r False by simp
    from process_retry [OF this Cons.prems(2,3,5,6) lt] obtain c' where
      ok: "schema_ok d1" and lim: "nat (cp_resolution_attempts c + 1) < rp_max_attempts policy"
      and c': "c' \<in> set (captures d1)" "cp_capture_id c' = cp_capture_id c" "cp_operation_reported_at c' = None"
        "cp_resolution_attempts c' = cp_resolution_attempts c + 1"
      by (elim conjE bexE)
    have "ps \<noteq> []" using lim Cons.prems(6,8) by (cases ps) simp_all
    have rec: "passes policy k ps (d1, D1) = (Inr reported, d', D')" using rest False by simp
    show ?thesis
      by (rule Cons.IH [OF rec ok c'(1) _ c'(3)])
        (use c'(2,4) lim \<open>ps \<noteq> []\<close> Cons.prems(4,6,8) in simp_all)
  qed (use rest in simp)
qed



definition unreachable_http :: "string \<Rightarrow> http_response option" where
  "unreachable_http url = None"


end
