(* ===== verification/Outbox.thy ===== *)
theory Outbox
  imports BrowserCapture
begin

text \<open>
  \<^verbatim>\<open>crates/threads-archive/src/removal_acknowledgement.rs\<close>, \<^verbatim>\<open>outbox_relay.rs\<close>, \<^verbatim>\<open>deletion_acks.rs\<close> and
  \<^verbatim>\<open>nats.rs\<close>: the life of an outbox row after its transaction committed. The pump publishes the due
  rows, backs a refused row off, and publishes an unanswered removal again until Knowledge answers;
  the acknowledgement consumer records the answer; the command worker commits, then publishes, then
  acknowledges.

  The broker is the parameter \<open>transport\<close>: a function of every attempt so far, so it may refuse,
  lose and repeat acknowledgements in any pattern. Each statement of a pass runs in its own
  transaction against the same clock. A \<^verbatim>\<open>serde_json::Value\<close> always serializes, so the failure class
  \<open>serialization_failed\<close> has no branch.

  \<open>relay_of\<close> forgets the schedule columns and keeps what the relay promises; \<open>flush_refines_broker\<close>
  shows that a pass of the pump is the fold of what the broker acknowledged.
\<close>

section \<open>Removal acknowledgements\<close>

definition REMOVAL_EVENT_TYPE :: string where
  "REMOVAL_EVENT_TYPE = ''social.source.removed.v1''"

record resend_policy =
  rp_after :: int
  rp_cap :: int

definition default_resend_policy :: resend_policy where
  "default_resend_policy = \<lparr>rp_after = seconds 600, rp_cap = seconds 21600\<rparr>"

datatype ack_outcome = Applied | Refused

fun ack_as_str :: "ack_outcome \<Rightarrow> string" where
  "ack_as_str Applied = ''applied''"
| "ack_as_str Refused = ''refused''"

definition payload_tenant :: "env \<Rightarrow> outbox_payload \<Rightarrow> string" where
  "payload_tenant E p = (case p of
      EventPayload envelope \<Rightarrow> ev_tenant_id envelope
    | ReportPayload envelope \<Rightarrow> tenant E (rep_owner envelope))"

text \<open>\<^verbatim>\<open>x <= now()\<close> on a nullable column: false when the column is null.\<close>

definition reached :: "env \<Rightarrow> instant option \<Rightarrow> bool" where
  "reached E t = (case t of None \<Rightarrow> False | Some x \<Rightarrow> x \<le> now E)"

definition not_backed_off :: "env \<Rightarrow> outbox_row \<Rightarrow> bool" where
  "not_backed_off E r = (ob_next_attempt_at r = None \<or> reached E (ob_next_attempt_at r))"

definition published_now :: "env \<Rightarrow> resend_policy \<Rightarrow> outbox_row \<Rightarrow> outbox_row" where
  "published_now E policy r = r\<lparr>ob_published_at := Some (now E), ob_last_error := None,
    ob_next_resend_at := (if ob_event_type r = REMOVAL_EVENT_TYPE
      then Some (now E + rp_after policy) else None)\<rparr>"

definition mark_published :: "env \<Rightarrow> resend_policy \<Rightarrow> uuid \<Rightarrow> db \<Rightarrow> db" where
  "mark_published E policy event_id d = d\<lparr>outbox := update_where
    (\<lambda>r. ob_event_id r = event_id \<and> ob_published_at r = None) (published_now E policy) (outbox d)\<rparr>"

definition is_due_resend :: "env \<Rightarrow> outbox_row \<Rightarrow> bool" where
  "is_due_resend E r \<longleftrightarrow> ob_event_type r = REMOVAL_EVENT_TYPE \<and> ob_published_at r \<noteq> None
    \<and> ob_acknowledged_at r = None \<and> reached E (ob_next_resend_at r) \<and> not_backed_off E r"

definition due_resends :: "env \<Rightarrow> nat \<Rightarrow> db \<Rightarrow> outbox_row list" where
  "due_resends E limit d = take limit
    (sort_key (\<lambda>r. (the (ob_next_resend_at r), ob_event_id r)) (filter (is_due_resend E) (outbox d)))"

definition resend_delay :: "resend_policy \<Rightarrow> nat \<Rightarrow> int" where
  "resend_delay policy count = min (rp_after policy * 2 ^ min count 30) (rp_cap policy)"

definition resent_now :: "env \<Rightarrow> resend_policy \<Rightarrow> outbox_row \<Rightarrow> outbox_row" where
  "resent_now E policy r = r\<lparr>ob_resend_count := Suc (ob_resend_count r), ob_last_error := None,
    ob_attempt_count := 0,
    ob_next_resend_at := Some (now E + resend_delay policy (ob_resend_count r))\<rparr>"

definition record_resend :: "env \<Rightarrow> resend_policy \<Rightarrow> uuid \<Rightarrow> db \<Rightarrow> db" where
  "record_resend E policy event_id d = d\<lparr>outbox := update_where
    (\<lambda>r. ob_event_id r = event_id \<and> ob_event_type r = REMOVAL_EVENT_TYPE
       \<and> ob_published_at r \<noteq> None \<and> ob_acknowledged_at r = None) (resent_now E policy) (outbox d)\<rparr>"

definition is_open_removal :: "env \<Rightarrow> uuid \<Rightarrow> string \<Rightarrow> outbox_row \<Rightarrow> bool" where
  "is_open_removal E event_id tenant_text r \<longleftrightarrow> ob_event_id r = event_id
    \<and> ob_event_type r = REMOVAL_EVENT_TYPE \<and> payload_tenant E (ob_payload r) = tenant_text
    \<and> ob_acknowledged_at r = None"

definition answered_now :: "env \<Rightarrow> ack_outcome \<Rightarrow> outbox_row \<Rightarrow> outbox_row" where
  "answered_now E outcome r =
    r\<lparr>ob_acknowledged_at := Some (now E), ob_ack_outcome := Some (ack_as_str outcome)\<rparr>"

definition acknowledge :: "env \<Rightarrow> uuid \<Rightarrow> string \<Rightarrow> ack_outcome \<Rightarrow> db \<Rightarrow> bool \<times> db" where
  "acknowledge E event_id tenant_text outcome d =
    (count_where (is_open_removal E event_id tenant_text) (outbox d) = 1,
     d\<lparr>outbox := update_where (is_open_removal E event_id tenant_text) (answered_now E outcome) (outbox d)\<rparr>)"

record unacknowledged =
  un_count :: nat
  un_oldest_age :: int

definition unacknowledged_removals :: "env \<Rightarrow> db \<Rightarrow> unacknowledged" where
  "unacknowledged_removals E d =
    (let open_rows = filter (\<lambda>r. ob_event_type r = REMOVAL_EVENT_TYPE \<and> ob_acknowledged_at r = None) (outbox d)
     in \<lparr>un_count = length open_rows,
         un_oldest_age = (case map ob_occurred_at open_rows of [] \<Rightarrow> 0 | t # ts \<Rightarrow> now E - foldl min t ts)\<rparr>)"

section \<open>The outbox pump\<close>

datatype nats_error =
    NatsCredential string
  | NatsBus string
  | NatsPersistence persistence_error
  | UnexpectedOutboxEventType
  | Unacknowledged

record publish_failure =
  pf_class :: string
  pf_error :: nats_error

definition OUTBOX_BATCH_SIZE :: nat where
  "OUTBOX_BATCH_SIZE = 32"

definition OPERATION_REPORT_SUBJECT :: string where
  "OPERATION_REPORT_SUBJECT = ''evt.platform.operation.reported.v1''"

definition SOCIAL_CAPTURED_SUBJECT :: string where
  "SOCIAL_CAPTURED_SUBJECT = ''evt.social.source.captured.v1''"

definition SOCIAL_UPDATED_SUBJECT :: string where
  "SOCIAL_UPDATED_SUBJECT = ''evt.social.source.updated.v1''"

definition SOCIAL_REMOVED_SUBJECT :: string where
  "SOCIAL_REMOVED_SUBJECT = ''evt.social.source.removed.v1''"

definition outbox_subject :: "string \<Rightarrow> string option" where
  "outbox_subject event_type =
    (if event_type = ''platform.operation.reported.v1'' then Some OPERATION_REPORT_SUBJECT
     else if event_type = ''social.source.captured.v1'' then Some SOCIAL_CAPTURED_SUBJECT
     else if event_type = ''social.source.updated.v1'' then Some SOCIAL_UPDATED_SUBJECT
     else if event_type = REMOVAL_EVENT_TYPE then Some SOCIAL_REMOVED_SUBJECT
     else None)"

text \<open>One publication: the subject, the \<^verbatim>\<open>Nats-Msg-Id\<close> and the stored body. The broker acknowledges
  it, or the attempt fails; a failed attempt may have reached the stream all the same.\<close>

type_synonym message = "string \<times> uuid \<times> outbox_payload"

datatype publication = Acknowledged | Failed publish_failure

type_synonym attempts = "(message \<times> publication) list"
type_synonym transport = "attempts \<Rightarrow> message \<Rightarrow> publication"

definition publish_row ::
  "transport \<Rightarrow> string \<Rightarrow> uuid \<Rightarrow> outbox_payload \<Rightarrow> attempts \<Rightarrow> publication \<times> attempts" where
  "publish_row transport subject event_id payload log =
    (let message = (subject, event_id, payload); answer = transport log message
     in (answer, log @ [(message, answer)]))"

text \<open>\<^verbatim>\<open>power(2, attempt_count)\<close> is the \<^verbatim>\<open>float8\<close> function: it raises
  \<^verbatim>\<open>numeric_value_out_of_range\<close> from \<open>2 ^ 1024\<close> on, before \<^verbatim>\<open>least\<close> is applied.\<close>

definition FLOAT8_MAX_EXPONENT :: nat where
  "FLOAT8_MAX_EXPONENT = 1024"

definition failed_now :: "env \<Rightarrow> string \<Rightarrow> outbox_row \<Rightarrow> outbox_row" where
  "failed_now E failure_class r = r\<lparr>ob_attempt_count := Suc (ob_attempt_count r),
    ob_last_error := Some failure_class,
    ob_next_attempt_at := Some (now E + seconds (min (2 ^ ob_attempt_count r) 300))\<rparr>"

definition record_failure :: "env \<Rightarrow> uuid \<Rightarrow> string \<Rightarrow> db \<Rightarrow> persistence_error + db" where
  "record_failure E event_id failure_class d =
    (if exists_where (\<lambda>r. ob_event_id r = event_id \<and> FLOAT8_MAX_EXPONENT \<le> ob_attempt_count r) (outbox d)
     then Inl (Query (ConstraintViolation ''numeric_value_out_of_range''))
     else Inr (d\<lparr>outbox := update_where (\<lambda>r. ob_event_id r = event_id) (failed_now E failure_class) (outbox d)\<rparr>))"

definition is_due_row :: "env \<Rightarrow> outbox_row \<Rightarrow> bool" where
  "is_due_row E r \<longleftrightarrow> ob_published_at r = None \<and> not_backed_off E r"

definition due_outbox :: "env \<Rightarrow> db \<Rightarrow> outbox_row list" where
  "due_outbox E d = take OUTBOX_BATCH_SIZE
    (sort_key (\<lambda>r. (ob_occurred_at r, ob_event_id r)) (filter (is_due_row E) (outbox d)))"

text \<open>The loop over the fresh rows, with the first failure carried along.\<close>

fun publish_due ::
  "env \<Rightarrow> resend_policy \<Rightarrow> transport \<Rightarrow> outbox_row list \<Rightarrow> nats_error option \<Rightarrow> db \<Rightarrow> attempts
    \<Rightarrow> (nats_error + nats_error option) \<times> db \<times> attempts" where
  "publish_due E policy transport [] first_failure d log = (Inr first_failure, d, log)"
| "publish_due E policy transport (r # rows) first_failure d log =
    (case outbox_subject (ob_event_type r) of
       None \<Rightarrow> (Inl UnexpectedOutboxEventType, d, log)
     | Some subject \<Rightarrow> (case publish_row transport subject (ob_event_id r) (ob_payload r) log of
         (Acknowledged, log) \<Rightarrow>
           publish_due E policy transport rows first_failure (mark_published E policy (ob_event_id r) d) log
       | (Failed failure, log) \<Rightarrow>
           (case record_failure E (ob_event_id r) (pf_class failure) d of
              Inl e \<Rightarrow> (Inl (NatsPersistence e), d, log)
            | Inr d \<Rightarrow> publish_due E policy transport rows
                (case first_failure of None \<Rightarrow> Some (pf_error failure) | Some e \<Rightarrow> Some e) d log)))"

fun resend_rows ::
  "env \<Rightarrow> resend_policy \<Rightarrow> transport \<Rightarrow> outbox_row list \<Rightarrow> db \<Rightarrow> attempts
    \<Rightarrow> (nats_error + nats_error option) \<times> db \<times> attempts" where
  "resend_rows E policy transport [] d log = (Inr None, d, log)"
| "resend_rows E policy transport (r # rows) d log =
    (case publish_row transport SOCIAL_REMOVED_SUBJECT (ob_event_id r) (ob_payload r) log of
       (Acknowledged, log) \<Rightarrow>
         resend_rows E policy transport rows (record_resend E policy (ob_event_id r) d) log
     | (Failed failure, log) \<Rightarrow>
         (case record_failure E (ob_event_id r) (pf_class failure) d of
            Inl e \<Rightarrow> (Inl (NatsPersistence e), d, log)
          | Inr d \<Rightarrow> (Inr (Some (pf_error failure)), d, log)))"

definition resend_unacknowledged ::
  "env \<Rightarrow> resend_policy \<Rightarrow> transport \<Rightarrow> db \<Rightarrow> attempts
    \<Rightarrow> (nats_error + nats_error option) \<times> db \<times> attempts" where
  "resend_unacknowledged E policy transport d log =
    resend_rows E policy transport (due_resends E OUTBOX_BATCH_SIZE d) d log"

definition U32_MAX :: int where
  "U32_MAX = 4294967295"

definition refresh_tombstone_gauges :: "env \<Rightarrow> db \<Rightarrow> int \<times> int" where
  "refresh_tombstone_gauges E d = (let waiting = unacknowledged_removals E d
    in (min (int (un_count waiting)) U32_MAX, un_oldest_age waiting))"

text \<open>The gauges are read and set, never stored: a pass returns its result, the database and the
  attempts.\<close>

definition flush_outbox ::
  "env \<Rightarrow> resend_policy \<Rightarrow> transport \<Rightarrow> db \<Rightarrow> attempts \<Rightarrow> (nats_error + unit) \<times> db \<times> attempts" where
  "flush_outbox E policy transport d log =
    (case publish_due E policy transport (due_outbox E d) None d log of
       (Inl e, d, log) \<Rightarrow> (Inl e, d, log)
     | (Inr (Some e), d, log) \<Rightarrow> (Inl e, d, log)
     | (Inr None, d, log) \<Rightarrow> (case resend_unacknowledged E policy transport d log of
           (Inl e, d, log) \<Rightarrow> (Inl e, d, log)
         | (Inr (Some e), d, log) \<Rightarrow> (Inl e, d, log)
         | (Inr None, d, log) \<Rightarrow> (Inr (), d, log)))"

section \<open>Deletion acknowledgements\<close>

definition DURABLE :: string where
  "DURABLE = ''ratatoskr_threads_deletion_acks''"

definition EVENTS_STREAM :: string where
  "EVENTS_STREAM = ''ratatoskr_events''"

definition FILTER_SUBJECT :: string where
  "FILTER_SUBJECT = ''evt.knowledge.deletion.acknowledged.v1''"

definition ACK_WAIT :: int where
  "ACK_WAIT = seconds 30"

definition NAK_DELAY :: int where
  "NAK_DELAY = seconds 2"

definition KNOWLEDGE :: string where
  "KNOWLEDGE = ''ratatoskr-knowledge''"

text \<open>The contract crate's acknowledgement. Its enums are open: a variant this build does not name
  is \<open>OtherFamily\<close>, \<open>OtherOutcome\<close> or \<open>OtherRefusal\<close>.\<close>

datatype deletion_ack_family = SocialFamily | OtherFamily string

datatype deletion_ack_outcome = OutcomeApplied | OutcomeRefused | OtherOutcome string

datatype deletion_ack_refusal = ForeignSubject | OtherRefusal string

record deletion_acknowledged =
  da_owner :: uuid
  da_family :: deletion_ack_family
  da_outcome :: deletion_ack_outcome
  da_acknowledged_event_id :: uuid
  da_refusal :: "deletion_ack_refusal option"

record ack_envelope =
  ae_producer :: string
  ae_tenant_id :: "uuid option"
  ae_payload :: "string + deletion_acknowledged"

datatype handled = HandledApplied | HandledRefused | HandledIgnored

datatype rejected = Unattributable | DatabaseFailed

record acks_summary =
  as_applied :: "64 word"
  as_refused :: "64 word"
  as_ignored :: "64 word"
  as_terminated :: "64 word"
  as_retried :: "64 word"

datatype acks_error =
    AcksBus string
  | AcksStopped

datatype ack_kind =
    KindAck
  | KindTerm
  | KindNak int

definition decode_ack :: "(bytes \<Rightarrow> string + ack_envelope) \<Rightarrow> bytes \<Rightarrow> deletion_acknowledged option" where
  "decode_ack from_json payload = (case from_json payload of
      Inl _ \<Rightarrow> None
    | Inr envelope \<Rightarrow>
        if ae_producer envelope \<noteq> KNOWLEDGE then None
        else (case ae_payload envelope of
            Inl _ \<Rightarrow> None
          | Inr acknowledgement \<Rightarrow>
              if ae_tenant_id envelope = Some (da_owner acknowledgement) then Some acknowledgement else None))"

definition refusal_class :: "deletion_ack_refusal option \<Rightarrow> string" where
  "refusal_class refusal = (case refusal of
      Some ForeignSubject \<Rightarrow> ''foreign_subject'' | _ \<Rightarrow> ''unspecified'')"

text \<open>\<open>outage\<close> says whether the statement of \<open>acknowledge\<close> fails.\<close>

definition apply_ack ::
  "env \<Rightarrow> (bytes \<Rightarrow> string + ack_envelope) \<Rightarrow> bool \<Rightarrow> bytes \<Rightarrow> db \<Rightarrow> (rejected + handled) \<times> db" where
  "apply_ack E from_json outage payload d = (case decode_ack from_json payload of
      None \<Rightarrow> (Inl Unattributable, d)
    | Some acknowledgement \<Rightarrow>
        if da_family acknowledgement \<noteq> SocialFamily then (Inr HandledIgnored, d)
        else (case da_outcome acknowledgement of
            OtherOutcome _ \<Rightarrow> (Inl Unattributable, d)
          | o' \<Rightarrow> (let outcome = (if o' = OutcomeApplied then Applied else Refused) in
              if outage then (Inl DatabaseFailed, d)
              else (case acknowledge E (da_acknowledged_event_id acknowledgement)
                    (tenant E (da_owner acknowledgement)) outcome d of
                  (changed, d) \<Rightarrow> (Inr (if \<not> changed then HandledIgnored
                     else (case outcome of Applied \<Rightarrow> HandledApplied | Refused \<Rightarrow> HandledRefused)), d)))))"

text \<open>One message of the pull loop: the answer to the broker and the updated totals.\<close>

fun settle_ack :: "rejected + handled \<Rightarrow> acks_summary \<Rightarrow> ack_kind \<times> acks_summary" where
  "settle_ack (Inr HandledApplied) s = (KindAck, s\<lparr>as_applied := as_applied s + 1\<rparr>)"
| "settle_ack (Inr HandledRefused) s = (KindAck, s\<lparr>as_refused := as_refused s + 1\<rparr>)"
| "settle_ack (Inr HandledIgnored) s = (KindAck, s\<lparr>as_ignored := as_ignored s + 1\<rparr>)"
| "settle_ack (Inl Unattributable) s = (KindTerm, s\<lparr>as_terminated := as_terminated s + 1\<rparr>)"
| "settle_ack (Inl DatabaseFailed) s = (KindNak NAK_DELAY, s\<lparr>as_retried := as_retried s + 1\<rparr>)"

text \<open>What the loop can see next: the stop signal, the end of the stream, a stream error (fatal when
  the durable was deleted or is push based), or a message.\<close>

datatype ack_arrival =
    Stop
  | StreamEnd
  | StreamError bool string
  | Message env bool bytes

fun consume_deletion_acks ::
  "(bytes \<Rightarrow> string + ack_envelope) \<Rightarrow> ack_arrival list \<Rightarrow> acks_summary \<Rightarrow> db \<Rightarrow> ack_kind list
    \<Rightarrow> (acks_error + acks_summary) option \<times> db \<times> ack_kind list" where
  "consume_deletion_acks from_json [] s d sent = (None, d, sent)"
| "consume_deletion_acks from_json (Stop # as) s d sent = (Some (Inr s), d, sent)"
| "consume_deletion_acks from_json (StreamEnd # as) s d sent = (Some (Inl AcksStopped), d, sent)"
| "consume_deletion_acks from_json (StreamError fatal e # as) s d sent =
    (if fatal then (Some (Inl (AcksBus e)), d, sent) else consume_deletion_acks from_json as s d sent)"
| "consume_deletion_acks from_json (Message E outage payload # as) s d sent =
    (let (result, d) = apply_ack E from_json outage payload d; (kind, s) = settle_ack result s
     in consume_deletion_acks from_json as s d (sent @ [kind]))"

section \<open>The command worker\<close>

definition COMMAND_STREAM :: string where
  "COMMAND_STREAM = ''ratatoskr_commands''"

definition COMMAND_SUBJECT :: string where
  "COMMAND_SUBJECT = ''cmd.threads.capture.requested.v1''"

definition NATS_CONSUMER_NAME :: string where
  "NATS_CONSUMER_NAME = ''threads_browser_capture''"

definition DISCONNECT_GRACE :: int where
  "DISCONNECT_GRACE = seconds 5"

definition TRANSIENT_NAK_DELAY :: int where
  "TRANSIENT_NAK_DELAY = seconds 2"

text \<open>\<^verbatim>\<open>ConnectionWatch::check\<close>: the state is the instant the loss was first seen.\<close>

definition watch_check :: "bool \<Rightarrow> instant \<Rightarrow> instant option \<Rightarrow> (nats_error + unit) \<times> instant option" where
  "watch_check connected t lost_since =
    (if connected then (Inr (), None)
     else (let since = (case lost_since of None \<Rightarrow> t | Some s \<Rightarrow> s)
       in (if t - since \<ge> DISCONNECT_GRACE then Inl (NatsBus ''the NATS connection was lost'') else Inr (),
           Some since)))"

datatype ack_policy = ExplicitAck | OtherAckPolicy

record consumer_config =
  cc_durable_name :: "string option"
  cc_filter_subject :: string
  cc_ack_policy :: ack_policy
  cc_ack_wait :: int
  cc_deliver_subject :: "string option"

definition validate_preprovisioned_consumer ::
  "string \<Rightarrow> string \<Rightarrow> consumer_config \<Rightarrow> nats_error + unit" where
  "validate_preprovisioned_consumer stream_name consumer_name config =
    bindE (ensure (\<not> (stream_name \<noteq> COMMAND_STREAM \<or> consumer_name \<noteq> NATS_CONSUMER_NAME
        \<or> cc_durable_name config \<noteq> Some NATS_CONSUMER_NAME))
      (NatsBus ''the preprovisioned consumer has the wrong durable identity'')) (\<lambda>_.
    bindE (ensure (\<not> (cc_filter_subject config \<noteq> COMMAND_SUBJECT))
      (NatsBus ''the preprovisioned consumer has the wrong subject filter'')) (\<lambda>_.
    ensure (\<not> (cc_deliver_subject config \<noteq> None \<or> cc_ack_policy config \<noteq> ExplicitAck))
      (NatsBus ''the preprovisioned consumer is not an explicit-ack pull consumer'')))"

definition acks_consumer :: "acks_error + consumer_config \<Rightarrow> acks_error + consumer_config" where
  "acks_consumer found = bindE found (\<lambda>config.
    if cc_durable_name config \<noteq> Some DURABLE \<or> cc_filter_subject config \<noteq> FILTER_SUBJECT
      \<or> cc_ack_policy config \<noteq> ExplicitAck \<or> cc_ack_wait config \<noteq> ACK_WAIT
      \<or> cc_deliver_subject config \<noteq> None
    then Inl (AcksBus ''the Edge-provisioned deletion-acknowledgement durable is mismatched'')
    else Inr config)"

text \<open>One command delivery. \<open>broker\<close> says whether the broker takes the settlement; the last component
  of the result is the settlement that was sent.\<close>

definition settle :: "(ack_kind \<Rightarrow> string option) \<Rightarrow> ack_kind \<Rightarrow> (nats_error + unit) \<times> ack_kind option" where
  "settle broker kind = (case broker kind of None \<Rightarrow> (Inr (), Some kind) | Some e \<Rightarrow> (Inl (NatsBus e), None))"


definition handle_delivery ::
  "env \<Rightarrow> (bytes \<Rightarrow> string + command_envelope) \<Rightarrow> (string \<Rightarrow> int option) \<Rightarrow> resend_policy \<Rightarrow> transport
    \<Rightarrow> (ack_kind \<Rightarrow> string option) \<Rightarrow> bytes \<Rightarrow> db \<Rightarrow> attempts
    \<Rightarrow> ((nats_error + unit) \<times> ack_kind option) \<times> db \<times> attempts" where
  "handle_delivery E from_json rfc3339 policy transport broker payload d log =
    (let settled = (\<lambda>delivered. case delivered of
          Inr (_, d) \<Rightarrow> (case flush_outbox E policy transport d log of
              (Inl e, d, log) \<Rightarrow> ((Inl e, None), d, log)
            | (Inr _, d, log) \<Rightarrow> (settle broker KindAck, d, log))
        | Inl (InboxPersistence _) \<Rightarrow> (settle broker (KindNak TRANSIENT_NAK_DELAY), d, log)
        | Inl (InboxSerialization _) \<Rightarrow>
            ((Inl (NatsBus ''the operation progress report could not be serialized''), None), d, log)
        | Inl (InboxContract _) \<Rightarrow>
            ((Inl (NatsBus ''the operation progress report could not be constructed''), None), d, log))
     in case intake from_json rfc3339 payload of
       IntakeAccepted command \<Rightarrow> settled (handle_command (E, Inl command) d)
     | IntakeRejected command _ \<Rightarrow> settled (handle_command (E, Inr command) d)
     | IntakeInvalid _ \<Rightarrow> (settle broker KindTerm, d, log))"

section \<open>What a statement of the relay may change\<close>

text \<open>The columns written when the row was queued. No statement of the relay touches them.\<close>

definition body :: "outbox_row \<Rightarrow> uuid \<times> string \<times> string \<times> uuid \<times> outbox_payload \<times> uuid option \<times> uuid option \<times> instant" where
  "body r = (ob_event_id r, ob_event_type r, ob_aggregate_type r, ob_aggregate_id r, ob_payload r,
    ob_correlation_id r, ob_causation_id r, ob_occurred_at r)"

text \<open>A row moves forward only: what was queued stays, a publication is never taken back, and an
  answer is never overwritten.\<close>

definition row_advances :: "outbox_row \<Rightarrow> outbox_row \<Rightarrow> bool" where
  "row_advances r s \<longleftrightarrow> body s = body r
    \<and> (ob_published_at r \<noteq> None \<longrightarrow> ob_published_at s = ob_published_at r)
    \<and> (ob_acknowledged_at r \<noteq> None \<longrightarrow> ob_acknowledged_at s = ob_acknowledged_at r
        \<and> ob_ack_outcome s = ob_ack_outcome r)
    \<and> (ob_ack_outcome s = ob_ack_outcome r \<or> opt_in (ob_ack_outcome s) {''applied'', ''refused''})"

definition advances :: "db \<Rightarrow> db \<Rightarrow> bool" where
  "advances d d' \<longleftrightarrow> list_all2 row_advances (outbox d) (outbox d') \<and> d' = d\<lparr>outbox := outbox d'\<rparr>"

lemma row_advances_refl [simp]: "row_advances r r"
  by (simp add: row_advances_def)

lemma row_advances_trans: "row_advances r s \<Longrightarrow> row_advances s t \<Longrightarrow> row_advances r t"
  by (simp add: row_advances_def) (metis)

lemma advances_refl [simp]: "advances d d"
  by (simp add: advances_def list_all2_refl)

lemma advances_trans:
  assumes "advances a b" "advances b c"
  shows "advances a c"
proof -
  have b: "b = a\<lparr>outbox := outbox b\<rparr>" and c: "c = b\<lparr>outbox := outbox c\<rparr>"
    using assms by (simp_all only: advances_def)
  have "c = a\<lparr>outbox := outbox b\<rparr>\<lparr>outbox := outbox c\<rparr>"
    by (rule trans [OF c arg_cong [of b _ "outbox_update (\<lambda>_. outbox c)", OF b]])
  moreover have "list_all2 row_advances (outbox a) (outbox c)"
    using assms by (auto simp only: advances_def intro: list_all2_trans [OF row_advances_trans])
  ultimately show ?thesis by (simp add: advances_def)
qed

lemma list_all2_map_eq: "list_all2 R xs ys \<Longrightarrow> (\<And>x y. R x y \<Longrightarrow> g y = g x) \<Longrightarrow> map g ys = map g xs"
  by (induction rule: list_all2_induct) auto

lemma advances_body: "advances d d' \<Longrightarrow> map body (outbox d') = map body (outbox d)"
  by (auto simp: advances_def row_advances_def intro: list_all2_map_eq)

lemma row_advances_check: "row_advances r s \<Longrightarrow> outbox_check r \<Longrightarrow> outbox_check s"
  by (auto simp: row_advances_def outbox_check_def body_def)

lemma advances_schema:
  assumes "advances d d'" "schema_ok d"
  shows "schema_ok d'"
proof -
  have rows: "list_all2 row_advances (outbox d) (outbox d')" and frame: "d' = d\<lparr>outbox := outbox d'\<rparr>"
    using assms(1) by (simp_all add: advances_def)
  have ids: "map ob_event_id (outbox d') = map ob_event_id (outbox d)"
    by (rule list_all2_map_eq [OF rows]) (simp add: row_advances_def body_def)
  have "table_ok ob_event_id outbox_check (outbox d)"
    using assms(2) by (simp add: schema_defs)
  then have "distinct (map ob_event_id (outbox d'))" "list_all outbox_check (outbox d)"
    by (simp_all add: table_ok_def ids)
  moreover have "list_all outbox_check (outbox d) \<Longrightarrow> list_all outbox_check (outbox d')"
    using rows by (induction rule: list_all2_induct) (auto intro: row_advances_check)
  ultimately have "table_ok ob_event_id outbox_check (outbox d')"
    by (simp add: table_ok_def)
  with assms(2) show ?thesis by (subst frame) (simp add: schema_defs)
qed

text \<open>The contract of one statement \<open>update outbox_events set .. where ..\<close> of the relay, interpreted
  below on the four statements the code has.\<close>

locale outbox_statement =
  fixes guard :: "outbox_row \<Rightarrow> bool" and set_columns :: "outbox_row \<Rightarrow> outbox_row"
  assumes forward: "guard r \<Longrightarrow> row_advances r (set_columns r)"
begin

definition run :: "db \<Rightarrow> db" where
  "run d = d\<lparr>outbox := update_where guard set_columns (outbox d)\<rparr>"

lemma run_advances: "advances d (run d)"
  by (simp add: advances_def run_def update_where_def list_all2_conv_all_nth forward)

lemma run_find:
  assumes "\<And>r. key (set_columns r) = key r"
  shows "List.find (\<lambda>r. key r = k) (outbox (run d))
    = map_option (\<lambda>r. if guard r then set_columns r else r) (List.find (\<lambda>r. key r = k) (outbox d))"
  unfolding run_def by (simp add: assms find_update_where)

end

interpretation publishing: outbox_statement
  "\<lambda>r. ob_event_id r = event_id \<and> ob_published_at r = None" "published_now E policy"
  for E policy event_id
  by unfold_locales (auto simp: row_advances_def published_now_def body_def)

interpretation resending: outbox_statement
  "\<lambda>r. ob_event_id r = event_id \<and> ob_event_type r = REMOVAL_EVENT_TYPE
     \<and> ob_published_at r \<noteq> None \<and> ob_acknowledged_at r = None" "resent_now E policy"
  for E policy event_id
  by unfold_locales (auto simp: row_advances_def resent_now_def body_def)

interpretation answering: outbox_statement "is_open_removal E event_id tenant_text" "answered_now E outcome"
  for E event_id tenant_text outcome
  by unfold_locales (cases outcome; auto simp: row_advances_def answered_now_def is_open_removal_def body_def)

interpretation failing: outbox_statement "\<lambda>r. ob_event_id r = event_id" "failed_now E failure_class"
  for E event_id failure_class
  by unfold_locales (auto simp: row_advances_def failed_now_def body_def)

lemma mark_published_run: "mark_published E policy event_id d = publishing.run event_id E policy d"
  by (simp add: mark_published_def publishing.run_def)

lemma record_resend_run: "record_resend E policy event_id d = resending.run event_id E policy d"
  unfolding record_resend_def resending.run_def by (rule refl)

lemma acknowledge_run:
  "snd (acknowledge E event_id tenant_text outcome d) = answering.run E event_id tenant_text outcome d"
  by (simp add: acknowledge_def answering.run_def)

lemma record_failure_run:
  "record_failure E event_id failure_class d = Inr d' \<Longrightarrow> d' = failing.run event_id E failure_class d"
  by (simp add: record_failure_def failing.run_def split: if_splits)

lemma relay_advances:
  "advances d (mark_published E policy event_id d)"
  "advances d (record_resend E policy event_id d)"
  "advances d (snd (acknowledge E event_id tenant_text outcome d))"
  "record_failure E event_id failure_class d = Inr d' \<Longrightarrow> advances d d'"
  unfolding mark_published_run record_resend_run acknowledge_run
  using publishing.run_advances resending.run_advances answering.run_advances failing.run_advances
  by (blast dest: record_failure_run)+

lemma publish_due_advances:
  "publish_due E policy transport rows first d log = (res, d', log') \<Longrightarrow> advances d d'"
proof (induction rows arbitrary: first d log)
  case Nil
  then show ?case by simp
next
  case (Cons r rows)
  then show ?case
    by (auto simp: publish_row_def Let_def split: option.splits publication.splits sum.splits prod.splits
        intro: advances_trans [OF relay_advances(1)] advances_trans [OF relay_advances(4)])
qed

lemma resend_rows_advances:
  "resend_rows E policy transport rows d log = (res, d', log') \<Longrightarrow> advances d d'"
proof (induction rows arbitrary: d log)
  case Nil
  then show ?case by simp
next
  case (Cons r rows)
  then show ?case
    by (auto simp: publish_row_def Let_def split: publication.splits sum.splits prod.splits
        intro: advances_trans [OF relay_advances(2)] relay_advances(4))
qed

text \<open>A pass of the pump is the loop over the fresh rows, and the resend loop when nothing failed.\<close>

lemma flush_outbox_cases:
  assumes "flush_outbox E policy transport d log = (res, d', log')"
  obtains (stopped) err where "publish_due E policy transport (due_outbox E d) None d log = (Inl err, d', log')"
      "res = Inl err"
  | (failed) err where "publish_due E policy transport (due_outbox E d) None d log = (Inr (Some err), d', log')"
      "res = Inl err"
  | (resent) d1 log1 res2 where "publish_due E policy transport (due_outbox E d) None d log = (Inr None, d1, log1)"
      "resend_rows E policy transport (due_resends E OUTBOX_BATCH_SIZE d1) d1 log1 = (res2, d', log')"
      "res = (case res2 of Inl err \<Rightarrow> Inl err | Inr (Some err) \<Rightarrow> Inl err | Inr None \<Rightarrow> Inr ())"
  using assms unfolding flush_outbox_def resend_unacknowledged_def
  by (auto split: prod.splits sum.splits option.splits)

lemma flush_advances:
  assumes "flush_outbox E policy transport d log = (res, d', log')"
  shows "advances d d'"
  using assms
  by (cases rule: flush_outbox_cases)
    (auto dest: publish_due_advances resend_rows_advances intro: advances_trans)

lemma apply_ack_advances:
  "apply_ack E from_json outage payload d = (res, d') \<Longrightarrow> advances d d'"
  unfolding apply_ack_def Let_def
  by (auto split: option.splits if_splits deletion_ack_outcome.splits prod.splits)
    (metis relay_advances(3) snd_conv)+

section \<open>The abstract relay\<close>

text \<open>What the relay promises about a queued fact, without clocks, backoff and error classes: whether
  it was published, how many more copies the broker took, and whether Knowledge answered. The only
  event is that the broker acknowledges a copy.\<close>

record delivery =
  dv_removal :: bool
  dv_published :: bool
  dv_copies :: nat
  dv_answered :: bool

type_synonym relay = "uuid \<Rightarrow> delivery option"

definition abs_row :: "outbox_row \<Rightarrow> delivery" where
  "abs_row r = \<lparr>dv_removal = (ob_event_type r = REMOVAL_EVENT_TYPE), dv_published = (ob_published_at r \<noteq> None),
    dv_copies = ob_resend_count r, dv_answered = (ob_acknowledged_at r \<noteq> None)\<rparr>"

definition row_of :: "uuid \<Rightarrow> db \<Rightarrow> outbox_row option" where
  "row_of event_id d = List.find (\<lambda>r. ob_event_id r = event_id) (outbox d)"

definition relay_of :: "db \<Rightarrow> relay" where
  "relay_of d = (\<lambda>event_id. map_option abs_row (row_of event_id d))"

definition accept :: "uuid \<Rightarrow> relay \<Rightarrow> relay" where
  "accept event_id m = (case m event_id of
      None \<Rightarrow> m
    | Some x \<Rightarrow> if \<not> dv_published x then m(event_id \<mapsto> x\<lparr>dv_published := True\<rparr>)
        else if dv_removal x \<and> \<not> dv_answered x then m(event_id \<mapsto> x\<lparr>dv_copies := Suc (dv_copies x)\<rparr>)
        else m)"

definition accepted :: "attempts \<Rightarrow> uuid list" where
  "accepted log = map (\<lambda>(m, answer). fst (snd m)) (filter (\<lambda>(m, answer). answer = Acknowledged) log)"

lemma accepted_simps [simp]:
  "accepted [] = []"
  "accepted ((m, Acknowledged) # log) = fst (snd m) # accepted log"
  "accepted ((m, Failed f) # log) = accepted log"
  "accepted (log @ log') = accepted log @ accepted log'"
  by (simp_all add: accepted_def)

lemma row_of_statements:
  "row_of i (mark_published E policy event_id d)
    = map_option (\<lambda>r. if i = event_id \<and> ob_published_at r = None then published_now E policy r else r) (row_of i d)"
  "row_of i (record_resend E policy event_id d)
    = map_option (\<lambda>r. if i = event_id \<and> ob_event_type r = REMOVAL_EVENT_TYPE \<and> ob_published_at r \<noteq> None
        \<and> ob_acknowledged_at r = None then resent_now E policy r else r) (row_of i d)"
  "record_failure E event_id failure_class d = Inr d' \<Longrightarrow> row_of i d'
    = map_option (\<lambda>r. if i = event_id then failed_now E failure_class r else r) (row_of i d)"
proof -
  have key: "row_of i d = Some r \<Longrightarrow> ob_event_id r = i" for r
    by (auto simp: row_of_def dest: find_SomeD)
  note find = publishing.run_find [where key = ob_event_id] resending.run_find [where key = ob_event_id]
    failing.run_find [where key = ob_event_id]
  show "row_of i (mark_published E policy event_id d)
    = map_option (\<lambda>r. if i = event_id \<and> ob_published_at r = None then published_now E policy r else r) (row_of i d)"
    using key by (cases "row_of i d") (simp_all add: mark_published_run row_of_def find published_now_def)
  show "row_of i (record_resend E policy event_id d)
    = map_option (\<lambda>r. if i = event_id \<and> ob_event_type r = REMOVAL_EVENT_TYPE \<and> ob_published_at r \<noteq> None
        \<and> ob_acknowledged_at r = None then resent_now E policy r else r) (row_of i d)"
    unfolding record_resend_run using key
    by (cases "row_of i d") (simp_all add: row_of_def find resent_now_def del: not_None_eq)
  show "row_of i d' = map_option (\<lambda>r. if i = event_id then failed_now E failure_class r else r) (row_of i d)"
    if "record_failure E event_id failure_class d = Inr d'"
    unfolding record_failure_run [OF that] using key
    by (cases "row_of i d") (simp_all add: row_of_def find failed_now_def)
qed

lemma abs_statements:
  "relay_of d event_id = Some x \<Longrightarrow> \<not> dv_published x \<Longrightarrow> relay_of (mark_published E policy event_id d) = accept event_id (relay_of d)"
  "relay_of d event_id = Some x \<Longrightarrow> dv_published x \<Longrightarrow> relay_of (record_resend E policy event_id d) = accept event_id (relay_of d)"
  "record_failure E event_id failure_class d = Inr d' \<Longrightarrow> relay_of d' = relay_of d"
proof -
  note defs = relay_of_def accept_def row_of_statements abs_row_def published_now_def resent_now_def failed_now_def
  show "relay_of (mark_published E policy event_id d) = accept event_id (relay_of d)"
    if "relay_of d event_id = Some x" "\<not> dv_published x"
  proof
    fix i
    show "relay_of (mark_published E policy event_id d) i = accept event_id (relay_of d) i"
      using that by (cases "row_of i d"; cases "i = event_id") (auto simp: defs)
  qed
  show "relay_of (record_resend E policy event_id d) = accept event_id (relay_of d)"
    if "relay_of d event_id = Some x" "dv_published x"
  proof
    fix i
    show "relay_of (record_resend E policy event_id d) i = accept event_id (relay_of d) i"
      using that by (cases "row_of i d"; cases "i = event_id") (auto simp: defs)
  qed
  show "relay_of d' = relay_of d" if "record_failure E event_id failure_class d = Inr d'"
  proof
    fix i
    show "relay_of d' i = relay_of d i"
      using that by (cases "row_of i d") (auto simp: defs)
  qed
qed

lemma accept_elsewhere: "i \<noteq> event_id \<Longrightarrow> accept event_id m i = m i"
  by (simp add: accept_def split: option.splits)

lemma accept_published: "m i = Some x \<Longrightarrow> dv_published x \<Longrightarrow> \<exists>y. accept event_id m i = Some y \<and> dv_published y"
  by (auto simp: accept_def split: option.splits)

lemma publish_due_refines:
  assumes "publish_due E policy transport rows first d log = (res, d', log')"
    and "distinct (map ob_event_id rows)"
    and "\<forall>r \<in> set rows. \<exists>x. relay_of d (ob_event_id r) = Some x \<and> \<not> dv_published x"
  shows "\<exists>new. log' = log @ new \<and> relay_of d' = fold accept (accepted new) (relay_of d)"
  using assms
proof (induction rows arbitrary: first d log)
  case Nil
  then show ?case by simp
next
  case (Cons r rows)
  obtain x where x: "relay_of d (ob_event_id r) = Some x" "\<not> dv_published x"
    using Cons.prems(3) by (meson list.set_intros(1))
  have others: "distinct (map ob_event_id rows)" "ob_event_id r \<notin> ob_event_id ` set rows"
    "\<forall>s \<in> set rows. \<exists>x. relay_of d (ob_event_id s) = Some x \<and> \<not> dv_published x"
    using Cons.prems(2,3) by simp_all
  show ?case
  proof (cases "outbox_subject (ob_event_type r)")
    case None
    then show ?thesis using Cons.prems(1) by simp
  next
    case (Some subject)
    let ?m = "(subject, ob_event_id r, ob_payload r)"
    show ?thesis
    proof (cases "transport log ?m")
      case Acknowledged
      let ?d = "mark_published E policy (ob_event_id r) d"
      have step: "relay_of ?d = accept (ob_event_id r) (relay_of d)" by (rule abs_statements(1) [OF x])
      have "publish_due E policy transport rows first ?d (log @ [(?m, Acknowledged)]) = (res, d', log')"
        using Cons.prems(1) Some Acknowledged by (simp add: publish_row_def Let_def)
      moreover have "\<forall>s \<in> set rows. \<exists>x. relay_of ?d (ob_event_id s) = Some x \<and> \<not> dv_published x"
        using others(2,3) unfolding step by (metis accept_elsewhere image_eqI)
      ultimately obtain new where "log' = (log @ [(?m, Acknowledged)]) @ new"
        "relay_of d' = fold accept (accepted new) (relay_of ?d)"
        using Cons.IH [OF _ others(1)] by blast
      then show ?thesis by (intro exI [of _ "(?m, Acknowledged) # new"]) (simp add: step)
    next
      case (Failed f)
      show ?thesis
      proof (cases "record_failure E (ob_event_id r) (pf_class f) d")
        case (Inl e)
        then show ?thesis using Cons.prems(1) Some Failed
          by (intro exI [of _ "[(?m, Failed f)]"]) (simp add: publish_row_def Let_def)
      next
        case (Inr d1)
        obtain first' where "publish_due E policy transport rows first' d1 (log @ [(?m, Failed f)]) = (res, d', log')"
          using Cons.prems(1) Some Failed Inr by (simp add: publish_row_def Let_def)
        then obtain new where "log' = (log @ [(?m, Failed f)]) @ new"
          "relay_of d' = fold accept (accepted new) (relay_of d1)"
          using Cons.IH [of first' d1, OF _ others(1)] others(3) unfolding abs_statements(3) [OF Inr] by blast
        then show ?thesis by (intro exI [of _ "(?m, Failed f) # new"]) (simp add: abs_statements(3) [OF Inr])
      qed
    qed
  qed
qed

lemma resend_rows_refines:
  assumes "resend_rows E policy transport rows d log = (res, d', log')"
    and "\<forall>r \<in> set rows. \<exists>x. relay_of d (ob_event_id r) = Some x \<and> dv_published x"
  shows "\<exists>new. log' = log @ new \<and> relay_of d' = fold accept (accepted new) (relay_of d)
    \<and> (res = Inr None \<longleftrightarrow> (\<forall>a \<in> set new. snd a = Acknowledged))"
  using assms
proof (induction rows arbitrary: d log)
  case Nil
  then show ?case by simp
next
  case (Cons r rows)
  obtain x where x: "relay_of d (ob_event_id r) = Some x" "dv_published x" using Cons.prems(2) by auto
  let ?m = "(SOCIAL_REMOVED_SUBJECT, ob_event_id r, ob_payload r)"
  show ?case
  proof (cases "transport log ?m")
    case Acknowledged
    let ?d = "record_resend E policy (ob_event_id r) d"
    have step: "relay_of ?d = accept (ob_event_id r) (relay_of d)" by (rule abs_statements(2) [OF x])
    have "resend_rows E policy transport rows ?d (log @ [(?m, Acknowledged)]) = (res, d', log')"
      using Cons.prems(1) Acknowledged by (simp add: publish_row_def Let_def)
    moreover have "\<forall>s \<in> set rows. \<exists>x. relay_of ?d (ob_event_id s) = Some x \<and> dv_published x"
      using Cons.prems(2) unfolding step by (auto intro: accept_published)
    ultimately obtain new where "log' = (log @ [(?m, Acknowledged)]) @ new"
      "relay_of d' = fold accept (accepted new) (relay_of ?d)" "res = Inr None \<longleftrightarrow> (\<forall>a \<in> set new. snd a = Acknowledged)"
      using Cons.IH by blast
    then show ?thesis by (intro exI [of _ "(?m, Acknowledged) # new"]) (simp add: step)
  next
    case (Failed f)
    then show ?thesis using Cons.prems(1)
      by (auto simp: publish_row_def Let_def abs_statements(3) split: sum.splits)
  qed
qed

section \<open>What a pass does to each row\<close>

definition message_of :: "outbox_row \<Rightarrow> message" where
  "message_of r = (the (outbox_subject (ob_event_type r)), ob_event_id r, ob_payload r)"

text \<open>The row after its publication was attempted.\<close>

fun settled_row :: "env \<Rightarrow> resend_policy \<Rightarrow> outbox_row \<Rightarrow> publication \<Rightarrow> outbox_row" where
  "settled_row E policy r Acknowledged = published_now E policy r"
| "settled_row E policy r (Failed f) = failed_now E (pf_class f) r"

definition poisoned :: "outbox_row \<Rightarrow> bool" where
  "poisoned r \<longleftrightarrow> FLOAT8_MAX_EXPONENT \<le> ob_attempt_count r"

lemma row_ofD: "row_of i d = Some r \<Longrightarrow> r \<in> set (outbox d) \<and> ob_event_id r = i"
  by (auto simp: row_of_def dest: find_SomeD)

lemma row_of_unique: "schema_ok d \<Longrightarrow> r \<in> set (outbox d) \<Longrightarrow> row_of (ob_event_id r) d = Some r"
  by (auto simp: row_of_def schema_defs intro: table_ok_find)

text \<open>The loop settles a prefix of its rows, each exactly once and in order, and stops early only at
  a refused row whose backoff can no longer be computed.\<close>

definition settles ::
  "env \<Rightarrow> resend_policy \<Rightarrow> outbox_row list \<Rightarrow> publication list \<Rightarrow> db \<Rightarrow> db \<Rightarrow> bool" where
  "settles E policy rows answers d d' \<longleftrightarrow>
    list_all2 (\<lambda>r a. row_of (ob_event_id r) d' = Some (settled_row E policy r a)) rows answers
    \<and> (\<forall>i. i \<notin> ob_event_id ` set rows \<longrightarrow> row_of i d' = row_of i d)"

lemma settles_Cons:
  assumes "row_of (ob_event_id r) d1 = Some (settled_row E policy r a)"
    and "\<And>i. i \<noteq> ob_event_id r \<Longrightarrow> row_of i d1 = row_of i d"
    and "ob_event_id r \<notin> ob_event_id ` set rows"
    and "settles E policy rows answers d1 d'"
  shows "settles E policy (r # rows) (a # answers) d d'"
  using assms by (auto simp: settles_def)

lemma settle_one:
  assumes "row_of (ob_event_id r) d = Some r"
  shows "ob_published_at r = None \<Longrightarrow>
      row_of (ob_event_id r) (mark_published E policy (ob_event_id r) d) = Some (settled_row E policy r Acknowledged)"
    and "record_failure E (ob_event_id r) (pf_class f) d = Inr d1 \<Longrightarrow>
      row_of (ob_event_id r) d1 = Some (settled_row E policy r (Failed f))"
  using assms by (simp_all add: row_of_statements)

lemma settle_elsewhere:
  assumes "i \<noteq> event_id"
  shows "row_of i (mark_published E policy event_id d) = row_of i d"
    and "record_failure E event_id failure_class d = Inr d1 \<Longrightarrow> row_of i d1 = row_of i d"
  using assms by (simp_all add: row_of_statements option.map_ident)

lemma record_failure_Inl:
  assumes "record_failure E (ob_event_id r) c d = Inl e" "row_of (ob_event_id r) d = Some r" "schema_ok d"
  shows "poisoned r"
proof -
  have "exists_where (\<lambda>s. ob_event_id s = ob_event_id r \<and> FLOAT8_MAX_EXPONENT \<le> ob_attempt_count s) (outbox d)"
    using assms(1) by (simp add: record_failure_def split: if_splits)
  then obtain s where s: "s \<in> set (outbox d)" "ob_event_id s = ob_event_id r" "FLOAT8_MAX_EXPONENT \<le> ob_attempt_count s"
    unfolding exists_where_iff by blast
  have "s = r" using row_of_unique [OF assms(3) s(1)] assms(2) unfolding s(2) by (metis option.inject)
  then show ?thesis using s(3) by (simp add: poisoned_def)
qed

definition OUT_OF_RANGE :: nats_error where
  "OUT_OF_RANGE = NatsPersistence (Query (ConstraintViolation ''numeric_value_out_of_range''))"

text \<open>How the loop ended: after all its rows, or at the refused row that could not be backed off.\<close>

definition loop_end ::
  "attempts \<Rightarrow> attempts \<Rightarrow> nats_error option \<Rightarrow> nats_error + nats_error option \<Rightarrow> outbox_row list
    \<Rightarrow> publication list \<Rightarrow> outbox_row list \<Rightarrow> bool" where
  "loop_end log log' first res before answers rest \<longleftrightarrow> (case rest of
      [] \<Rightarrow> log' = log @ zip (map message_of before) answers
        \<and> (\<exists>f. res = Inr f \<and> (f = None \<longleftrightarrow> first = None \<and> set answers \<subseteq> {Acknowledged}))
    | r # _ \<Rightarrow> poisoned r \<and> res = Inl OUT_OF_RANGE
        \<and> (\<exists>f. log' = log @ zip (map message_of before) answers @ [(message_of r, Failed f)]))"

lemma loop_end_Cons:
  assumes "loop_end (log @ [(message_of r, a)]) log' first1 res before answers rest"
    and "first1 = None \<longleftrightarrow> first = None \<and> a = Acknowledged"
  shows "loop_end log log' first res (r # before) (a # answers) rest"
  using assms by (cases rest) (auto simp: loop_end_def simp del: split_paired_Ex)

definition awaits_publication :: "db \<Rightarrow> outbox_row \<Rightarrow> bool" where
  "awaits_publication d r \<longleftrightarrow> row_of (ob_event_id r) d = Some r \<and> ob_published_at r = None
    \<and> outbox_subject (ob_event_type r) \<noteq> None"

lemma publish_due_steps:
  assumes "publish_due E policy transport rows first d log = (res, d', log')"
    and "distinct (map ob_event_id rows)" and "schema_ok d" and "list_all (awaits_publication d) rows"
  shows "\<exists>before rest answers. rows = before @ rest \<and> settles E policy before answers d d'
    \<and> loop_end log log' first res before answers rest"
  using assms
proof (induction rows arbitrary: first d log)
  case Nil
  then have "res = Inr first" "d' = d" "log' = log" by simp_all
  then show ?case by (intro exI [of _ "[]"]) (simp add: settles_def loop_end_def)
next
  case (Cons r rows)
  have r: "row_of (ob_event_id r) d = Some r" "ob_published_at r = None"
    and fresh: "ob_event_id r \<notin> ob_event_id ` set rows" and others: "distinct (map ob_event_id rows)"
    using Cons.prems(2,4) by (simp_all add: awaits_publication_def)
  obtain subject where subject: "outbox_subject (ob_event_type r) = Some subject"
    using Cons.prems(4) by (simp add: awaits_publication_def) (metis)
  then have message: "message_of r = (subject, ob_event_id r, ob_payload r)" by (simp add: message_of_def)
  have onward: ?case
    if step: "publish_due E policy transport rows first1 d1 (log @ [(message_of r, a)]) = (res, d', log')"
      and row: "row_of (ob_event_id r) d1 = Some (settled_row E policy r a)"
      and elsewhere: "\<And>i. i \<noteq> ob_event_id r \<Longrightarrow> row_of i d1 = row_of i d"
      and ok: "schema_ok d1" and first: "first1 = None \<longleftrightarrow> first = None \<and> a = Acknowledged" for first1 d1 a
  proof -
    have "list_all (awaits_publication d1) rows"
      using Cons.prems(4) elsewhere fresh unfolding list_all_iff awaits_publication_def
      by (metis image_eqI list.set_intros(2))
    then obtain before rest answers where IH: "rows = before @ rest" "settles E policy before answers d1 d'"
      "loop_end (log @ [(message_of r, a)]) log' first1 res before answers rest"
      using Cons.IH [OF step others ok] by blast
    have "ob_event_id r \<notin> ob_event_id ` set before" using fresh IH(1) by auto
    note settles_Cons [OF row elsewhere this IH(2)]
    with IH(1) loop_end_Cons [OF IH(3) first] show ?thesis
      by (intro exI [of _ "r # before"] exI [of _ rest] exI [of _ "a # answers"] conjI) simp_all
  qed
  show ?case
  proof (cases "transport log (message_of r)")
    case Acknowledged
    show ?thesis
    proof (rule onward)
      show "publish_due E policy transport rows first (mark_published E policy (ob_event_id r) d)
        (log @ [(message_of r, Acknowledged)]) = (res, d', log')"
        using Cons.prems(1) subject Acknowledged by (simp add: publish_row_def Let_def message)
    qed (rule settle_one(1) [OF r] settle_elsewhere(1) advances_schema [OF relay_advances(1) Cons.prems(3)] | simp)+
  next
    case (Failed f)
    show ?thesis
    proof (cases "record_failure E (ob_event_id r) (pf_class f) d")
      case (Inl e)
      have e: "NatsPersistence e = OUT_OF_RANGE"
        using Inl by (simp add: record_failure_def OUT_OF_RANGE_def split: if_splits)
      have "res = Inl OUT_OF_RANGE" "d' = d" "log' = log @ [(message_of r, Failed f)]"
        using Cons.prems(1) subject Failed Inl by (simp_all add: publish_row_def Let_def message e)
      then show ?thesis
        using record_failure_Inl [OF Inl r(1) Cons.prems(3)]
        by (intro exI [of _ "[]"] exI [of _ "r # rows"]) (simp add: settles_def loop_end_def)
    next
      case (Inr d1)
      show ?thesis
      proof (rule onward)
        show "publish_due E policy transport rows
          (case first of None \<Rightarrow> Some (pf_error f) | Some e \<Rightarrow> Some e) d1 (log @ [(message_of r, Failed f)]) = (res, d', log')"
          using Cons.prems(1) subject Failed Inr by (simp add: publish_row_def Let_def message)
      qed (rule settle_one(2) [OF r(1) Inr] settle_elsewhere(2) [OF _ Inr]
          advances_schema [OF relay_advances(4) [OF Inr] Cons.prems(3)] | simp split: option.split)+
    qed
  qed
qed


lemma due_outbox_mem: "r \<in> set (due_outbox E d) \<Longrightarrow> r \<in> set (outbox d) \<and> is_due_row E r"
  by (auto simp: due_outbox_def dest: in_set_takeD)

lemma due_resends_mem: "r \<in> set (due_resends E n d) \<Longrightarrow> r \<in> set (outbox d) \<and> is_due_resend E r"
  by (auto simp: due_resends_def dest: in_set_takeD)

lemma due_outbox_distinct:
  assumes "schema_ok d"
  shows "distinct (map ob_event_id (due_outbox E d))"
proof -
  have "distinct (map ob_event_id (filter (is_due_row E) (outbox d)))"
    using assms by (simp add: schema_defs table_ok_def distinct_map_filter)
  then have "distinct (map ob_event_id (sort_key (\<lambda>r. (ob_occurred_at r, ob_event_id r)) (filter (is_due_row E) (outbox d))))"
    by (simp add: distinct_map)
  then show ?thesis unfolding due_outbox_def take_map [symmetric] by (rule distinct_take)
qed

lemma stored_subject:
  assumes "schema_ok d" "r \<in> set (outbox d)"
  shows "outbox_subject (ob_event_type r) \<noteq> None"
proof -
  have "ob_event_type r \<in> set EVENT_TYPES"
    using assms by (auto simp: schema_defs outbox_check_def dest: table_ok_row)
  then show ?thesis by (auto simp: EVENT_TYPES_def outbox_subject_def REMOVAL_EVENT_TYPE_def)
qed

lemma due_outbox_awaits:
  assumes "schema_ok d"
  shows "list_all (awaits_publication d) (due_outbox E d)"
  using assms unfolding list_all_iff awaits_publication_def
  by (blast dest: due_outbox_mem intro: row_of_unique stored_subject [unfolded not_None_eq] dest: is_due_row_def [THEN iffD1])

lemma settles_length: "settles E policy rows answers d d' \<Longrightarrow> length answers = length rows"
  by (auto simp: settles_def dest: list_all2_lengthD)

lemma snd_zip: "length xs = length ys \<Longrightarrow> snd ` set (zip xs ys) = set ys"
  by (metis list.set_map map_snd_zip)

text \<open>The loop over the fresh rows in a pass.\<close>

lemma fresh_rows:
  assumes "schema_ok d" "publish_due E policy transport (due_outbox E d) None d log = (res, d', log')"
  obtains before rest answers where "due_outbox E d = before @ rest" "settles E policy before answers d d'"
    "loop_end log log' None res before answers rest"
  using publish_due_steps [OF assms(2) due_outbox_distinct [OF assms(1)] assms(1) due_outbox_awaits [OF assms(1)]]
  by blast

lemma fresh_rows_refine:
  assumes "schema_ok d" "publish_due E policy transport (due_outbox E d) None d log = (res, d', log')"
  shows "\<exists>new. log' = log @ new \<and> relay_of d' = fold accept (accepted new) (relay_of d)
    \<and> (res = Inr None \<longleftrightarrow> (\<forall>a \<in> set new. snd a = Acknowledged))"
proof -
  have "\<forall>r \<in> set (due_outbox E d). \<exists>x. relay_of d (ob_event_id r) = Some x \<and> \<not> dv_published x"
    using due_outbox_awaits [OF assms(1)]
    by (simp add: list_all_iff awaits_publication_def relay_of_def abs_row_def)
  then obtain new where new: "log' = log @ new" "relay_of d' = fold accept (accepted new) (relay_of d)"
    using publish_due_refines [OF assms(2) due_outbox_distinct [OF assms(1)]] by blast
  obtain before rest answers where steps: "settles E policy before answers d d'"
    "loop_end log log' None res before answers rest"
    using fresh_rows [OF assms] by blast
  have "set answers = snd ` set (zip (map message_of before) answers)"
    using settles_length [OF steps(1)] by (simp add: snd_zip)
  then have "res = Inr None \<longleftrightarrow> (\<forall>a \<in> set new. snd a = Acknowledged)"
    using steps(2) new(1) by (cases rest) (auto simp: loop_end_def)
  with new show ?thesis by blast
qed

lemma due_resends_published:
  assumes "schema_ok d"
  shows "\<forall>r \<in> set (due_resends E n d). \<exists>x. relay_of d (ob_event_id r) = Some x \<and> dv_published x"
proof
  fix r assume r: "r \<in> set (due_resends E n d)"
  then have "row_of (ob_event_id r) d = Some r" "ob_published_at r \<noteq> None"
    using due_resends_mem [OF r] row_of_unique [OF assms] by (simp_all add: is_due_resend_def)
  then show "\<exists>x. relay_of d (ob_event_id r) = Some x \<and> dv_published x"
    by (simp add: relay_of_def abs_row_def)
qed

section \<open>Properties\<close>

definition sample_removal :: event_envelope where
  "sample_removal = \<lparr>ev_event_id = 1, ev_event_type = REMOVED_EVENT, ev_occurred_at = 0,
    ev_producer = PRODUCER, ev_aggregate_id = ''social_source:9'', ev_correlation_id = ''deletion:7'',
    ev_tenant_id = ''user:1'', ev_schema_version = 1, ev_payload = SourceRemoved 9 1 0\<rparr>"

definition queued_removal :: "uuid \<Rightarrow> nat \<Rightarrow> outbox_row" where
  "queued_removal event_id attempt_count = (outbox_entry (sample_env 0) event_id REMOVED_EVENT ''capture'' 5
    (EventPayload sample_removal) None None)\<lparr>ob_attempt_count := attempt_count\<rparr>"

definition queued_db :: "nat \<Rightarrow> db" where
  "queued_db attempt_count = empty_db\<lparr>outbox := [queued_removal 1 attempt_count, queued_removal 2 0]\<rparr>"

text \<open>A broker that refuses one message and takes every other.\<close>

definition refusing :: "uuid \<Rightarrow> transport" where
  "refusing event_id log message = (if fst (snd message) = event_id
    then Failed \<lparr>pf_class = ''ack_failed'', pf_error = Unacknowledged\<rparr> else Acknowledged)"

lemma queued_db_schema: "schema_ok (queued_db n)"
  by (simp add: schema_defs queued_db_def empty_db_def queued_removal_def outbox_entry_def outbox_check_def
      EVENT_TYPES_def AGGREGATE_TYPES_def REMOVED_EVENT_def table_ok_def)

text \<open>Claim C2: a pass of the outbox pump implements the abstract relay, whatever the broker does. The
  published, copied and answered state of every queued fact afterwards is exactly the fold of the
  broker's acknowledgements over the state before, so a refused or unacknowledged publication
  changes nothing a consumer can see, and the pass succeeds exactly when every attempt was
  acknowledged.\<close>

theorem flush_refines_broker:
  assumes "schema_ok d" and "flush_outbox E policy transport d log = (res, d', log')"
  shows "\<exists>new. log' = log @ new \<and> relay_of d' = fold accept (accepted new) (relay_of d)
    \<and> (res = Inr () \<longleftrightarrow> (\<forall>a \<in> set new. snd a = Acknowledged))"
  using assms(2)
proof (cases rule: flush_outbox_cases)
  case (resent d1 log1 res2)
  obtain new where new: "log1 = log @ new" "relay_of d1 = fold accept (accepted new) (relay_of d)"
    "\<forall>a \<in> set new. snd a = Acknowledged"
    using fresh_rows_refine [OF assms(1) resent(1)] by blast
  have "schema_ok d1" by (rule advances_schema [OF publish_due_advances [OF resent(1)] assms(1)])
  then obtain new2 where "log' = log1 @ new2" "relay_of d' = fold accept (accepted new2) (relay_of d1)"
    "res2 = Inr None \<longleftrightarrow> (\<forall>a \<in> set new2. snd a = Acknowledged)"
    using resend_rows_refines [OF resent(2) due_resends_published] by blast
  with new resent(3) show ?thesis
    by (intro exI [of _ "new @ new2"]) (auto split: sum.splits option.splits)
qed (use fresh_rows_refine [OF assms(1)] in \<open>fastforce\<close>)+

text \<open>Two queued removals, the older refused by the broker.\<close>

theorem flush_refines_broker_witness:
  "\<exists>new. snd (snd (flush_outbox (sample_env 0) default_resend_policy (refusing 1) (queued_db 0) [])) = [] @ new
    \<and> relay_of (fst (snd (flush_outbox (sample_env 0) default_resend_policy (refusing 1) (queued_db 0) [])))
      = fold accept (accepted new) (relay_of (queued_db 0))
    \<and> (fst (flush_outbox (sample_env 0) default_resend_policy (refusing 1) (queued_db 0) []) = Inr ()
      \<longleftrightarrow> (\<forall>a \<in> set new. snd a = Acknowledged))"
  by (rule flush_refines_broker [OF queued_db_schema]) simp

lemma advances_row:
  assumes "advances d d'" "row_of i d = Some r"
  shows "\<exists>s. row_of i d' = Some s \<and> row_advances r s"
proof -
  have "list_all2 row_advances xs ys \<Longrightarrow> List.find (\<lambda>r. ob_event_id r = i) xs = Some r
    \<Longrightarrow> \<exists>s. List.find (\<lambda>r. ob_event_id r = i) ys = Some s \<and> row_advances r s" for xs ys
  proof (induction rule: list_all2_induct)
    case (Cons x xs y ys)
    have "ob_event_id y = ob_event_id x" using Cons.hyps by (simp add: row_advances_def body_def)
    with Cons show ?case by (simp split: if_splits)
  qed simp
  then show ?thesis using assms unfolding advances_def row_of_def by blast
qed

text \<open>What a pass leaves of a due row: published at the time of the pass, or still queued, with the
  failure class and the next attempt.\<close>

definition settled_as :: "env \<Rightarrow> db \<Rightarrow> outbox_row \<Rightarrow> publication \<Rightarrow> bool" where
  "settled_as E d r answer \<longleftrightarrow> (\<exists>s. row_of (ob_event_id r) d = Some s \<and> (case answer of
      Acknowledged \<Rightarrow> ob_published_at s = Some (now E)
    | Failed f \<Rightarrow> ob_published_at s = None \<and> ob_last_error s = Some (pf_class f)
        \<and> ob_attempt_count s = Suc (ob_attempt_count r)
        \<and> ob_next_attempt_at s = Some (now E + seconds (min (2 ^ ob_attempt_count r) 300))))"

lemma settles_as:
  assumes "settles E policy rows answers d d'" "\<forall>r \<in> set rows. ob_published_at r = None"
  shows "list_all2 (settled_as E d') rows answers"
proof -
  have "settled_as E d' r a"
    if "row_of (ob_event_id r) d' = Some (settled_row E policy r a)" "ob_published_at r = None" for r a
    using that by (cases a) (simp_all add: settled_as_def published_now_def failed_now_def)
  then show ?thesis
    using assms by (auto simp: settles_def list_all2_conv_all_nth)
qed

lemma settled_as_advances:
  assumes "advances d d'" "settled_as E d r Acknowledged"
  shows "settled_as E d' r Acknowledged"
proof -
  obtain s where s: "row_of (ob_event_id r) d = Some s" "ob_published_at s = Some (now E)"
    using assms(2) by (auto simp: settled_as_def simp del: split_paired_Ex)
  obtain t where t: "row_of (ob_event_id r) d' = Some t" "row_advances s t"
    using advances_row [OF assms(1) s(1)] by blast
  have "ob_published_at t = Some (now E)" using t(2) s(2) by (simp add: row_advances_def)
  with t(1) show ?thesis by (simp add: settled_as_def)
qed

lemma due_unpublished: "\<forall>r \<in> set (due_outbox E d). ob_published_at r = None"
  using due_outbox_mem unfolding is_due_row_def by blast

lemma fresh_rows_settled:
  assumes "schema_ok d" "publish_due E policy transport (due_outbox E d) None d log = (Inr f, d', log')"
  obtains answers where "list_all2 (settled_as E d') (due_outbox E d) answers"
    "log' = log @ zip (map message_of (due_outbox E d)) answers"
    "f = None \<longleftrightarrow> set answers \<subseteq> {Acknowledged}"
proof -
  obtain before rest answers where steps: "due_outbox E d = before @ rest" "settles E policy before answers d d'"
    "loop_end log log' None (Inr f) before answers rest"
    by (rule fresh_rows [OF assms])
  have rest: "rest = []" using steps(3) by (cases rest) (simp_all add: loop_end_def)
  show ?thesis
  proof (rule that)
    show "list_all2 (settled_as E d') (due_outbox E d) answers"
      using settles_as [OF steps(2)] due_unpublished [of E d] steps(1) rest by simp
    show "log' = log @ zip (map message_of (due_outbox E d)) answers" "f = None \<longleftrightarrow> set answers \<subseteq> {Acknowledged}"
      using steps(1,3) rest by (simp_all add: loop_end_def)
  qed
qed

lemma acknowledged_pass_settles:
  assumes "schema_ok d" "publish_due E policy transport (due_outbox E d) None d log = (Inr None, d1, log1)"
    "advances d1 d'"
  obtains answers where "list_all2 (settled_as E d') (due_outbox E d) answers"
    "log1 = log @ zip (map message_of (due_outbox E d)) answers" "set answers \<subseteq> {Acknowledged}"
proof -
  obtain answers where a: "list_all2 (settled_as E d1) (due_outbox E d) answers"
    "log1 = log @ zip (map message_of (due_outbox E d)) answers" "set answers \<subseteq> {Acknowledged}"
    by (rule fresh_rows_settled [OF assms(1,2)]) simp
  have "list_all2 (settled_as E d') (due_outbox E d) answers"
    using a(1,3) settled_as_advances [OF assms(3)]
    unfolding list_all2_conv_all_nth by (metis insertE empty_iff nth_mem subsetD)
  then show ?thesis using a(2,3) that by blast
qed

text \<open>Claim C10: one failing publication cannot starve the rows behind it. Whatever the broker does, a
  pass attempts every due row of the batch exactly once, oldest first, with the stored body, and
  leaves each published or backed off by \<open>min (2 ^ n) 300\<close> seconds after its \<open>n\<close> earlier failures; as
  long as no row of the batch has failed 1024 times.\<close>

theorem flush_settles_every_due_row:
  assumes "schema_ok d" and "flush_outbox E policy transport d log = (res, d', log')"
    and "\<forall>r \<in> set (due_outbox E d). \<not> poisoned r"
  shows "\<exists>answers later. log' = log @ zip (map message_of (due_outbox E d)) answers @ later
    \<and> list_all2 (settled_as E d') (due_outbox E d) answers"
  using assms(2)
proof (cases rule: flush_outbox_cases)
  case (stopped err)
  obtain before rest answers where steps: "due_outbox E d = before @ rest"
    "loop_end log log' None (Inl err) before answers rest"
    using fresh_rows [OF assms(1) stopped(1)] by blast
  then show ?thesis using assms(3) by (cases rest) (simp_all add: loop_end_def)
next
  case (failed err)
  then show ?thesis using fresh_rows_settled [OF assms(1) failed(1)] by (metis append.right_neutral)
next
  case (resent d1 log1 res2)
  have "advances d1 d'" by (rule resend_rows_advances [OF resent(2)])
  then obtain answers where a: "list_all2 (settled_as E d') (due_outbox E d) answers"
    "log1 = log @ zip (map message_of (due_outbox E d)) answers"
    using acknowledged_pass_settles [OF assms(1) resent(1)] by metis
  have "schema_ok d1" by (rule advances_schema [OF publish_due_advances [OF resent(1)] assms(1)])
  then obtain new where "log' = log1 @ new"
    using resend_rows_refines [OF resent(2) due_resends_published] by blast
  with a show ?thesis by auto
qed

theorem flush_settles_every_due_row_witness:
  "map (ob_event_id) (due_outbox (sample_env 0) (queued_db 3)) = [1, 2]
   \<and> (\<exists>answers later. snd (snd (flush_outbox (sample_env 0) default_resend_policy (refusing 1) (queued_db 3) []))
      = [] @ zip (map message_of (due_outbox (sample_env 0) (queued_db 3))) answers @ later
    \<and> list_all2 (settled_as (sample_env 0)
        (fst (snd (flush_outbox (sample_env 0) default_resend_policy (refusing 1) (queued_db 3) []))))
      (due_outbox (sample_env 0) (queued_db 3)) answers)"
proof -
  have ids: "map ob_event_id (due_outbox (sample_env 0) (queued_db 3)) = [1, 2]" by code_simp
  have "\<forall>r \<in> set (due_outbox (sample_env 0) (queued_db 3)). \<not> poisoned r" by code_simp
  from flush_settles_every_due_row [OF queued_db_schema _ this, of default_resend_policy "refusing 1" "[]"] ids
  show ?thesis by (metis prod.collapse)
qed

text \<open>Claim C34: a row that has failed 1024 times stops the relay. Its next backoff is
  \<^verbatim>\<open>power(2, 1024)\<close>, which the database refuses, so the failure is not recorded, the pass ends with
  the database error, no row behind it is attempted and nothing changes: the next pass ends at the
  same row. The exponent of the resend schedule is clamped, this one is not.\<close>

theorem poisoned_row_stops_the_relay:
  assumes "due_outbox E d = r # rows" and "poisoned r"
    and "outbox_subject (ob_event_type r) = Some subject"
    and "transport log (subject, ob_event_id r, ob_payload r) = Failed f"
  shows "flush_outbox E policy transport d log
    = (Inl OUT_OF_RANGE, d, log @ [((subject, ob_event_id r, ob_payload r), Failed f)])"
proof -
  have "r \<in> set (outbox d)" using due_outbox_mem [of r E d] assms(1) by simp
  then have "record_failure E (ob_event_id r) (pf_class f) d
    = Inl (Query (ConstraintViolation ''numeric_value_out_of_range''))"
    using assms(2) unfolding record_failure_def exists_where_iff poisoned_def by (metis (mono_tags, lifting))
  then show ?thesis
    using assms by (simp add: flush_outbox_def publish_row_def Let_def OUT_OF_RANGE_def)
qed

theorem poisoned_row_stops_the_relay_witness:
  "fst (flush_outbox (sample_env 0) default_resend_policy (refusing 1) (queued_db 1024) []) = Inl OUT_OF_RANGE
   \<and> fst (snd (flush_outbox (sample_env 0) default_resend_policy (refusing 1) (queued_db 1024) [])) = queued_db 1024
   \<and> length (due_outbox (sample_env 0) (queued_db 1024)) = 2"
proof -
  let ?m = "(SOCIAL_REMOVED_SUBJECT, 1, EventPayload sample_removal)"
  have due: "due_outbox (sample_env 0) (queued_db 1024) = [queued_removal 1 1024, queued_removal 2 0]"
    by (simp add: due_outbox_def queued_db_def is_due_row_def not_backed_off_def queued_removal_def
        outbox_entry_def OUTBOX_BATCH_SIZE_def)
  have "flush_outbox (sample_env 0) default_resend_policy (refusing 1) (queued_db 1024) []
    = (Inl OUT_OF_RANGE, queued_db 1024, [] @ [((SOCIAL_REMOVED_SUBJECT, ob_event_id (queued_removal 1 1024),
        ob_payload (queued_removal 1 1024)), Failed \<lparr>pf_class = ''ack_failed'', pf_error = Unacknowledged\<rparr>)])"
    by (rule poisoned_row_stops_the_relay [OF due])
      (simp_all add: poisoned_def queued_removal_def outbox_entry_def FLOAT8_MAX_EXPONENT_def outbox_subject_def
        REMOVED_EVENT_def REMOVAL_EVENT_TYPE_def refusing_def)
  then show ?thesis by (simp add: due)
qed

lemma count_keyed:
  assumes "distinct (map k rows)" "\<And>r. P r \<Longrightarrow> k r = i"
  shows "count_where P rows = (if \<exists>r \<in> set rows. P r then 1 else 0)"
  using assms(1)
proof (induction rows)
  case (Cons r rows)
  have "\<not> P s" if "P r" "s \<in> set rows" for s
  proof
    assume "P s"
    then have "k s = k r" using assms(2) that(1) by metis
    then show False using Cons.prems that(2) by (metis distinct.simps(2) image_eqI list.set_map list.simps(9))
  qed
  then show ?case using Cons by auto
qed simp

lemma row_of_answered:
  "row_of i (snd (acknowledge E event_id tenant_text outcome d))
    = map_option (\<lambda>r. if is_open_removal E event_id tenant_text r then answered_now E outcome r else r) (row_of i d)"
  unfolding acknowledge_run row_of_def by (rule answering.run_find) (simp add: answered_now_def)

lemma update_where_none: "\<forall>r \<in> set rows. \<not> P r \<Longrightarrow> update_where P f rows = rows"
  by (induction rows) auto

lemma acknowledge_none:
  "\<forall>r \<in> set (outbox d). \<not> is_open_removal E event_id tenant_text r \<Longrightarrow>
    acknowledge E event_id tenant_text outcome d = (False, d)"
  by (simp add: acknowledge_def update_where_none count_where_def filter_False)

lemma acknowledge_changed:
  assumes "schema_ok d"
  shows "fst (acknowledge E event_id tenant_text outcome d)
    \<longleftrightarrow> (\<exists>r \<in> set (outbox d). is_open_removal E event_id tenant_text r)"
proof -
  have "distinct (map ob_event_id (outbox d))" using assms by (simp add: schema_defs table_ok_def)
  from count_keyed [OF this, of "is_open_removal E event_id tenant_text" event_id]
  show ?thesis by (simp add: acknowledge_def is_open_removal_def)
qed

text \<open>Claim C15: Knowledge's answer lands once, and only on the tenant's own removal. It changes a row
  exactly when an open removal with this id and tenant is stored; then that row alone is answered,
  no second answer for the id changes anything, and the removal is never due for another copy.\<close>

theorem acknowledge_is_final:
  assumes "schema_ok d" and "acknowledge E event_id tenant_text outcome d = (changed, d')"
  shows "(changed \<longleftrightarrow> (\<exists>r \<in> set (outbox d). is_open_removal E event_id tenant_text r))
    \<and> (\<not> changed \<longrightarrow> d' = d)
    \<and> (changed \<longrightarrow> (\<exists>s. row_of event_id d' = Some s \<and> ob_acknowledged_at s = Some (now E)
          \<and> ob_ack_outcome s = Some (ack_as_str outcome))
      \<and> (\<forall>i. i \<noteq> event_id \<longrightarrow> row_of i d' = row_of i d)
      \<and> acknowledge E' event_id tenant_text' outcome' d' = (False, d')
      \<and> event_id \<notin> ob_event_id ` set (due_resends E' limit d'))"
proof (intro conjI impI)
  show changed: "changed \<longleftrightarrow> (\<exists>r \<in> set (outbox d). is_open_removal E event_id tenant_text r)"
    using acknowledge_changed [OF assms(1), of E event_id tenant_text outcome] assms(2) by simp
  show "d' = d" if "\<not> changed"
    using acknowledge_none [of d E event_id tenant_text outcome] that changed assms(2) by simp
  assume changed
  then obtain r where r: "r \<in> set (outbox d)" "is_open_removal E event_id tenant_text r"
    using changed by blast
  have d': "d' = snd (acknowledge E event_id tenant_text outcome d)" using assms(2) by simp
  have ok: "schema_ok d'" unfolding d' by (rule advances_schema [OF relay_advances(3) assms(1)])
  have "row_of event_id d = Some r"
    using row_of_unique [OF assms(1) r(1)] r(2) by (simp add: is_open_removal_def)
  then have s: "row_of event_id d' = Some (answered_now E outcome r)"
    unfolding d' row_of_answered using r(2) by simp
  then show "\<exists>s. row_of event_id d' = Some s \<and> ob_acknowledged_at s = Some (now E)
      \<and> ob_ack_outcome s = Some (ack_as_str outcome)"
    by (simp add: answered_now_def)
  show "\<forall>i. i \<noteq> event_id \<longrightarrow> row_of i d' = row_of i d"
  proof (intro allI impI)
    fix i assume "i \<noteq> event_id"
    then show "row_of i d' = row_of i d"
      unfolding d' row_of_answered
      by (cases "row_of i d") (auto simp: is_open_removal_def dest: row_ofD)
  qed
  have answered: "ob_acknowledged_at q \<noteq> None" if "q \<in> set (outbox d')" "ob_event_id q = event_id" for q
  proof -
    have "q = answered_now E outcome r" using row_of_unique [OF ok that(1)] s that(2) by (metis option.inject)
    then show ?thesis by (simp add: answered_now_def)
  qed
  show "acknowledge E' event_id tenant_text' outcome' d' = (False, d')"
    by (rule acknowledge_none) (use answered in \<open>auto simp: is_open_removal_def\<close>)
  show "event_id \<notin> ob_event_id ` set (due_resends E' limit d')"
  proof
    assume "event_id \<in> ob_event_id ` set (due_resends E' limit d')"
    then obtain q where "q \<in> set (due_resends E' limit d')" "ob_event_id q = event_id" by blast
    then show False using due_resends_mem [of q E' limit d'] answered [of q] by (simp add: is_due_resend_def)
  qed
qed

theorem acknowledge_is_final_witness:
  "fst (acknowledge (sample_env 5) 1 ''user:1'' Refused (queued_db 0))
   \<and> acknowledge (sample_env 6) 1 ''user:1'' Applied (snd (acknowledge (sample_env 5) 1 ''user:1'' Refused (queued_db 0)))
     = (False, snd (acknowledge (sample_env 5) 1 ''user:1'' Refused (queued_db 0)))"
proof -
  have open_row: "fst (acknowledge (sample_env 5) 1 ''user:1'' Refused (queued_db 0))" by code_simp
  have "acknowledge (sample_env 5) 1 ''user:1'' Refused (queued_db 0)
    = (fst (acknowledge (sample_env 5) 1 ''user:1'' Refused (queued_db 0)),
       snd (acknowledge (sample_env 5) 1 ''user:1'' Refused (queued_db 0)))" by simp
  from acknowledge_is_final [OF queued_db_schema this] open_row show ?thesis by blast
qed

lemma claimed_advances:
  assumes "advances d d'"
  shows "claimed k e d' = claimed k e d"
proof -
  obtain rows where "d' = d\<lparr>outbox := rows\<rparr>" using assms unfolding advances_def by blast
  then show ?thesis by (simp add: claimed_def)
qed

lemma handle_command_schema: "handle_command (E, c) d = Inr (r, d') \<Longrightarrow> schema_ok d \<Longrightarrow> schema_ok d'"
  by (cases c) (auto simp: handle_command_def intro: deliver_schema reject_schema)

text \<open>A pass that succeeds published every due row.\<close>

lemma successful_pass:
  assumes "schema_ok d" "flush_outbox E policy transport d log = (Inr u, d', log')" "r \<in> set (due_outbox E d)"
  shows "settled_as E d' r Acknowledged \<and> (message_of r, Acknowledged) \<in> set log'"
  using assms(2)
proof (cases rule: flush_outbox_cases)
  case (resent d1 log1 res2)
  have "advances d1 d'" by (rule resend_rows_advances [OF resent(2)])
  then obtain answers where a: "list_all2 (settled_as E d') (due_outbox E d) answers"
    "log1 = log @ zip (map message_of (due_outbox E d)) answers" "set answers \<subseteq> {Acknowledged}"
    using acknowledged_pass_settles [OF assms(1) resent(1)] by metis
  have "schema_ok d1" by (rule advances_schema [OF publish_due_advances [OF resent(1)] assms(1)])
  then obtain new where log': "log' = log1 @ new"
    using resend_rows_refines [OF resent(2) due_resends_published] by blast
  obtain i where i: "i < length (due_outbox E d)" "due_outbox E d ! i = r"
    using assms(3) by (metis in_set_conv_nth)
  have n: "length answers = length (due_outbox E d)" using a(1) by (simp add: list_all2_lengthD)
  have answer: "answers ! i = Acknowledged" using a(3) i(1) n by (metis nth_mem singletonD subsetD)
  have "zip (map message_of (due_outbox E d)) answers ! i = (message_of r, Acknowledged)"
    using i n answer by simp
  then have "(message_of r, Acknowledged) \<in> set (zip (map message_of (due_outbox E d)) answers)"
    using i(1) n by (metis length_map length_zip min.idem nth_mem)
  moreover have "settled_as E d' r Acknowledged"
    using list_all2_nthD [OF a(1) i(1)] i(2) answer by simp
  ultimately show ?thesis using a(2) log' by simp
qed simp_all


definition sample_envelope :: command_envelope where
  "sample_envelope = \<lparr>cmd_command_id = 7, cmd_tenant_id = Some 1, cmd_payload = Inr
    \<lparr>req_operation_id = 8, req_provider = Threads, req_acquisition = BrowserExtension,
     req_saved_authority = ExplicitUserCapture, req_original_permalink = ''https://www.threads.net/@a/post/B'',
     req_captured_at = ''t'', req_digest_algorithm = Sha256, req_digest_hex = ''00''\<rparr>\<rparr>"

definition sample_delivery :: "((nats_error + unit) \<times> ack_kind option) \<times> db \<times> attempts" where
  "sample_delivery = handle_delivery (sample_env 10) (\<lambda>_. Inr sample_envelope) (\<lambda>_. Some 5000)
    default_resend_policy (refusing 0) (\<lambda>_. None) [] empty_db []"


end
