(* ===== verification/Knowledge.thy ===== *)
theory Knowledge
  imports Inbox
begin

text \<open>
  \<^verbatim>\<open>crates/threads-archive/src/knowledge.rs\<close>: linking Knowledge's analysis completions to the exact
  source revision they analysed. The store is the second consumer of the inbox table and interprets
  \<open>claim_once\<close>. The contract crate's completion is a record of the members the store reads;
  \<open>parse_uuid\<close> is \<^verbatim>\<open>str::parse::<Uuid>\<close> and \<open>rfc3339\<close> is chrono's \<^verbatim>\<open>DateTime::parse_from_rfc3339\<close>.
\<close>

datatype completion_link_outcome =
    Linked
  | LinkDuplicate
  | LinkRejected
  | LocallyRemoved

record analysis_completed =
  cm_owner :: uuid
  cm_social_source_id :: string
  cm_content_digest :: string
  cm_completed_at :: string

definition KNOWLEDGE_CONSUMER :: string where
  "KNOWLEDGE_CONSUMER = ''threads-social-source-knowledge''"

definition set_handler_outcome :: "uuid \<Rightarrow> string \<Rightarrow> db \<Rightarrow> db" where
  "set_handler_outcome event_id outcome d = d\<lparr>inbox := update_where
    (\<lambda>r. ib_consumer_name r = KNOWLEDGE_CONSUMER \<and> ib_event_id r = event_id)
    (\<lambda>r. r\<lparr>ib_handler_outcome := outcome\<rparr>) (inbox d)\<rparr>"

definition locally_removed :: "uuid \<Rightarrow> uuid \<Rightarrow> db \<Rightarrow> bool" where
  "locally_removed owner source_id d \<longleftrightarrow>
    exists_where (\<lambda>r. lr_user_ref r = owner \<and> lr_social_source_id r = source_id) (local_removals d)"

definition reject_locally_removed :: "uuid \<Rightarrow> uuid \<Rightarrow> uuid \<Rightarrow> db \<Rightarrow> bool \<times> db" where
  "reject_locally_removed event_id owner source_id d =
    (if locally_removed owner source_id d then (True, set_handler_outcome event_id ''locally_removed'' d)
     else (False, d))"

definition owned_revision :: "uuid \<Rightarrow> uuid \<Rightarrow> string \<Rightarrow> db \<Rightarrow> bool" where
  "owned_revision owner source_id digest d \<longleftrightarrow>
    exists_where (\<lambda>r. sr_social_source_id r = source_id \<and> sr_content_digest r = digest
      \<and> exists_where (\<lambda>s. ss_social_source_id s = sr_social_source_id r \<and> ss_user_ref s = owner) (social_sources d))
      (source_revisions d)"

definition record_completion ::
  "(string \<Rightarrow> string + uuid) \<Rightarrow> (string \<Rightarrow> string + instant) \<Rightarrow> env \<times> uuid \<times> analysis_completed \<Rightarrow> db
    \<Rightarrow> persistence_error + completion_link_outcome \<times> db" where
  "record_completion parse_uuid rfc3339 = (\<lambda>(E, event_id, completion) d.
    bindE (map_err Query (insert_inbox
      \<lparr>ib_consumer_name = KNOWLEDGE_CONSUMER, ib_event_id = event_id, ib_consumed_at = now E,
       ib_handler_outcome = ''processed''\<rparr> d)) (\<lambda>(accepted, d).
    if \<not> accepted then Inr (LinkDuplicate, d) else
    let owner = cm_owner completion; digest = cm_content_digest completion in
    bindE (map_err (Query \<circ> Protocol) (parse_uuid (cm_social_source_id completion))) (\<lambda>source_id.
    let (removed, d) = reject_locally_removed event_id owner source_id d in
    if removed then Inr (LocallyRemoved, d)
    else if \<not> owned_revision owner source_id digest d
      then Inr (LinkRejected, set_handler_outcome event_id ''rejected'' d) else
    bindE (map_err (Query \<circ> Protocol) (rfc3339 (cm_completed_at completion))) (\<lambda>completed_at.
    bindE (map_err Query (insert_analysis_link
      \<lparr>al_completion_event_id = event_id, al_user_ref = owner, al_social_source_id = source_id,
       al_content_digest = digest, al_completed_at = completed_at\<rparr> d)) (\<lambda>d.
    Inr (Linked, d))))))"

definition completion_event :: "env \<times> uuid \<times> analysis_completed \<Rightarrow> uuid" where
  "completion_event = (\<lambda>(E, event_id, completion). event_id)"

section \<open>Lemmas\<close>

definition claim_row :: "env \<Rightarrow> uuid \<Rightarrow> inbox_row" where
  "claim_row E event_id = \<lparr>ib_consumer_name = KNOWLEDGE_CONSUMER, ib_event_id = event_id,
    ib_consumed_at = now E, ib_handler_outcome = ''processed''\<rparr>"

lemma claim_row_simps [simp]:
  "ib_consumer_name (claim_row E event_id) = KNOWLEDGE_CONSUMER"
  "ib_event_id (claim_row E event_id) = event_id"
  by (simp_all add: claim_row_def)

lemma claim_completion:
  "insert_inbox \<lparr>ib_consumer_name = KNOWLEDGE_CONSUMER, ib_event_id = event_id, ib_consumed_at = now E,
      ib_handler_outcome = ''processed''\<rparr> d
    = (if claimed KNOWLEDGE_CONSUMER event_id d then Inr (False, d)
       else Inr (True, d\<lparr>inbox := inbox d @ [claim_row E event_id]\<rparr>))"
  by (subst insert_inbox_eq) (simp_all add: HANDLER_OUTCOMES_def claim_row_def)

lemma set_handler_outcome_claimed [simp]: "claimed k e (set_handler_outcome event_id outcome d) = claimed k e d"
proof -
  have "exists_where P (update_where Q f rows) = exists_where P rows" if "\<And>r. P (f r) = P r" for P Q f and rows :: "inbox_row list"
    using that by (induction rows) (simp_all add: exists_where_def)
  then show ?thesis by (simp add: claimed_def set_handler_outcome_def)
qed

lemma set_handler_outcome_schema:
  assumes "schema_ok d" "outcome \<in> set HANDLER_OUTCOMES"
  shows "schema_ok (set_handler_outcome event_id outcome d)"
proof -
  have "table_ok (\<lambda>r. (ib_consumer_name r, ib_event_id r)) (\<lambda>r. ib_handler_outcome r \<in> set HANDLER_OUTCOMES)
    (inbox (set_handler_outcome event_id outcome d))"
    unfolding set_handler_outcome_def using assms
    by (simp add: schema_defs) (rule table_ok_update, simp_all)
  then show ?thesis using assms(1) by (simp add: schema_defs set_handler_outcome_def)
qed

text \<open>Every branch of a committed completion.\<close>

lemma record_completion_cases:
  assumes "record_completion parse_uuid rfc3339 (E, event_id, completion) d = Inr (outcome, d')"
  obtains (duplicate) "claimed KNOWLEDGE_CONSUMER event_id d" "outcome = LinkDuplicate" "d' = d"
  | (removed) source_id where "\<not> claimed KNOWLEDGE_CONSUMER event_id d"
      "parse_uuid (cm_social_source_id completion) = Inr source_id"
      "locally_removed (cm_owner completion) source_id d" "outcome = LocallyRemoved"
      "d' = set_handler_outcome event_id ''locally_removed'' (d\<lparr>inbox := inbox d @ [claim_row E event_id]\<rparr>)"
  | (rejected) source_id where "\<not> claimed KNOWLEDGE_CONSUMER event_id d"
      "parse_uuid (cm_social_source_id completion) = Inr source_id"
      "\<not> locally_removed (cm_owner completion) source_id d"
      "\<not> owned_revision (cm_owner completion) source_id (cm_content_digest completion) d" "outcome = LinkRejected"
      "d' = set_handler_outcome event_id ''rejected'' (d\<lparr>inbox := inbox d @ [claim_row E event_id]\<rparr>)"
  | (linked) source_id completed_at where "\<not> claimed KNOWLEDGE_CONSUMER event_id d"
      "parse_uuid (cm_social_source_id completion) = Inr source_id"
      "\<not> locally_removed (cm_owner completion) source_id d"
      "owned_revision (cm_owner completion) source_id (cm_content_digest completion) d" "outcome = Linked"
      "rfc3339 (cm_completed_at completion) = Inr completed_at"
      "insert_analysis_link \<lparr>al_completion_event_id = event_id, al_user_ref = cm_owner completion,
        al_social_source_id = source_id, al_content_digest = cm_content_digest completion,
        al_completed_at = completed_at\<rparr> (d\<lparr>inbox := inbox d @ [claim_row E event_id]\<rparr>) = Inr d'"
proof -
  have read [simp]: "locally_removed o' s (d\<lparr>inbox := x\<rparr>) = locally_removed o' s d"
    "owned_revision o' s g (d\<lparr>inbox := x\<rparr>) = owned_revision o' s g d" for o' s g x
    by (simp_all add: locally_removed_def owned_revision_def)
  let ?d = "d\<lparr>inbox := inbox d @ [claim_row E event_id]\<rparr>"
  note run = assms [unfolded record_completion_def prod.case claim_completion Let_def]
  show thesis
  proof (cases "claimed KNOWLEDGE_CONSUMER event_id d")
    case True
    show thesis by (rule duplicate [OF True]) (use run True in simp_all)
  next
    case fresh: False
    obtain source_id where s: "parse_uuid (cm_social_source_id completion) = Inr source_id"
      using run fresh by (cases "parse_uuid (cm_social_source_id completion)") simp_all
    show thesis
    proof (cases "locally_removed (cm_owner completion) source_id d")
      case True
      show thesis
        by (rule removed [OF fresh s True]) (use run fresh s True in \<open>simp_all add: reject_locally_removed_def\<close>)
    next
      case here: False
      show thesis
      proof (cases "owned_revision (cm_owner completion) source_id (cm_content_digest completion) d")
        case True
        obtain completed_at where t: "rfc3339 (cm_completed_at completion) = Inr completed_at"
          using run fresh s here True by (cases "rfc3339 (cm_completed_at completion)")
            (simp_all add: reject_locally_removed_def)
        show thesis
          by (rule linked [OF fresh s here True _ t])
            (use run fresh s here True t in \<open>simp_all add: reject_locally_removed_def\<close>)
      next
        case False
        show thesis
          by (rule rejected [OF fresh s here False])
            (use run fresh s here False in \<open>simp_all add: reject_locally_removed_def\<close>)
      qed
    qed
  qed
qed

lemma insert_analysis_link_effect:
  "insert_analysis_link r d = Inr d' \<Longrightarrow> d' = d\<lparr>analysis_links := analysis_links d @ [r]\<rparr>"
  unfolding insert_analysis_link_def bindE_eq_Inr by (elim exE conjE) simp

lemma analysis_links_claimed [simp]: "claimed k e (d\<lparr>analysis_links := x\<rparr>) = claimed k e d"
  by (simp add: claimed_def)

lemma record_completion_claimed:
  assumes "record_completion parse_uuid rfc3339 (E, event_id, completion) d = Inr (outcome, d')"
  shows "claimed k e d' \<longleftrightarrow> claimed k e d \<or> k = KNOWLEDGE_CONSUMER \<and> e = event_id"
  using assms
  by (cases rule: record_completion_cases) (auto dest!: insert_analysis_link_effect)

lemma record_completion_schema:
  assumes "record_completion parse_uuid rfc3339 (E, event_id, completion) d = Inr (outcome, d')" "schema_ok d"
  shows "schema_ok d'"
proof -
  have claim: "schema_ok (d\<lparr>inbox := inbox d @ [claim_row E event_id]\<rparr>)" if "\<not> claimed KNOWLEDGE_CONSUMER event_id d"
    using schema_ok_insert_inbox [OF _ assms(2)] claim_completion [of event_id E d] that by simp
  from assms(1) show ?thesis
    by (cases rule: record_completion_cases)
      (auto intro: assms(2) set_handler_outcome_schema schema_ok_insert_analysis_link dest: claim
        simp: HANDLER_OUTCOMES_def)
qed

interpretation completion_inbox:
  claim_once "record_completion parse_uuid rfc3339" KNOWLEDGE_CONSUMER completion_event LinkDuplicate
  for parse_uuid rfc3339
proof
  fix c :: "env \<times> uuid \<times> analysis_completed" and d d' r e
  obtain E event_id completion where c: "c = (E, event_id, completion)" by (cases c)
  show "claimed KNOWLEDGE_CONSUMER (completion_event c) d'" if "record_completion parse_uuid rfc3339 c d = Inr (r, d')"
    using record_completion_claimed that unfolding c completion_event_def by auto
  show "record_completion parse_uuid rfc3339 c d = Inr (LinkDuplicate, d)"
    if "claimed KNOWLEDGE_CONSUMER (completion_event c) d"
    using that unfolding c completion_event_def by (simp add: record_completion_def claim_completion)
  show "claimed KNOWLEDGE_CONSUMER e d'"
    if "record_completion parse_uuid rfc3339 c d = Inr (r, d')" "claimed KNOWLEDGE_CONSUMER e d"
    using record_completion_claimed that unfolding c by auto
qed

definition links_of :: "uuid \<Rightarrow> uuid \<Rightarrow> db \<Rightarrow> analysis_link_row list" where
  "links_of owner source_id d =
    filter (\<lambda>l. al_user_ref l = owner \<and> al_social_source_id l = source_id) (analysis_links d)"

lemma record_completion_removed:
  assumes "record_completion parse_uuid rfc3339 (E, event_id, completion) d = Inr (outcome, d')"
    and "locally_removed owner source_id d"
  shows "locally_removed owner source_id d'" "links_of owner source_id d' = links_of owner source_id d"
  using assms(1)
  by (cases rule: record_completion_cases;
      use assms(2) in \<open>force simp: locally_removed_def links_of_def set_handler_outcome_def
        dest!: insert_analysis_link_effect\<close>)+

section \<open>Properties\<close>

definition sample_completion :: analysis_completed where
  "sample_completion = \<lparr>cm_owner = 1, cm_social_source_id = ''s'', cm_content_digest = ''d1'', cm_completed_at = ''t''\<rparr>"

definition sample_snapshot :: social_source_snapshot where
  "sample_snapshot = \<lparr>sn_social_source_id = 9, sn_platform = ''threads'', sn_external_post_id = ''B'',
    sn_permalink = None, sn_owner = 1, sn_published_at = None, sn_captured_at = 0, sn_text = None,
    sn_relations = [], sn_content_digest = ''d1'',
    sn_raw_blob = \<lparr>blob_owner = '''', blob_digest = '''', blob_media_type = '''', blob_length = 0\<rparr>,
    sn_acquisition = BrowserExtension, sn_saved_authority = ExplicitUserCapture, sn_availability = Available\<rparr>"

text \<open>Source 9 of owner 1 at revision \<open>d1\<close>.\<close>

definition linked_db :: db where
  "linked_db = empty_db\<lparr>social_sources := [\<lparr>ss_social_source_id = 9, ss_user_ref = 1, ss_post_id = 3,
      ss_first_capture_id = None\<rparr>],
    source_revisions := [\<lparr>sr_source_revision_id = 4, sr_social_source_id = 9, sr_content_digest = ''d1'',
      sr_snapshot = sample_snapshot, sr_observed_at = 0\<rparr>]\<rparr>"

text \<open>The same source after it was deleted and captured again: its identifier is derived from the owner
  and the permalink, so the removal of the deleted source names the new one too.\<close>

definition recaptured_db :: db where
  "recaptured_db = linked_db\<lparr>local_removals := [\<lparr>lr_user_ref = 1, lr_social_source_id = 9, lr_post_id = 2,
    lr_operation_id = 6, lr_reason = ''user_requested'', lr_removed_at = 0\<rparr>]\<rparr>"

text \<open>Claim C13: a completion is linked exactly when it is new, its source was not removed for this owner,
  and the owner's source has a revision with exactly this digest; then one link to that revision is
  stored. Every other completion only leaves its inbox row.\<close>

theorem completion_links_exactly_the_owned_revision:
  assumes "record_completion parse_uuid rfc3339 (E, event_id, completion) d = Inr (outcome, d')"
    and "parse_uuid (cm_social_source_id completion) = Inr source_id"
  shows "outcome = (if claimed KNOWLEDGE_CONSUMER event_id d then LinkDuplicate
      else if locally_removed (cm_owner completion) source_id d then LocallyRemoved
      else if owned_revision (cm_owner completion) source_id (cm_content_digest completion) d then Linked
      else LinkRejected)
    \<and> (\<exists>links. analysis_links d' = analysis_links d @ links \<and> d' = d\<lparr>inbox := inbox d', analysis_links := analysis_links d'\<rparr>
      \<and> (outcome \<noteq> Linked \<longrightarrow> links = [])
      \<and> (outcome = Linked \<longrightarrow> (\<exists>t. links = [\<lparr>al_completion_event_id = event_id, al_user_ref = cm_owner completion,
          al_social_source_id = source_id, al_content_digest = cm_content_digest completion, al_completed_at = t\<rparr>])))"
  using assms(1)
proof (cases rule: record_completion_cases)
  case (linked sid t)
  have "d' = d\<lparr>inbox := inbox d @ [claim_row E event_id], analysis_links := analysis_links d @
      [\<lparr>al_completion_event_id = event_id, al_user_ref = cm_owner completion, al_social_source_id = sid,
        al_content_digest = cm_content_digest completion, al_completed_at = t\<rparr>]\<rparr>"
    using insert_analysis_link_effect [OF linked(7)] by simp
  with linked assms(2) show ?thesis by simp
qed (use assms(2) in \<open>simp_all add: set_handler_outcome_def\<close>)

definition sample_link :: "db \<Rightarrow> persistence_error + completion_link_outcome \<times> db" where
  "sample_link d = record_completion (\<lambda>_. Inr 9) (\<lambda>_. Inr 7) (sample_env 5, 30, sample_completion) d"

theorem completion_links_exactly_the_owned_revision_witness:
  "fst (projr (sample_link linked_db)) = Linked \<and> fst (projr (sample_link recaptured_db)) = LocallyRemoved"
proof -
  have "sample_link linked_db = Inr (projr (sample_link linked_db))"
    "sample_link recaptured_db = Inr (projr (sample_link recaptured_db))"
    by code_simp+
  then have run: "record_completion (\<lambda>_. Inr 9) (\<lambda>_. Inr 7) (sample_env 5, 30, sample_completion) linked_db
      = Inr (fst (projr (sample_link linked_db)), snd (projr (sample_link linked_db)))"
    "record_completion (\<lambda>_. Inr 9) (\<lambda>_. Inr 7) (sample_env 5, 30, sample_completion) recaptured_db
      = Inr (fst (projr (sample_link recaptured_db)), snd (projr (sample_link recaptured_db)))"
    by (simp_all add: sample_link_def)
  have facts: "\<not> claimed KNOWLEDGE_CONSUMER 30 linked_db" "\<not> locally_removed 1 9 linked_db"
    "owned_revision 1 9 ''d1'' linked_db" "\<not> claimed KNOWLEDGE_CONSUMER 30 recaptured_db"
    "locally_removed 1 9 recaptured_db"
    by code_simp+
  have completion: "cm_owner sample_completion = 1" "cm_content_digest sample_completion = ''d1''"
    by (simp_all add: sample_completion_def)
  show ?thesis
    using completion_links_exactly_the_owned_revision [OF run(1) refl, THEN conjunct1]
      completion_links_exactly_the_owned_revision [OF run(2) refl, THEN conjunct1]
    unfolding completion using facts by simp
qed

text \<open>Claim C36: once a source is removed for its owner, no sequence of completions, late, repeated,
  failing or for a new revision, ever links an analysis to it again. The removal is never lifted,
  so this also holds when the owner captures the same permalink again and the derived source
  identifier returns.\<close>

theorem removed_source_is_never_linked:
  assumes "locally_removed owner source_id d"
  shows "links_of owner source_id (run_deliveries (record_completion parse_uuid rfc3339) d completions)
    = links_of owner source_id d"
  using assms
proof (induction completions arbitrary: d)
  case Nil
  then show ?case by simp
next
  case (Cons c completions)
  obtain E event_id completion where c: "c = (E, event_id, completion)" by (cases c)
  show ?case
  proof (cases "record_completion parse_uuid rfc3339 c d")
    case (Inl e)
    then show ?thesis using Cons by (simp add: attempt_delivery_def)
  next
    case (Inr result)
    obtain outcome d1 where result: "result = (outcome, d1)" by (cases result)
    note removed = record_completion_removed [OF Inr [unfolded c result] Cons.prems]
    then show ?thesis using Cons.IH [OF removed(1)] Inr result by (simp add: attempt_delivery_def)
  qed
qed

theorem removed_source_is_never_linked_witness:
  "links_of 1 9 (run_deliveries (record_completion (\<lambda>_. Inr 9) (\<lambda>_. Inr 7)) recaptured_db
     [(sample_env 5, 30, sample_completion), (sample_env 6, 31, sample_completion)]) = []"
proof -
  have "locally_removed 1 9 recaptured_db" by code_simp
  moreover have "links_of 1 9 recaptured_db = []" by code_simp
  ultimately show ?thesis by (simp only: removed_source_is_never_linked)
qed

end
