(* ===== verification/Spec2Isabelle.thy ===== *)
theory Spec2Isabelle
  imports
    CaptureResolution
    Outbox
    Knowledge
begin

text \<open>
  Verification development of \<^verbatim>\<open>ratatoskr-threads\<close>, the Threads archive service.

  The service accepts commands to capture a Threads post, resolves each post over the public oEmbed
  lane, archives the evidence, publishes versioned facts and operation reports through a
  transactional outbox, publishes a removal again until Knowledge acknowledges it, and links
  Knowledge's analyses to exact source revisions. The crate \<^verbatim>\<open>src/crates/threads-archive/src\<close> holds the
  logic, \<^verbatim>\<open>src/services/threads-archive/src\<close> the process around it, \<^verbatim>\<open>src/schema.sql\<close> the database.

  \<^bold>\<open>How the parts interact.\<close> A broker delivery is decoded and validated (\<^verbatim>\<open>browser_capture_command.rs\<close>),
  then one transaction claims it in the inbox, stores the capture and queues a report
  (\<^verbatim>\<open>browser_capture_inbox.rs\<close>, \<^verbatim>\<open>capture_reporting.rs\<close>). The resolver (\<^verbatim>\<open>capture_resolution.rs\<close>) leases due
  captures, asks the oEmbed endpoint (\<^verbatim>\<open>public_resolution.rs\<close>), stores the body in the
  content-addressed store (\<^verbatim>\<open>public_resolution/raw_object_store.rs\<close>), records post, revision, relations
  and fact in one transaction (\<^verbatim>\<open>publishing.rs\<close>, \<^verbatim>\<open>relation.rs\<close>), or records why the post is unavailable
  (\<^verbatim>\<open>capture.rs\<close>), and finally reports the operation. The pump (\<^verbatim>\<open>outbox_relay.rs\<close>) publishes what the
  transactions queued; \<^verbatim>\<open>removal_acknowledgement.rs\<close> and \<^verbatim>\<open>deletion_acks.rs\<close> close the loop with Knowledge;
  \<^verbatim>\<open>knowledge.rs\<close> takes its completions.

  \<^bold>\<open>Modelling conventions.\<close> A row is a record, a table a list of rows, the database the record \<open>db\<close>.
  A transaction is a function \<open>db \<Rightarrow> 'e + 'a \<times> db\<close>; \<open>Inl\<close> means that it rolled back. Statements check
  the primary-key, unique, foreign-key and check constraints of the schema and name the violated one.
  Clock, minted identifiers, digests, JSON encoding and the contract crate's validators are fields of the
  record \<open>env\<close>, an argument of every operation that uses them; no property assumes more about them than
  its statement shows. HTTP, broker and file-system faults are arguments too: arbitrary functions
  or scripts of failures. Text is its list of UTF-8 bytes. Identifiers are natural numbers and instants
  are microseconds, as the database stores them. There is no fuel: every loop is structural recursion,
  over a batch, a list of deliveries or a buffer; the reply-cycle search recurses on the unvisited nodes,
  the decimal printer on the quotient and the scalar decoder on the rest of the text, each with its
  termination proved.

  \<^bold>\<open>Theories.\<close>
  \<^item> \<^verbatim>\<open>Prelude\<close>: results, tables and text; the collections and the lemmas every component shares.
  \<^item> \<^verbatim>\<open>Permalink\<close> (\<^verbatim>\<open>permalink.rs\<close>): canonicalization. The accepted inputs are exactly a grammar, and
    the canonical form is a fixpoint.
  \<^item> \<^verbatim>\<open>Contracts\<close>: the values exchanged with other services, as far as the code reads them, and \<open>env\<close>.
  \<^item> \<^verbatim>\<open>Database\<close> (\<^verbatim>\<open>schema.sql\<close>, \<^verbatim>\<open>database.rs\<close>): rows, statements and the invariant \<open>schema_ok\<close>.
  \<^item> \<^verbatim>\<open>Capability\<close> (\<^verbatim>\<open>capability.rs\<close>): the acquisition matrix, and the locale \<open>wire_vocabulary\<close>
    that every wire enum interprets.
  \<^item> \<^verbatim>\<open>RelationGraph\<close> (\<^verbatim>\<open>relation.rs\<close> and the graph part of \<^verbatim>\<open>public_resolution.rs\<close>): the cycle search decides
    exactly whether a reply cycle exists; normalization succeeds exactly on valid acyclic input.
  \<^item> \<^verbatim>\<open>Publishing\<close> (\<^verbatim>\<open>publishing.rs\<close>): snapshots, revisions and facts; a fact is idempotent and never
    widens the authority of a capture.
  \<^item> \<^verbatim>\<open>Capture\<close> (\<^verbatim>\<open>capture.rs\<close>): submission replays; an observation records exactly what it proves.
  \<^item> \<^verbatim>\<open>Inbox\<close>: the locale \<open>claim_once\<close>, the contract of a deduplicating consumer, interpreted by
    \<^verbatim>\<open>BrowserCapture\<close> and \<^verbatim>\<open>Knowledge\<close>.
  \<^item> \<^verbatim>\<open>BrowserCapture\<close> (\<^verbatim>\<open>browser_capture_command.rs\<close>, \<^verbatim>\<open>browser_capture_inbox.rs\<close>, \<^verbatim>\<open>capture_reporting.rs\<close>):
    who is answered, atomic delivery, absorbed redelivery.
  \<^item> \<^verbatim>\<open>RawStore\<close> (\<^verbatim>\<open>public_resolution/raw_object_store.rs\<close>, \<^verbatim>\<open>raw_object_delete.rs\<close>): the object store over a disk
    whose every call may fail or tear; the locale \<open>io_frame\<close> carries immutability and integrity.
  \<^item> \<^verbatim>\<open>PublicResolution\<close> (\<^verbatim>\<open>public_resolution.rs\<close>): bounded and identified responses, the complete
    recording transaction, the acyclic reply graph.
  \<^item> \<^verbatim>\<open>CaptureResolution\<close> (\<^verbatim>\<open>capture_resolution.rs\<close>): leases, classification, retry schedule, exactly one
    terminal report, and that enough passes reach it.
  \<^item> \<^verbatim>\<open>Outbox\<close> (\<^verbatim>\<open>removal_acknowledgement.rs\<close>, \<^verbatim>\<open>outbox_relay.rs\<close>, \<^verbatim>\<open>deletion_acks.rs\<close>, \<^verbatim>\<open>nats.rs\<close>): the locale
    \<open>outbox_statement\<close> for the four update statements of the relay, the refinement of a pass to an
    abstract relay, what one pass does to each row, final answers, and settlement after commit.
  \<^item> \<^verbatim>\<open>Knowledge\<close> (\<^verbatim>\<open>knowledge.rs\<close>): completions link exactly the owner's revision, never a removed source.

  \<^bold>\<open>Bounds.\<close> The limits are the code's own: 2,048 input bytes of a permalink, 256 KiB of an oEmbed
  response, 32 rows of an outbox batch, 120 s of a lease, 30 min of a retry delay, 300 s of a publication
  backoff, the resend cap. The \<^verbatim>\<open>float8\<close> power of the publication backoff overflows at exponent 1024; the
  model keeps that branch. Counters that cannot reach their width within a batch are numbers; the
  saturating \<^verbatim>\<open>i64\<close> arithmetic of the retry schedule is written out on integers; the \<^verbatim>\<open>u64\<close> totals of a
  consumer session, which wrap, are words.

  \<^bold>\<open>Not modelled.\<close> Configuration (\<^verbatim>\<open>config.rs\<close>) and telemetry (\<^verbatim>\<open>telemetry.rs\<close>) read the environment and
  write logs. Account connection (\<^verbatim>\<open>oauth.rs\<close>), account synchronization (\<^verbatim>\<open>account_sync.rs\<close>) and data
  export (\<^verbatim>\<open>data_export.rs\<close> and its two helpers) are other acquisition lanes: they share the tables but no
  operation with the capture pipeline, and rest on a cipher, a ZIP reader and provider pages outside the
  repository. Media retention (\<^verbatim>\<open>media_retention.rs\<close>) and re-resolution (\<^verbatim>\<open>re_resolution.rs\<close>) are optional
  schedules beside the pipeline. Privacy deletion (\<^verbatim>\<open>privacy_deletion.rs\<close>) is represented only by the tables
  it writes. The process (\<^verbatim>\<open>src/services\<close>), connecting to NATS and the select loop of the worker are I/O
  around the modelled operations.
\<close>

end
